(* ===== verification/Prelude.thy ===== *)
theory Prelude
  imports Main "HOL-Library.Word"
begin

text \<open>
  Shared vocabulary of the development: the machine integer type of the Go
  fields, decimal and hexadecimal digits as the JSON codec and the remote
  store print them, ASCII case folding as Go's JSON decoder matches field
  names, and the list lemmas the component theories share.
\<close>

named_theorems codec_simps "rules that evaluate marshalled policies through the JSON codec"
named_theorems roundtrip_laws "encode-then-decode laws of the codec layers"

type_synonym int64 = "64 word"

section \<open>Characters\<close>

definition is_digit :: "char \<Rightarrow> bool" where
  "is_digit c \<longleftrightarrow> (48::nat) \<le> of_char c \<and> (of_char c :: nat) \<le> 57"

definition digit_char :: "nat \<Rightarrow> char" where
  "digit_char d = char_of (48 + d)"

definition digit_value :: "char \<Rightarrow> nat" where
  "digit_value c = of_char c - 48"

definition hex_char :: "nat \<Rightarrow> char" where
  \<comment> \<open>Go's encoder writes lower-case hex digits (\<open>hex = "0123456789abcdef"\<close>).\<close>
  "hex_char d = (if d < 10 then char_of (48 + d) else char_of (87 + d))"

definition ascii_char :: "char \<Rightarrow> bool" where
  "ascii_char c \<longleftrightarrow> (of_char c :: nat) < 128"

definition hex_value :: "char \<Rightarrow> nat option" where
  "hex_value c =
     (let n = (of_char c :: nat) in
      if 48 \<le> n \<and> n \<le> 57 then Some (n - 48)
      else if 97 \<le> n \<and> n \<le> 102 then Some (n - 87)
      else if 65 \<le> n \<and> n \<le> 70 then Some (n - 55)
      else None)"

definition ascii_lower :: "char \<Rightarrow> char" where
  "ascii_lower c =
     (let n = (of_char c :: nat) in if 65 \<le> n \<and> n \<le> 90 then char_of (n + 32) else c)"

section \<open>Decimal numerals\<close>

fun dec_digits :: "nat \<Rightarrow> string" where
  "dec_digits n =
     (if n < 10 then [digit_char n] else dec_digits (n div 10) @ [digit_char (n mod 10)])"

declare dec_digits.simps [simp del]

definition nat_of_dec :: "string \<Rightarrow> nat" where
  "nat_of_dec cs = foldl (\<lambda>acc c. 10 * acc + digit_value c) 0 cs"

lemma digit_value_char [simp]: "d < 10 \<Longrightarrow> digit_value (digit_char d) = d"
  by (simp add: digit_value_def digit_char_def)

lemma is_digit_char [simp]: "d < 10 \<Longrightarrow> is_digit (digit_char d)"
  by (simp add: is_digit_def digit_char_def of_char_of)

lemma digit_char_inj: "d < 10 \<Longrightarrow> e < 10 \<Longrightarrow> digit_char d = digit_char e \<longleftrightarrow> d = e"
  by (metis digit_value_char)

lemma nat_of_dec_snoc [simp]: "nat_of_dec (cs @ [c]) = 10 * nat_of_dec cs + digit_value c"
  by (simp add: nat_of_dec_def)

lemma nat_of_dec_Nil [simp]: "nat_of_dec [] = 0"
  by (simp add: nat_of_dec_def)

lemma nat_of_dec_single [simp]: "nat_of_dec [c] = digit_value c"
  by (simp add: nat_of_dec_def)

lemma digit_value_zero [simp]: "digit_value CHR ''0'' = 0"
  by (simp add: digit_value_def)

lemma dec_digits_small [simp]: "n < 10 \<Longrightarrow> dec_digits n = [digit_char n]"
  by (simp add: dec_digits.simps)

lemma dec_digits_large: "\<not> n < 10 \<Longrightarrow> dec_digits n = dec_digits (n div 10) @ [digit_char (n mod 10)]"
  by (simp add: dec_digits.simps [of n])

lemma nat_of_dec_digits [simp, roundtrip_laws]: "nat_of_dec (dec_digits n) = n"
proof (induction n rule: dec_digits.induct)
  case (1 n)
  show ?case
  proof (cases "n < 10")
    case True
    then show ?thesis by simp
  next
    case False
    with "1.IH" show ?thesis by (simp add: dec_digits_large)
  qed
qed

lemma dec_digits_all_digits: "c \<in> set (dec_digits n) \<Longrightarrow> is_digit c"
proof (induction n rule: dec_digits.induct)
  case (1 n)
  then show ?case by (cases "n < 10") (auto simp: dec_digits_large)
qed

lemma dec_digits_not_Nil [simp]: "dec_digits n \<noteq> []"
  by (cases "n < 10") (simp_all add: dec_digits_large)

lemma dec_digits_hd: "hd (dec_digits n) = CHR ''0'' \<Longrightarrow> n = 0"
proof (induction n rule: dec_digits.induct)
  case (1 n)
  show ?case
  proof (cases "n < 10")
    case True
    then have "digit_value (digit_char n) = digit_value CHR ''0''" using "1.prems" by simp
    with True show ?thesis by simp
  next
    case False
    then have "hd (dec_digits (n div 10)) = CHR ''0''"
      using "1.prems" by (simp add: dec_digits_large)
    with "1.IH" False have "n div 10 = 0" by simp
    with False show ?thesis by simp
  qed
qed

lemma dec_digits_inj: "dec_digits m = dec_digits n \<longleftrightarrow> m = n"
  by (metis nat_of_dec_digits)

section \<open>Hexadecimal digits\<close>

lemma hex_value_char [simp]: "d < 16 \<Longrightarrow> hex_value (hex_char d) = Some d"
  by (auto simp: hex_value_def hex_char_def of_char_of Let_def)

lemma hex_value_bound: "hex_value c = Some d \<Longrightarrow> d < 16"
  by (auto simp: hex_value_def Let_def split: if_splits)

section \<open>Lists\<close>

lemma dropWhile_append_stop [simp]:
  "(\<forall>x \<in> set xs. P x) \<Longrightarrow> dropWhile P (xs @ ys) = dropWhile P ys"
  by (induction xs) auto

lemma takeWhile_append_stop [simp]:
  "(\<forall>x \<in> set xs. P x) \<Longrightarrow> takeWhile P (xs @ ys) = xs @ takeWhile P ys"
  by (induction xs) auto

lemma dropWhile_length_le [simp]: "length (dropWhile P xs) \<le> length xs"
  by (induction xs) auto

text \<open>Outcomes of the handlers are tuples; a run's result is named by its components.\<close>

lemma outcome_eq: "fst x = a \<Longrightarrow> x = (a, fst (snd x), snd (snd x))"
  by (cases x) auto

lemma result_eq: "fst x = a \<Longrightarrow> x = (a, snd x)"
  by (cases x) auto

end
