(* ===== verification/Json.thy ===== *)
theory Json
  imports Prelude
begin

text \<open>
  The JSON layer that \<open>marshalIamPolicy\<close> and \<open>unmarshalIamPolicy\<close> go through
  (Go's \<open>encoding/json\<close>, called by the resource, not part of it): a JSON value
  type, the encoder's printer (compact output, HTML-safe string escaping, the line
  and paragraph separators escaped, keys in the order given), and a recursive-descent decoder with a fuel argument whose
  sufficiency is proved, with the round trip of the printer through the
  decoder and the proof that the printer never emits a raw separator.  Strings are byte strings (\<open>char\<close> is a byte); a number
  is kept as its literal text, as the decoder hands it to the field it fills.
\<close>

section \<open>Values and errors\<close>

datatype json =
    JNull
  | JBool bool
  | JNum string
  | JStr string
  | JArr "json list"
  | JObj "(string \<times> json) list"

datatype json_error =
    UnexpectedEnd
  | SyntaxError char
  | InvalidNumber string
  | OutOfFuel
  | TypeError string

abbreviation quote_char :: char where "quote_char \<equiv> CHR 0x22"
abbreviation bslash :: char where "bslash \<equiv> CHR 0x5C"

definition is_ws :: "char \<Rightarrow> bool" where
  "is_ws c \<longleftrightarrow> c = CHR 0x20 \<or> c = CHR 0x09 \<or> c = CHR 0x0A \<or> c = CHR 0x0D"

abbreviation skip_ws :: "string \<Rightarrow> string" where
  "skip_ws \<equiv> dropWhile is_ws"

definition is_num_char :: "char \<Rightarrow> bool" where
  "is_num_char c \<longleftrightarrow> is_digit c \<or> c = CHR ''-'' \<or> c = CHR ''+'' \<or> c = CHR ''.''
     \<or> c = CHR ''e'' \<or> c = CHR ''E''"

section \<open>Number literals\<close>

definition exp_ok :: "string \<Rightarrow> bool" where
  "exp_ok r =
     (case r of
        [] \<Rightarrow> True
      | c # t \<Rightarrow>
          (c = CHR ''e'' \<or> c = CHR ''E'') \<and>
          (let ds = (case t of [] \<Rightarrow> []
                     | s # t' \<Rightarrow> if s = CHR ''+'' \<or> s = CHR ''-'' then t' else t)
           in ds \<noteq> [] \<and> list_all is_digit ds))"

definition frac_exp_ok :: "string \<Rightarrow> bool" where
  "frac_exp_ok r =
     (case r of
        [] \<Rightarrow> True
      | c # t \<Rightarrow>
          if c = CHR ''.'' then takeWhile is_digit t \<noteq> [] \<and> exp_ok (dropWhile is_digit t)
          else exp_ok r)"

definition int_ok :: "string \<Rightarrow> bool" where
  "int_ok s =
     (case s of
        [] \<Rightarrow> False
      | c # t \<Rightarrow>
          if c = CHR ''0'' then frac_exp_ok t
          else if is_digit c then frac_exp_ok (dropWhile is_digit t)
          else False)"

definition valid_number :: "string \<Rightarrow> bool" where
  "valid_number s = (case s of [] \<Rightarrow> False | c # t \<Rightarrow> if c = CHR ''-'' then int_ok t else int_ok s)"

section \<open>The printer\<close>

definition escape_char :: "char \<Rightarrow> string" where
  "escape_char c =
     (let n = (of_char c :: nat) in
      if c = quote_char then [bslash, quote_char]
      else if c = bslash then [bslash, bslash]
      else if c = CHR 0x0A then [bslash, CHR ''n'']
      else if c = CHR 0x0D then [bslash, CHR ''r'']
      else if c = CHR 0x09 then [bslash, CHR ''t'']
      else if n < 32 \<or> c = CHR ''<'' \<or> c = CHR ''>'' \<or> c = CHR ''&'' then
        [bslash, CHR ''u'', CHR ''0'', CHR ''0'', hex_char (n div 16), hex_char (n mod 16)]
      else [c])"

text \<open>
  \<open>json.Marshal\<close> also escapes the line and paragraph separators U+2028 and U+2029
  (UTF-8 \<open>E2 80 A8\<close> and \<open>E2 80 A9\<close>) as \<open>\u2028\<close> and \<open>\u2029\<close>, so that
  its output is valid JavaScript; every other byte is escaped on its own.
\<close>

fun escape_string :: "string \<Rightarrow> string" where
  "escape_string (a # b # c # r) =
     (if a = CHR 0xE2 \<and> b = CHR 0x80 \<and> (c = CHR 0xA8 \<or> c = CHR 0xA9)
      then [bslash, CHR ''u'', CHR ''2'', CHR ''0'', CHR ''2'', hex_char (of_char c mod 16)] @ escape_string r
      else escape_char a @ escape_string (b # c # r))"
| "escape_string s = concat (map escape_char s)"

definition quote_string :: "string \<Rightarrow> string" where
  "quote_string s = quote_char # escape_string s @ [quote_char]"

text \<open>
  Whether a text holds a raw line or paragraph separator (the bytes the
  printer escapes), tested as the printer tests it.
\<close>

fun has_separator :: "string \<Rightarrow> bool" where
  "has_separator (a # b # c # r) =
     ((a = CHR 0xE2 \<and> b = CHR 0x80 \<and> (c = CHR 0xA8 \<or> c = CHR 0xA9)) \<or> has_separator (b # c # r))"
| "has_separator _ = False"

fun commas :: "string list \<Rightarrow> string" where
  "commas [] = []"
| "commas [x] = x"
| "commas (x # xs) = x @ CHR '','' # commas xs"

fun print_json :: "json \<Rightarrow> string" where
  "print_json JNull = ''null''"
| "print_json (JBool b) = (if b then ''true'' else ''false'')"
| "print_json (JNum lit) = lit"
| "print_json (JStr s) = quote_string s"
| "print_json (JArr vs) = CHR ''['' # commas (map print_json vs) @ [CHR '']'']"
| "print_json (JObj kvs) =
     CHR ''{'' # commas (map (\<lambda>(k, v). quote_string k @ CHR '':'' # print_json v) kvs) @ [CHR ''}'']"

fun wf_json :: "json \<Rightarrow> bool" where
  "wf_json (JNum lit) = valid_number lit"
| "wf_json (JArr vs) = list_all wf_json vs"
| "wf_json (JObj kvs) = list_all (\<lambda>(k, v). wf_json v) kvs"
| "wf_json _ = True"

section \<open>String literals\<close>

definition utf8_encode :: "nat \<Rightarrow> string" where
  "utf8_encode cp =
     (if cp < 0x80 then [char_of cp]
      else if cp < 0x800 then [char_of (0xC0 + cp div 64), char_of (0x80 + cp mod 64)]
      else if cp < 0x10000 then
        [char_of (0xE0 + cp div 4096), char_of (0x80 + (cp div 64) mod 64), char_of (0x80 + cp mod 64)]
      else [char_of (0xF0 + cp div 262144), char_of (0x80 + (cp div 4096) mod 64),
            char_of (0x80 + (cp div 64) mod 64), char_of (0x80 + cp mod 64)])"

fun hex4 :: "string \<Rightarrow> (nat \<times> string) option" where
  "hex4 (a # b # c # d # r) =
     (case (hex_value a, hex_value b, hex_value c, hex_value d) of
        (Some w, Some x, Some y, Some z) \<Rightarrow> Some (4096 * w + 256 * x + 16 * y + z, r)
      | _ \<Rightarrow> None)"
| "hex4 _ = None"

text \<open>
  A \<open>\u\<close> escape of a UTF-16 surrogate combines with a following \<open>\u\<close> escape of
  the matching low surrogate (Go's \<open>utf16.DecodeRune\<close>); a lone surrogate becomes
  U+FFFD and the following text is left unread.
\<close>

definition decode_u :: "nat \<Rightarrow> string \<Rightarrow> string \<times> string" where
  "decode_u cp r =
     (if 0xD800 \<le> cp \<and> cp < 0xE000 then
        (case r of
           c1 # c2 # r' \<Rightarrow>
             if c1 = bslash \<and> c2 = CHR ''u'' then
               (case hex4 r' of
                  Some (cp2, r'') \<Rightarrow>
                    if cp < 0xDC00 \<and> 0xDC00 \<le> cp2 \<and> cp2 < 0xE000
                    then (utf8_encode (0x10000 + (cp - 0xD800) * 1024 + (cp2 - 0xDC00)), r'')
                    else (utf8_encode 0xFFFD, r)
                | None \<Rightarrow> (utf8_encode 0xFFFD, r))
             else (utf8_encode 0xFFFD, r)
         | _ \<Rightarrow> (utf8_encode 0xFFFD, r))
      else (utf8_encode cp, r))"

fun unescape :: "string \<Rightarrow> json_error + (string \<times> string)" where
  "unescape [] = Inl UnexpectedEnd"
| "unescape (e # r) =
     (if e = quote_char \<or> e = bslash \<or> e = CHR ''/'' then Inr ([e], r)
      else if e = CHR ''b'' then Inr ([CHR 0x08], r)
      else if e = CHR ''f'' then Inr ([CHR 0x0C], r)
      else if e = CHR ''n'' then Inr ([CHR 0x0A], r)
      else if e = CHR ''r'' then Inr ([CHR 0x0D], r)
      else if e = CHR ''t'' then Inr ([CHR 0x09], r)
      else if e = CHR ''u'' then
        (case hex4 r of None \<Rightarrow> Inl (SyntaxError e) | Some (cp, r') \<Rightarrow> Inr (decode_u cp r'))
      else Inl (SyntaxError e))"

lemma hex4_length: "hex4 s = Some (cp, r) \<Longrightarrow> length r < length s"
  by (induction s rule: hex4.induct) (auto split: option.splits)

lemma decode_u_length: "decode_u cp r = (bs, r') \<Longrightarrow> length r' \<le> length r"
  by (auto simp: decode_u_def dest!: hex4_length split: if_splits list.splits option.splits)

lemma unescape_length: "unescape s = Inr (bs, r) \<Longrightarrow> length r < length s"
proof (cases s)
  case (Cons e t)
  assume "unescape s = Inr (bs, r)"
  with Cons show ?thesis
    by (auto dest!: hex4_length decode_u_length split: if_splits option.splits
             intro: le_less_trans)
qed simp

function parse_string :: "string \<Rightarrow> json_error + (string \<times> string)" where
  "parse_string [] = Inl UnexpectedEnd"
| "parse_string (c # r) =
     (if c = quote_char then Inr ([], r)
      else if c = bslash then
        (case unescape r of
           Inl e \<Rightarrow> Inl e
         | Inr (bs, r') \<Rightarrow>
             (case parse_string r' of Inl e \<Rightarrow> Inl e | Inr (s, r'') \<Rightarrow> Inr (bs @ s, r'')))
      else if (of_char c :: nat) < 32 then Inl (SyntaxError c)
      else (case parse_string r of Inl e \<Rightarrow> Inl e | Inr (s, r') \<Rightarrow> Inr (c # s, r')))"
  by pat_completeness auto
termination
  by (relation "measure length") (auto dest: unescape_length)

section \<open>Values\<close>

definition map_res :: "('a \<Rightarrow> 'b) \<Rightarrow> json_error + ('a \<times> string) \<Rightarrow> json_error + ('b \<times> string)" where
  "map_res f x = (case x of Inl e \<Rightarrow> Inl e | Inr (a, r) \<Rightarrow> Inr (f a, r))"

definition scan_literal :: "string \<Rightarrow> json \<Rightarrow> string \<Rightarrow> json_error + (json \<times> string)" where
  "scan_literal word v r =
     (if take (length word) r = word then Inr (v, drop (length word) r)
      else if length r < length word then Inl UnexpectedEnd
      else Inl (SyntaxError (hd r)))"

definition scan_number :: "string \<Rightarrow> json_error + (json \<times> string)" where
  "scan_number s =
     (let lit = takeWhile is_num_char s in
      if valid_number lit then Inr (JNum lit, dropWhile is_num_char s) else Inl (InvalidNumber lit))"

text \<open>
  The decoder.  Each function receives the fuel \<open>n\<close>: a value spends one unit
  to open an array or object, the element list is parsed with the fuel of its
  array, and each comma spends one unit.  Since every unit goes with at least
  one character of input, \<open>Suc (length s)\<close> units are always enough
  (\<open>parse_value_fuel\<close> below).
\<close>

function parse_value :: "nat \<Rightarrow> string \<Rightarrow> json_error + (json \<times> string)"
  and parse_elems :: "nat \<Rightarrow> string \<Rightarrow> json_error + (json list \<times> string)"
  and parse_members :: "nat \<Rightarrow> string \<Rightarrow> json_error + ((string \<times> json) list \<times> string)" where
  "parse_value 0 s = Inl OutOfFuel"
| "parse_value (Suc n) s =
     (case skip_ws s of
        [] \<Rightarrow> Inl UnexpectedEnd
      | c # r \<Rightarrow>
          if c = CHR ''['' then
            (case skip_ws r of
               [] \<Rightarrow> Inl UnexpectedEnd
             | d # r' \<Rightarrow> if d = CHR '']'' then Inr (JArr [], r')
                         else map_res JArr (parse_elems n (skip_ws r)))
          else if c = CHR ''{'' then
            (case skip_ws r of
               [] \<Rightarrow> Inl UnexpectedEnd
             | d # r' \<Rightarrow> if d = CHR ''}'' then Inr (JObj [], r')
                         else map_res JObj (parse_members n (skip_ws r)))
          else if c = quote_char then map_res JStr (parse_string r)
          else if c = CHR ''t'' then scan_literal ''rue'' (JBool True) r
          else if c = CHR ''f'' then scan_literal ''alse'' (JBool False) r
          else if c = CHR ''n'' then scan_literal ''ull'' JNull r
          else if c = CHR ''-'' \<or> is_digit c then scan_number (c # r)
          else Inl (SyntaxError c))"
| "parse_elems n s =
     (case parse_value n s of
        Inl e \<Rightarrow> Inl e
      | Inr (v, r) \<Rightarrow>
          (case skip_ws r of
             [] \<Rightarrow> Inl UnexpectedEnd
           | c # r' \<Rightarrow>
               if c = CHR '','' then
                 (case n of 0 \<Rightarrow> Inl OutOfFuel | Suc m \<Rightarrow> map_res (Cons v) (parse_elems m r'))
               else if c = CHR '']'' then Inr ([v], r')
               else Inl (SyntaxError c)))"
| "parse_members n s =
     (case skip_ws s of
        [] \<Rightarrow> Inl UnexpectedEnd
      | c # r \<Rightarrow>
          if c \<noteq> quote_char then Inl (SyntaxError c)
          else
            (case parse_string r of
               Inl e \<Rightarrow> Inl e
             | Inr (k, r1) \<Rightarrow>
                 (case skip_ws r1 of
                    [] \<Rightarrow> Inl UnexpectedEnd
                  | d # r2 \<Rightarrow>
                      if d \<noteq> CHR '':'' then Inl (SyntaxError d)
                      else
                        (case parse_value n r2 of
                           Inl e \<Rightarrow> Inl e
                         | Inr (v, r3) \<Rightarrow>
                             (case skip_ws r3 of
                                [] \<Rightarrow> Inl UnexpectedEnd
                              | e # r4 \<Rightarrow>
                                  if e = CHR '','' then
                                    (case n of 0 \<Rightarrow> Inl OutOfFuel
                                     | Suc m \<Rightarrow> map_res (Cons (k, v)) (parse_members m r4))
                                  else if e = CHR ''}'' then Inr ([(k, v)], r4)
                                  else Inl (SyntaxError e))))))"
  by pat_completeness auto
termination
  by (relation "measure (\<lambda>x. case x of Inl (n, s) \<Rightarrow> 2 * n
                          | Inr (Inl (n, s)) \<Rightarrow> 2 * n + 1 | Inr (Inr (n, s)) \<Rightarrow> 2 * n + 1)") auto

text \<open>The element and member equations have no constructor pattern: unfolded only by hand.\<close>

declare parse_elems.simps [simp del] parse_members.simps [simp del]

definition json_decode :: "string \<Rightarrow> json_error + json" where
  "json_decode s =
     (case parse_value (Suc (length s)) s of
        Inl e \<Rightarrow> Inl e
      | Inr (v, r) \<Rightarrow> (case skip_ws r of [] \<Rightarrow> Inr v | c # _ \<Rightarrow> Inl (SyntaxError c)))"

section \<open>The decoder consumes input and has enough fuel\<close>


lemma map_res_Inr [simp]: "map_res f x = Inr (b, r) \<longleftrightarrow> (\<exists>a. x = Inr (a, r) \<and> b = f a)"
  by (auto simp: map_res_def split: sum.splits)

lemma map_res_Inl [simp]: "map_res f x = Inl e \<longleftrightarrow> x = Inl e"
  by (auto simp: map_res_def split: sum.splits)

lemma skip_ws_Cons_length: "skip_ws s = c # r \<Longrightarrow> length r < length s"
proof -
  assume "skip_ws s = c # r"
  moreover have "length (skip_ws s) \<le> length s" by (rule dropWhile_length_le)
  ultimately show ?thesis by simp
qed

lemma skip_ws_length: "length (skip_ws s) \<le> length s"
  by (rule dropWhile_length_le)

lemma parse_string_length: "parse_string s = Inr (x, r) \<Longrightarrow> length r < length s"
proof (induction s arbitrary: x rule: parse_string.induct)
  case 1
  then show ?case by simp
next
  case (2 c s)
  show ?case
  proof (cases "c = bslash")
    case True
    with "2.prems" obtain bs r1 y where u: "unescape s = Inr (bs, r1)"
        and p: "parse_string r1 = Inr (y, r)"
      by (auto split: sum.splits)
    have "length r < length r1" by (rule "2.IH"(1) [OF _ _ u refl p]) (simp_all add: True)
    with unescape_length [OF u] show ?thesis by simp
  next
    case False
    with "2.prems" "2.IH"(2) show ?thesis
      by (fastforce split: if_splits sum.splits)
  qed
qed

lemma unescape_no_fuel: "unescape s \<noteq> Inl OutOfFuel"
  by (cases s) (auto split: option.splits)

lemma parse_string_no_fuel: "parse_string s \<noteq> Inl OutOfFuel"
proof (induction s rule: parse_string.induct)
  case (2 c s)
  then show ?case
    using unescape_no_fuel [of s] by (auto split: sum.splits)
qed simp

lemma scan_literal_length: "scan_literal w v s = Inr (x, r) \<Longrightarrow> length r \<le> length s"
  by (auto simp: scan_literal_def split: if_splits)

lemma scan_number_length: "scan_number s = Inr (x, r) \<Longrightarrow> length r < length s"
proof -
  assume "scan_number s = Inr (x, r)"
  then have v: "valid_number (takeWhile is_num_char s)" and r: "r = dropWhile is_num_char s"
    by (auto simp: scan_number_def Let_def split: if_splits)
  from v have "takeWhile is_num_char s \<noteq> []" by (auto simp: valid_number_def)
  moreover have "length (takeWhile is_num_char s) + length r = length s"
    using r by (metis length_append takeWhile_dropWhile_id)
  ultimately show ?thesis by (cases "takeWhile is_num_char s") auto
qed

text \<open>The scalar branch of \<open>parse_value\<close>, and the prefix of an object member up to its value.\<close>

lemma parse_scalar:
  "skip_ws s = c # r0 \<Longrightarrow> c \<noteq> CHR ''['' \<Longrightarrow> c \<noteq> CHR ''{'' \<Longrightarrow>
   parse_value (Suc n) s =
     (if c = quote_char then map_res JStr (parse_string r0)
      else if c = CHR ''t'' then scan_literal ''rue'' (JBool True) r0
      else if c = CHR ''f'' then scan_literal ''alse'' (JBool False) r0
      else if c = CHR ''n'' then scan_literal ''ull'' JNull r0
      else if c = CHR ''-'' \<or> is_digit c then scan_number (c # r0)
      else Inl (SyntaxError c))"
  by simp

lemma parse_scalar_consumes:
  assumes "skip_ws s = c # r0" "c \<noteq> CHR ''[''" "c \<noteq> CHR ''{''" "parse_value (Suc n) s = Inr (v, r)"
  shows "length r < length s"
proof -
  have "length r \<le> length r0"
    using assms(4) parse_scalar [OF assms(1-3)]
    by (auto split: if_splits dest: parse_string_length scan_literal_length scan_number_length)
  with skip_ws_Cons_length [OF assms(1)] show ?thesis by simp
qed

lemma parse_members_prefix:
  assumes "parse_members n s = x" and "case x of Inr _ \<Rightarrow> True | Inl e \<Rightarrow> e = OutOfFuel"
  obtains r0 k r1 r2 where "skip_ws s = quote_char # r0" "parse_string r0 = Inr (k, r1)"
    "skip_ws r1 = CHR '':'' # r2" "length r2 < length s"
    "(case parse_value n r2 of
        Inl e \<Rightarrow> Inl e
      | Inr (v, r3) \<Rightarrow>
          (case skip_ws r3 of
             [] \<Rightarrow> Inl UnexpectedEnd
           | e # r4 \<Rightarrow>
               if e = CHR '','' then
                 (case n of 0 \<Rightarrow> Inl OutOfFuel | Suc m \<Rightarrow> map_res (Cons (k, v)) (parse_members m r4))
               else if e = CHR ''}'' then Inr ([(k, v)], r4)
               else Inl (SyntaxError e))) = x"
proof -
  note prems = assms(1) [unfolded parse_members.simps [of n s]]
  from prems assms(2) obtain r0 where sw: "skip_ws s = quote_char # r0"
    by (auto split: list.splits if_splits)
  from prems assms(2) sw parse_string_no_fuel [of r0] obtain k r1 where ps: "parse_string r0 = Inr (k, r1)"
    by (auto split: sum.splits)
  from prems assms(2) sw ps obtain r2 where sw2: "skip_ws r1 = CHR '':'' # r2"
    by (auto split: list.splits if_splits)
  have "length r2 < length s"
    using skip_ws_Cons_length [OF sw] skip_ws_Cons_length [OF sw2] parse_string_length [OF ps] by linarith
  with prems sw ps sw2 show ?thesis by (intro that) simp_all
qed

text \<open>One step of each mutual induction, with the induction hypotheses as premises.\<close>

lemma consumes_value:
  assumes sw: "skip_ws s = c # r0"
    and IHe: "\<And>d r1 vs r. c = CHR ''['' \<Longrightarrow> skip_ws r0 = d # r1 \<Longrightarrow> d \<noteq> CHR '']'' \<Longrightarrow>
                parse_elems n (skip_ws r0) = Inr (vs, r) \<Longrightarrow> length r < length (skip_ws r0)"
    and IHm: "\<And>d r1 kvs r. c \<noteq> CHR ''['' \<Longrightarrow> c = CHR ''{'' \<Longrightarrow> skip_ws r0 = d # r1 \<Longrightarrow> d \<noteq> CHR ''}'' \<Longrightarrow>
                parse_members n (skip_ws r0) = Inr (kvs, r) \<Longrightarrow> length r < length (skip_ws r0)"
    and p: "parse_value (Suc n) s = Inr (v, r)"
  shows "length r < length s"
proof -
  have lt: "length (skip_ws r0) < length s"
    using skip_ws_Cons_length [OF sw] skip_ws_length [of r0] by linarith
  consider (arr) "c = CHR ''[''" | (obj) "c \<noteq> CHR ''[''" "c = CHR ''{''"
    | (other) "c \<noteq> CHR ''[''" "c \<noteq> CHR ''{''" by blast
  then show ?thesis
  proof cases
    case arr
    from p sw arr obtain d r1 where sw2: "skip_ws r0 = d # r1" by (auto split: list.splits)
    show ?thesis
    proof (cases "d = CHR '']''")
      case True
      with p sw sw2 arr lt skip_ws_Cons_length [OF sw2] show ?thesis by simp
    next
      case False
      with p sw sw2 arr obtain vs where "parse_elems n (skip_ws r0) = Inr (vs, r)" by auto
      from IHe [OF arr sw2 False this] lt show ?thesis by linarith
    qed
  next
    case obj
    from p sw obj obtain d r1 where sw2: "skip_ws r0 = d # r1" by (auto split: list.splits)
    show ?thesis
    proof (cases "d = CHR ''}''")
      case True
      with p sw sw2 obj lt skip_ws_Cons_length [OF sw2] show ?thesis by simp
    next
      case False
      with p sw sw2 obj obtain kvs where "parse_members n (skip_ws r0) = Inr (kvs, r)" by auto
      from IHm [OF obj sw2 False this] lt show ?thesis by linarith
    qed
  next
    case other
    from sw other p show ?thesis by (rule parse_scalar_consumes)
  qed
qed

lemma consumes_elems:
  assumes IHv: "\<And>v r. parse_value n s = Inr (v, r) \<Longrightarrow> length r < length s"
    and IHe: "\<And>v r1 r2 m vs r. parse_value n s = Inr (v, r1) \<Longrightarrow> skip_ws r1 = CHR '','' # r2 \<Longrightarrow>
                n = Suc m \<Longrightarrow> parse_elems m r2 = Inr (vs, r) \<Longrightarrow> length r < length r2"
    and p: "parse_elems n s = Inr (vs, r)"
  shows "length r < length s"
proof -
  note prems = p [unfolded parse_elems.simps [of n s]]
  from prems obtain v r1 where pv: "parse_value n s = Inr (v, r1)"
    by (auto split: sum.splits)
  from prems pv obtain c r2 where sw: "skip_ws r1 = c # r2"
    by (auto split: list.splits)
  have l: "length r2 < length s" using IHv [OF pv] skip_ws_Cons_length [OF sw] by linarith
  show ?thesis
  proof (cases "c = CHR '',''")
    case True
    with prems pv sw obtain m vs where m: "n = Suc m" and pe: "parse_elems m r2 = Inr (vs, r)"
      by (auto split: nat.splits)
    from IHe [OF pv sw [unfolded True] m pe] l show ?thesis by simp
  next
    case False
    with prems pv sw l show ?thesis by (auto split: if_splits)
  qed
qed

lemma consumes_members:
  assumes IHv: "\<And>r0 k r1 r2 v r3. skip_ws s = quote_char # r0 \<Longrightarrow> parse_string r0 = Inr (k, r1) \<Longrightarrow>
                skip_ws r1 = CHR '':'' # r2 \<Longrightarrow> parse_value n r2 = Inr (v, r3) \<Longrightarrow> length r3 < length r2"
    and IHm: "\<And>r0 k r1 r2 v r3 r4 m kvs r. skip_ws s = quote_char # r0 \<Longrightarrow> parse_string r0 = Inr (k, r1) \<Longrightarrow>
                skip_ws r1 = CHR '':'' # r2 \<Longrightarrow> parse_value n r2 = Inr (v, r3) \<Longrightarrow>
                skip_ws r3 = CHR '','' # r4 \<Longrightarrow> n = Suc m \<Longrightarrow> parse_members m r4 = Inr (kvs, r) \<Longrightarrow>
                length r < length r4"
    and p: "parse_members n s = Inr (kvs, r)"
  shows "length r < length s"
proof -
  obtain r0 k r1 r2 where sw: "skip_ws s = quote_char # r0" and ps: "parse_string r0 = Inr (k, r1)"
      and sw2: "skip_ws r1 = CHR '':'' # r2" and l0: "length r2 < length s"
      and eq: "(case parse_value n r2 of Inl e \<Rightarrow> Inl e | Inr (v, r3) \<Rightarrow>
              (case skip_ws r3 of [] \<Rightarrow> Inl UnexpectedEnd | e # r4 \<Rightarrow>
                 if e = CHR '','' then (case n of 0 \<Rightarrow> Inl OutOfFuel | Suc m \<Rightarrow> map_res (Cons (k, v)) (parse_members m r4))
                 else if e = CHR ''}'' then Inr ([(k, v)], r4) else Inl (SyntaxError e))) = Inr (kvs, r)"
    by (rule parse_members_prefix [OF p]) (simp, blast)
  from eq obtain v r3 where pv: "parse_value n r2 = Inr (v, r3)"
    by (auto split: sum.splits)
  from eq pv obtain e r4 where sw3: "skip_ws r3 = e # r4"
    by (auto split: list.splits)
  have l: "length r4 < length s"
    using l0 IHv [OF sw ps sw2 pv] skip_ws_Cons_length [OF sw3] by linarith
  from eq pv sw3 have tl: "(if e = CHR '','' then (case n of 0 \<Rightarrow> Inl OutOfFuel
        | Suc m \<Rightarrow> map_res (Cons (k, v)) (parse_members m r4))
      else if e = CHR ''}'' then Inr ([(k, v)], r4) else Inl (SyntaxError e)) = Inr (kvs, r)" by simp
  show ?thesis
  proof (cases "e = CHR '',''")
    case True
    with tl obtain m kvs' where m: "n = Suc m" and pm: "parse_members m r4 = Inr (kvs', r)"
      by (auto split: nat.splits)
    from IHm [OF sw ps sw2 pv sw3 [unfolded True] m pm] l show ?thesis by simp
  next
    case False
    with tl l show ?thesis by (auto split: if_splits)
  qed
qed

lemma parse_consumes:
  "parse_value n s = Inr (v, r) \<Longrightarrow> length r < length s"
  "parse_elems n s = Inr (vs, r) \<Longrightarrow> length r < length s"
  "parse_members n s = Inr (kvs, r) \<Longrightarrow> length r < length s"
proof (induction n s and n s and n s arbitrary: v r and vs r and kvs r
       rule: parse_value_parse_elems_parse_members.induct)
  case (1 s)
  then show ?case by simp
next
  case (2 n s)
  from "2.prems" obtain c r0 where sw: "skip_ws s = c # r0" by (auto split: list.splits)
  show ?case by (rule consumes_value [OF sw "2.IH"(1) [OF sw] "2.IH"(2) [OF sw] "2.prems"])
next
  case (3 n s)
  show ?case
    by (rule consumes_elems [OF _ _ "3.prems"]) (rule "3.IH"(1) "3.IH"(2), (assumption | rule refl)+)+
next
  case (4 n s)
  show ?case
    by (rule consumes_members [OF _ _ "4.prems"]) (rule "4.IH"(1) "4.IH"(2), (assumption | rule refl | simp)+)+
qed

lemma scan_no_fuel [simp]:
  "scan_literal w v s \<noteq> Inl OutOfFuel" "scan_number s \<noteq> Inl OutOfFuel"
  by (auto simp: scan_literal_def scan_number_def Let_def)

lemma fuel_value:
  assumes sw: "skip_ws s = c # r0"
    and IHe: "\<And>d r1. c = CHR ''['' \<Longrightarrow> skip_ws r0 = d # r1 \<Longrightarrow> d \<noteq> CHR '']'' \<Longrightarrow>
                parse_elems n (skip_ws r0) = Inl OutOfFuel \<Longrightarrow> n \<le> length (skip_ws r0)"
    and IHm: "\<And>d r1. c \<noteq> CHR ''['' \<Longrightarrow> c = CHR ''{'' \<Longrightarrow> skip_ws r0 = d # r1 \<Longrightarrow> d \<noteq> CHR ''}'' \<Longrightarrow>
                parse_members n (skip_ws r0) = Inl OutOfFuel \<Longrightarrow> n \<le> length (skip_ws r0)"
    and p: "parse_value (Suc n) s = Inl OutOfFuel"
  shows "Suc n \<le> length s"
proof -
  have lt: "length (skip_ws r0) < length s"
    using skip_ws_Cons_length [OF sw] skip_ws_length [of r0] by linarith
  consider (arr) "c = CHR ''[''" | (obj) "c \<noteq> CHR ''[''" "c = CHR ''{''"
    | (other) "c \<noteq> CHR ''[''" "c \<noteq> CHR ''{''" by blast
  then show ?thesis
  proof cases
    case arr
    from p sw arr obtain d r1 where sw2: "skip_ws r0 = d # r1" and nd: "d \<noteq> CHR '']''"
      and pe: "parse_elems n (skip_ws r0) = Inl OutOfFuel"
      by (auto split: list.splits if_splits)
    from IHe [OF arr sw2 nd pe] lt show ?thesis by linarith
  next
    case obj
    from p sw obj obtain d r1 where sw2: "skip_ws r0 = d # r1" and nd: "d \<noteq> CHR ''}''"
      and pm: "parse_members n (skip_ws r0) = Inl OutOfFuel"
      by (auto split: list.splits if_splits)
    from IHm [OF obj sw2 nd pm] lt show ?thesis by linarith
  next
    case other
    with p show ?thesis
      using parse_scalar [OF sw other] parse_string_no_fuel [of r0] by (auto split: if_splits)
  qed
qed

lemma fuel_elems:
  assumes IHv: "parse_value n s = Inl OutOfFuel \<Longrightarrow> n \<le> length s"
    and IHe: "\<And>v r1 r2 m. parse_value n s = Inr (v, r1) \<Longrightarrow> skip_ws r1 = CHR '','' # r2 \<Longrightarrow>
                n = Suc m \<Longrightarrow> parse_elems m r2 = Inl OutOfFuel \<Longrightarrow> m \<le> length r2"
    and p: "parse_elems n s = Inl OutOfFuel"
  shows "n \<le> length s"
proof (cases "parse_value n s")
  case (Inl e)
  with p IHv show ?thesis by (simp add: parse_elems.simps [of n s])
next
  case (Inr res)
  then obtain v r1 where pv: "parse_value n s = Inr (v, r1)" by (cases res) auto
  note prems = p [unfolded parse_elems.simps [of n s]]
  from prems pv obtain r2 where sw: "skip_ws r1 = CHR '','' # r2"
    by (auto split: list.splits if_splits)
  have "length r2 < length s" using parse_consumes(1) [OF pv] skip_ws_Cons_length [OF sw] by linarith
  with prems pv sw IHe [OF pv sw] show ?thesis by (cases n) simp_all
qed

lemma fuel_members:
  assumes IHv: "\<And>r0 k r1 r2. skip_ws s = quote_char # r0 \<Longrightarrow> parse_string r0 = Inr (k, r1) \<Longrightarrow>
                skip_ws r1 = CHR '':'' # r2 \<Longrightarrow> parse_value n r2 = Inl OutOfFuel \<Longrightarrow> n \<le> length r2"
    and IHm: "\<And>r0 k r1 r2 v r3 r4 m. skip_ws s = quote_char # r0 \<Longrightarrow> parse_string r0 = Inr (k, r1) \<Longrightarrow>
                skip_ws r1 = CHR '':'' # r2 \<Longrightarrow> parse_value n r2 = Inr (v, r3) \<Longrightarrow>
                skip_ws r3 = CHR '','' # r4 \<Longrightarrow> n = Suc m \<Longrightarrow> parse_members m r4 = Inl OutOfFuel \<Longrightarrow>
                m \<le> length r4"
    and p: "parse_members n s = Inl OutOfFuel"
  shows "n \<le> length s"
proof -
  obtain r0 k r1 r2 where sw: "skip_ws s = quote_char # r0" and ps: "parse_string r0 = Inr (k, r1)"
      and sw2: "skip_ws r1 = CHR '':'' # r2" and l0: "length r2 < length s"
      and eq: "(case parse_value n r2 of Inl e \<Rightarrow> Inl e | Inr (v, r3) \<Rightarrow>
              (case skip_ws r3 of [] \<Rightarrow> Inl UnexpectedEnd | e # r4 \<Rightarrow>
                 if e = CHR '','' then (case n of 0 \<Rightarrow> Inl OutOfFuel | Suc m \<Rightarrow> map_res (Cons (k, v)) (parse_members m r4))
                 else if e = CHR ''}'' then Inr ([(k, v)], r4) else Inl (SyntaxError e))) = Inl OutOfFuel"
    by (rule parse_members_prefix [OF p]) (simp, blast)
  show ?thesis
  proof (cases "parse_value n r2")
    case (Inl e)
    with eq IHv [OF sw ps sw2] l0 show ?thesis by simp
  next
    case (Inr res)
    then obtain v r3 where pv: "parse_value n r2 = Inr (v, r3)" by (cases res) auto
    from eq pv obtain r4 where sw3: "skip_ws r3 = CHR '','' # r4"
      by (auto split: list.splits if_splits)
    have "length r4 < length s"
      using l0 parse_consumes(1) [OF pv] skip_ws_Cons_length [OF sw3] by linarith
    with eq pv sw3 IHm [OF sw ps sw2 pv sw3] show ?thesis by (cases n) simp_all
  qed
qed

lemma parse_fuel_needed:
  "parse_value n s = Inl OutOfFuel \<Longrightarrow> n \<le> length s"
  "parse_elems n s = Inl OutOfFuel \<Longrightarrow> n \<le> length s"
  "parse_members n s = Inl OutOfFuel \<Longrightarrow> n \<le> length s"
proof (induction n s and n s and n s rule: parse_value_parse_elems_parse_members.induct)
  case (1 s)
  then show ?case by simp
next
  case (2 n s)
  from "2.prems" obtain c r0 where sw: "skip_ws s = c # r0" by (auto split: list.splits)
  show ?case by (rule fuel_value [OF sw "2.IH"(1) [OF sw] "2.IH"(2) [OF sw] "2.prems"])
next
  case (3 n s)
  show ?case
    by (rule fuel_elems [OF _ _ "3.prems"]) (rule "3.IH"(1) "3.IH"(2), (assumption | rule refl)+)+
next
  case (4 n s)
  show ?case
    by (rule fuel_members [OF _ _ "4.prems"]) (rule "4.IH"(1) "4.IH"(2), (assumption | rule refl | simp)+)+
qed

text \<open>
  The decoder terminates on every input: with the fuel \<open>json_decode\<close>
  supplies, it never runs out, whatever the text.
\<close>

theorem json_decode_fuel: "json_decode s \<noteq> Inl OutOfFuel"
proof
  assume "json_decode s = Inl OutOfFuel"
  then have "parse_value (Suc (length s)) s = Inl OutOfFuel"
    by (auto simp: json_decode_def split: sum.splits list.splits)
  then have "Suc (length s) \<le> length s" by (rule parse_fuel_needed(1))
  then show False by simp
qed

section \<open>Printing then decoding gives the value back\<close>


lemma hex_value_zero [simp]: "hex_value CHR ''0'' = Some 0"
  by (simp add: hex_value_def)

lemma utf8_encode_ascii [simp]: "cp < 0x80 \<Longrightarrow> utf8_encode cp = [char_of cp]"
  by (simp add: utf8_encode_def)

lemma parse_escape:
  "parse_string (escape_char c @ rest) = map_res (Cons c) (parse_string rest)"
proof -
  define n where "n = (of_char c :: nat)"
  have n256: "n < 256" unfolding n_def by (rule nat_of_char_less_256)
  show ?thesis
  proof (cases "c = quote_char \<or> c = bslash \<or> c = CHR 0x0A \<or> c = CHR 0x0D \<or> c = CHR 0x09")
    case True
    then show ?thesis
      by (auto simp: escape_char_def map_res_def split: sum.splits)
  next
    case plain: False
    show ?thesis
    proof (cases "n < 32 \<or> c = CHR ''<'' \<or> c = CHR ''>'' \<or> c = CHR ''&''")
      case True
      then have small: "n < 0x80" by (auto simp: n_def)
      have hx: "hex4 (CHR ''0'' # CHR ''0'' # hex_char (n div 16) # hex_char (n mod 16) # rest)
                = Some (n, rest)"
        using n256 by simp
      have "decode_u n rest = ([c], rest)"
        using small by (simp add: decode_u_def n_def)
      with plain True hx show ?thesis
        by (simp add: escape_char_def Let_def n_def map_res_def split: sum.splits)
    next
      case False
      with plain show ?thesis
        by (auto simp: escape_char_def Let_def n_def map_res_def split: sum.splits)
    qed
  qed
qed

lemma parse_escape_concat:
  "parse_string (concat (map escape_char s) @ rest) = map_res (append s) (parse_string rest)"
  by (induction s) (simp_all add: parse_escape map_res_def split: sum.splits)

lemma utf8_encode_separators:
  "utf8_encode 0x2028 = [CHR 0xE2, CHR 0x80, CHR 0xA8]" "utf8_encode 0x2029 = [CHR 0xE2, CHR 0x80, CHR 0xA9]"
proof -
  have "char_of (of_char c :: nat) = c" for c by (rule char_of_char)
  from this [of "CHR 0xE2"] this [of "CHR 0x80"] this [of "CHR 0xA8"] this [of "CHR 0xA9"]
  show "utf8_encode 0x2028 = [CHR 0xE2, CHR 0x80, CHR 0xA8]" "utf8_encode 0x2029 = [CHR 0xE2, CHR 0x80, CHR 0xA9]"
    by (simp_all add: utf8_encode_def)
qed

lemma parse_escape_separator:
  assumes c: "c = CHR 0xA8 \<or> c = CHR 0xA9"
  shows "parse_string (bslash # CHR ''u'' # CHR ''2'' # CHR ''0'' # CHR ''2'' # hex_char (of_char c mod 16) # rest) =
           map_res (\<lambda>s. CHR 0xE2 # CHR 0x80 # c # s) (parse_string rest)"
proof -
  have h: "hex4 (CHR ''2'' # CHR ''0'' # CHR ''2'' # hex_char (of_char c mod 16) # rest) =
             Some (0x2020 + of_char c mod 16, rest)"
  proof -
    have "hex_value CHR ''2'' = Some 2" by (simp add: hex_value_def)
    then show ?thesis by simp
  qed
  from c have "decode_u (0x2020 + of_char c mod 16) rest = ([CHR 0xE2, CHR 0x80, c], rest)"
    by (elim disjE) (simp_all add: decode_u_def utf8_encode_separators)
  with h show ?thesis by (simp add: map_res_def split: sum.splits)
qed

lemma parse_string_quote:
  "parse_string (escape_string s @ quote_char # r) = Inr (s, r)"
proof (induction s rule: escape_string.induct)
  case (1 a b c r')
  show ?case
  proof (cases "a = CHR 0xE2 \<and> b = CHR 0x80 \<and> (c = CHR 0xA8 \<or> c = CHR 0xA9)")
    case True
    then have "escape_string (a # b # c # r') @ quote_char # r =
                 bslash # CHR ''u'' # CHR ''2'' # CHR ''0'' # CHR ''2'' # hex_char (of_char c mod 16) #
                 escape_string r' @ quote_char # r"
      by simp
    moreover from True have "parse_string (bslash # CHR ''u'' # CHR ''2'' # CHR ''0'' # CHR ''2'' #
        hex_char (of_char c mod 16) # escape_string r' @ quote_char # r) =
        map_res (\<lambda>s. CHR 0xE2 # CHR 0x80 # c # s) (parse_string (escape_string r' @ quote_char # r))"
      by (intro parse_escape_separator) simp
    ultimately show ?thesis using True "1.IH"(1) by (simp del: parse_string.simps add: map_res_def)
  next
    case False
    then have "escape_string (a # b # c # r') @ quote_char # r = escape_char a @ escape_string (b # c # r') @ quote_char # r"
      by (simp only: escape_string.simps if_False append_assoc)
    with False "1.IH"(2) show ?thesis by (simp add: parse_escape map_res_def)
  qed
qed (simp_all add: parse_escape map_res_def)


definition stops :: "string \<Rightarrow> bool" where
  "stops r = (case r of [] \<Rightarrow> True | c # _ \<Rightarrow> \<not> is_num_char c)"

lemma stops_simps [simp]:
  "stops []" "stops (CHR '','' # r)" "stops (CHR '']'' # r)" "stops (CHR ''}'' # r)"
  by (simp_all add: stops_def is_num_char_def is_digit_def)

lemma not_ws_punct [simp]:
  "\<not> is_ws CHR '']''" "\<not> is_ws CHR ''}''" "\<not> is_ws CHR '',''" "\<not> is_ws CHR '':''"
  "\<not> is_ws quote_char" "\<not> is_ws CHR ''[''" "\<not> is_ws CHR ''{''"
  "\<not> is_ws CHR ''n''" "\<not> is_ws CHR ''t''" "\<not> is_ws CHR ''f''"
  by (simp_all add: is_ws_def)

lemma is_digit_zero [simp]: "is_digit CHR ''0''"
  by (simp add: is_digit_def)

lemma num_chars_digits: "list_all is_num_char (dropWhile is_digit t) \<Longrightarrow> list_all is_num_char t"
  by (induction t) (auto simp: is_num_char_def split: if_splits)

lemma exp_ok_chars: "exp_ok r \<Longrightarrow> list_all is_num_char r"
  by (auto simp: exp_ok_def Let_def is_num_char_def list_all_iff split: list.splits if_splits)

lemma frac_exp_ok_chars: "frac_exp_ok r \<Longrightarrow> list_all is_num_char r"
  by (auto simp: frac_exp_ok_def is_num_char_def intro: num_chars_digits dest: exp_ok_chars
           split: list.splits if_splits)

lemma valid_number_chars: "valid_number s \<Longrightarrow> list_all is_num_char s"
  by (auto simp: valid_number_def int_ok_def is_num_char_def intro: num_chars_digits
           dest: frac_exp_ok_chars split: list.splits if_splits)

lemma valid_number_start: "valid_number s \<Longrightarrow> \<exists>c t. s = c # t \<and> (c = CHR ''-'' \<or> is_digit c)"
  by (auto simp: valid_number_def int_ok_def is_digit_def split: list.splits if_splits)

lemma num_start_char:
  assumes "c = CHR ''-'' \<or> is_digit c"
  shows "\<not> is_ws c \<and> c \<noteq> CHR '']'' \<and> c \<noteq> CHR ''}'' \<and> c \<noteq> CHR ''['' \<and> c \<noteq> CHR ''{''
     \<and> c \<noteq> quote_char \<and> c \<noteq> CHR ''t'' \<and> c \<noteq> CHR ''f'' \<and> c \<noteq> CHR ''n''"
proof (cases "c = CHR ''-''")
  case True
  then show ?thesis by (simp add: is_ws_def)
next
  case False
  with assms have d: "48 \<le> (of_char c :: nat)" "(of_char c :: nat) \<le> 57" by (simp_all add: is_digit_def)
  have "of_char c \<noteq> (of_char x :: nat)" if "\<not> (48 \<le> (of_char x :: nat) \<and> (of_char x :: nat) \<le> 57)" for x
    using d that by auto
  from this [of "CHR '' ''"] this [of "CHR 0x09"] this [of "CHR 0x0A"] this [of "CHR 0x0D"]
       this [of "CHR '']''"] this [of "CHR ''}''"] this [of "CHR ''[''"] this [of "CHR ''{''"]
       this [of quote_char] this [of "CHR ''t''"] this [of "CHR ''f''"] this [of "CHR ''n''"]
  show ?thesis by (auto simp: is_ws_def)
qed

lemma parse_value_number:
  "c = CHR ''-'' \<or> is_digit c \<Longrightarrow> parse_value (Suc n) (c # s) = scan_number (c # s)"
  using num_start_char [of c] by simp

lemma scan_number_lit:
  assumes "valid_number lit" and "stops r"
  shows "scan_number (lit @ r) = Inr (JNum lit, r)"
proof -
  have all: "\<forall>c \<in> set lit. is_num_char c"
    using valid_number_chars [OF assms(1)] by (simp add: list_all_iff)
  have "takeWhile is_num_char r = [] \<and> dropWhile is_num_char r = r"
    using assms(2) by (cases r) (auto simp: stops_def)
  with all assms(1) show ?thesis by (simp add: scan_number_def)
qed

lemma print_json_start:
  "wf_json v \<Longrightarrow> \<exists>c t. print_json v = c # t \<and> \<not> is_ws c \<and> c \<noteq> CHR '']'' \<and> c \<noteq> CHR ''}''"
proof (cases v)
  case (JNum lit)
  assume "wf_json v"
  with JNum have "valid_number lit" by simp
  then obtain c t where lit: "lit = c # t" and h: "c = CHR ''-'' \<or> is_digit c"
    by (blast dest: valid_number_start)
  from num_start_char [OF h] have "\<not> is_ws c \<and> c \<noteq> CHR '']'' \<and> c \<noteq> CHR ''}''" by blast
  with JNum lit show ?thesis by simp
next
  case (JBool b)
  then show ?thesis by (cases b) (simp_all add: is_ws_def)
qed (simp_all add: is_ws_def quote_string_def)

lemma skip_ws_print:
  "wf_json v \<Longrightarrow> skip_ws (print_json v @ r) = print_json v @ r"
  using print_json_start [of v] by auto

lemma print_json_length: "wf_json v \<Longrightarrow> 0 < length (print_json v)"
  using print_json_start [of v] by auto

lemma parse_elems_print:
  assumes "\<forall>v \<in> set vs. wf_json v \<and>
             (\<forall>n r. length (print_json v) \<le> n \<longrightarrow> stops r \<longrightarrow> parse_value n (print_json v @ r) = Inr (v, r))"
    and "vs \<noteq> []" and "length (commas (map print_json vs)) < n"
  shows "parse_elems n (commas (map print_json vs) @ CHR '']'' # r) = Inr (vs, r)"
  using assms
proof (induction vs arbitrary: n)
  case Nil
  then show ?case by simp
next
  case (Cons v vs)
  then have wf: "wf_json v"
    and pv: "\<And>n r. length (print_json v) \<le> n \<Longrightarrow> stops r \<Longrightarrow> parse_value n (print_json v @ r) = Inr (v, r)"
    by auto
  show ?case
  proof (cases vs)
    case Nil
    with Cons.prems have "parse_value n (print_json v @ CHR '']'' # r) = Inr (v, CHR '']'' # r)"
      by (simp add: pv)
    with Nil show ?thesis
      by (subst parse_elems.simps, simp only:) simp
  next
    case (Cons w ws)
    let ?rest = "commas (map print_json vs)"
    have split: "commas (map print_json (v # vs)) = print_json v @ CHR '','' # ?rest"
      using Cons by simp
    from Cons.prems(3) split obtain m where m: "n = Suc m" and lm: "length ?rest < m"
      using print_json_length [OF wf] by (cases n) auto
    have hv: "parse_value n (print_json v @ CHR '','' # ?rest @ CHR '']'' # r) = Inr (v, CHR '','' # ?rest @ CHR '']'' # r)"
      using pv Cons.prems(3) split by simp
    have "parse_elems m (?rest @ CHR '']'' # r) = Inr (vs, r)"
      using Cons.IH Cons.prems(1) lm \<open>vs = w # ws\<close> by simp
    then have "map_res (Cons v) (parse_elems m (?rest @ CHR '']'' # r)) = Inr (v # vs, r)"
      by (simp add: map_res_def)
    moreover have "parse_elems n (print_json v @ CHR '','' # ?rest @ CHR '']'' # r)
        = map_res (Cons v) (parse_elems m (?rest @ CHR '']'' # r))"
      by (subst parse_elems.simps, simp only: hv) (simp add: m)
    ultimately show ?thesis using split by simp
  qed
qed


lemma commas_Cons_Cons: "xs \<noteq> [] \<Longrightarrow> commas (x # xs) = x @ CHR '','' # commas xs"
  by (cases xs) simp_all

lemma parse_members_print:
  assumes "\<forall>(k, v) \<in> set kvs. wf_json v \<and>
             (\<forall>n r. length (print_json v) \<le> n \<longrightarrow> stops r \<longrightarrow> parse_value n (print_json v @ r) = Inr (v, r))"
    and "kvs \<noteq> []"
    and "length (commas (map (\<lambda>(k, v). quote_string k @ CHR '':'' # print_json v) kvs)) < n"
  shows "parse_members n (commas (map (\<lambda>(k, v). quote_string k @ CHR '':'' # print_json v) kvs)
           @ CHR ''}'' # r) = Inr (kvs, r)"
  using assms
proof (induction kvs arbitrary: n)
  case Nil
  then show ?case by simp
next
  case (Cons kv kvs)
  obtain k v where kv: "kv = (k, v)" by fastforce
  let ?pm = "\<lambda>(k, v). quote_string k @ CHR '':'' # print_json v"
  from Cons.prems(1) kv have
    pv: "\<And>n r. length (print_json v) \<le> n \<Longrightarrow> stops r \<Longrightarrow> parse_value n (print_json v @ r) = Inr (v, r)"
    by auto
  have lv: "length (print_json v) \<le> n"
    using Cons.prems(3) kv by (cases kvs) (auto simp: quote_string_def)
  show ?case
  proof (cases kvs)
    case Nil
    have hv: "parse_value n (print_json v @ CHR ''}'' # r) = Inr (v, CHR ''}'' # r)"
      using pv lv by simp
    from Nil kv show ?thesis
      by (subst parse_members.simps) (simp add: quote_string_def parse_string_quote hv)
  next
    case (Cons kv' kvs')
    let ?rest = "commas (map ?pm kvs)"
    have split: "commas (map ?pm (kv # kvs)) = quote_string k @ CHR '':'' # print_json v @ CHR '','' # ?rest"
      using Cons kv by simp
    from Cons.prems(3) split obtain m where m: "n = Suc m" and lm: "length ?rest < m"
      using print_json_length [of v] by (cases n) (auto simp: quote_string_def)
    define R where "R = ?rest @ CHR ''}'' # r"
    have hv: "parse_value n (print_json v @ CHR '','' # R) = Inr (v, CHR '','' # R)"
      using pv lv by simp
    have "parse_members m R = Inr (kvs, r)"
      unfolding R_def using Cons.IH Cons.prems(1) lm \<open>kvs = kv' # kvs'\<close> by simp
    then have "map_res (Cons (k, v)) (parse_members m R) = Inr ((k, v) # kvs, r)"
      by (simp add: map_res_def)
    moreover have "parse_members n (quote_string k @ CHR '':'' # print_json v @ CHR '','' # R)
        = map_res (Cons (k, v)) (parse_members m R)"
      by (subst parse_members.simps, simp add: quote_string_def parse_string_quote hv) (simp add: m)
    ultimately have "parse_members n (quote_string k @ CHR '':'' # print_json v @ CHR '','' # R)
        = Inr ((k, v) # kvs, r)" by simp
    then show ?thesis using split kv by (simp add: R_def)
  qed
qed


text \<open>The array and object cases of the round trip, given it for the elements.\<close>

lemma parse_print_arr:
  assumes all: "\<forall>v \<in> set vs. wf_json v \<and>
             (\<forall>n r. length (print_json v) \<le> n \<longrightarrow> stops r \<longrightarrow> parse_value n (print_json v @ r) = Inr (v, r))"
    and ne: "vs \<noteq> []" and m: "n = Suc m" and lb: "length (commas (map print_json vs)) < m"
  shows "parse_value n (print_json (JArr vs) @ r) = Inr (JArr vs, r)"
proof -
  let ?body = "commas (map print_json vs)"
  obtain w ws where vs: "vs = w # ws" using ne by (cases vs) auto
  have pe: "parse_elems m (?body @ CHR '']'' # r) = Inr (vs, r)"
    using parse_elems_print [OF all ne lb] .
  from all vs have "wf_json w" by simp
  then obtain c t where pw: "print_json w = c # t" and c: "\<not> is_ws c" "c \<noteq> CHR '']''"
    using print_json_start by blast
  obtain t' where body: "?body = c # t'" using vs pw by (cases ws) auto
  have "parse_value n (CHR ''['' # (c # t') @ CHR '']'' # r) = map_res JArr (parse_elems m ((c # t') @ CHR '']'' # r))"
    using m c by simp
  then have "parse_value n (CHR ''['' # ?body @ CHR '']'' # r) = map_res JArr (parse_elems m (?body @ CHR '']'' # r))"
    by (simp only: body)
  with pe show ?thesis by (simp add: map_res_def)
qed

lemma parse_print_obj:
  assumes all: "\<forall>(k, v) \<in> set kvs. wf_json v \<and>
             (\<forall>n r. length (print_json v) \<le> n \<longrightarrow> stops r \<longrightarrow> parse_value n (print_json v @ r) = Inr (v, r))"
    and ne: "kvs \<noteq> []" and m: "n = Suc m"
    and lb: "length (commas (map (\<lambda>(k, v). quote_string k @ CHR '':'' # print_json v) kvs)) < m"
  shows "parse_value n (print_json (JObj kvs) @ r) = Inr (JObj kvs, r)"
proof -
  let ?body = "commas (map (\<lambda>(k, v). quote_string k @ CHR '':'' # print_json v) kvs)"
  have pm: "parse_members m (?body @ CHR ''}'' # r) = Inr (kvs, r)"
    using parse_members_print [OF all ne lb] .
  obtain k v kvs' where kvs: "kvs = (k, v) # kvs'" using ne by (cases kvs) auto
  obtain t' where body: "?body = quote_char # t'"
    using kvs by (cases kvs') (simp_all add: quote_string_def)
  have "parse_value n (CHR ''{'' # (quote_char # t') @ CHR ''}'' # r) = map_res JObj (parse_members m ((quote_char # t') @ CHR ''}'' # r))"
    using m by simp
  then have "parse_value n (CHR ''{'' # ?body @ CHR ''}'' # r) = map_res JObj (parse_members m (?body @ CHR ''}'' # r))"
    by (simp only: body)
  with pm show ?thesis by (simp add: map_res_def)
qed

lemma parse_print_value:
  "wf_json v \<Longrightarrow> length (print_json v) \<le> n \<Longrightarrow> stops r \<Longrightarrow> parse_value n (print_json v @ r) = Inr (v, r)"
proof (induction v arbitrary: n r)
  case JNull
  then obtain m where "n = Suc m" by (cases n) auto
  then show ?case by (simp add: scan_literal_def)
next
  case (JBool b)
  then obtain m where "n = Suc m" by (cases n) (auto split: if_splits)
  then show ?case by (cases b) (simp_all add: scan_literal_def)
next
  case (JNum lit)
  then have valid: "valid_number lit" by simp
  then obtain c t where lit: "lit = c # t" and h: "c = CHR ''-'' \<or> is_digit c"
    by (blast dest: valid_number_start)
  from JNum.prems lit obtain m where "n = Suc m" by (cases n) auto
  moreover have "parse_value (Suc m) (c # t @ r) = scan_number (c # t @ r)"
    using h by (rule parse_value_number)
  ultimately have "parse_value n (print_json (JNum lit) @ r) = scan_number (lit @ r)"
    using lit by simp
  with valid JNum.prems(3) show ?case by (simp add: scan_number_lit)
next
  case (JStr s)
  then obtain m where "n = Suc m" by (cases n) (auto simp: quote_string_def)
  then show ?case by (simp add: quote_string_def parse_string_quote map_res_def)
next
  case (JArr vs)
  from JArr.prems obtain m where m: "n = Suc m" by (cases n) auto
  have all: "\<forall>v \<in> set vs. wf_json v \<and>
           (\<forall>n r. length (print_json v) \<le> n \<longrightarrow> stops r \<longrightarrow> parse_value n (print_json v @ r) = Inr (v, r))"
    using JArr.IH JArr.prems(1) by (simp add: list_all_iff)
  show ?case
  proof (cases "vs = []")
    case False
    moreover have "length (commas (map print_json vs)) < m" using JArr.prems(2) m by simp
    ultimately show ?thesis using parse_print_arr [OF all _ m] by blast
  qed (simp add: m)
next
  case (JObj kvs)
  from JObj.prems obtain m where m: "n = Suc m" by (cases n) auto
  have all: "\<forall>(k, v) \<in> set kvs. wf_json v \<and>
           (\<forall>n r. length (print_json v) \<le> n \<longrightarrow> stops r \<longrightarrow> parse_value n (print_json v @ r) = Inr (v, r))"
    using JObj.IH JObj.prems(1) by (fastforce simp: list_all_iff)
  show ?case
  proof (cases "kvs = []")
    case False
    moreover have "length (commas (map (\<lambda>(k, v). quote_string k @ CHR '':'' # print_json v) kvs)) < m"
      using JObj.prems(2) m by simp
    ultimately show ?thesis using parse_print_obj [OF all _ m] by blast
  qed (simp add: m)
qed

text \<open>
  Decoding the encoder's output gives the value back, for every value whose
  number literals are valid JSON numbers: strings with any bytes (escaped as Go
  escapes them), nested arrays and objects, keys in any order.
\<close>

theorem json_decode_print: "wf_json v \<Longrightarrow> json_decode (print_json v) = Inr v"
  using parse_print_value [of v "Suc (length (print_json v))" "[]"] by (simp add: json_decode_def)

lemma json_decode_print_example:
  "wf_json (JObj [(''a<b'', JArr [JNum ''-1.5e3'', JStr [quote_char, bslash, CHR 0x0A], JNull])])
   \<and> json_decode (print_json (JObj [(''a<b'', JArr [JNum ''-1.5e3'', JStr [quote_char, bslash, CHR 0x0A], JNull])]))
     = Inr (JObj [(''a<b'', JArr [JNum ''-1.5e3'', JStr [quote_char, bslash, CHR 0x0A], JNull])])"
proof -
  have wf: "wf_json (JObj [(''a<b'', JArr [JNum ''-1.5e3'', JStr [quote_char, bslash, CHR 0x0A], JNull])])"
    by code_simp
  show ?thesis using json_decode_print [OF wf] wf by simp
qed

section \<open>No raw line separator in the output\<close>

lemma has_separator_Cons:
  "a \<noteq> CHR 0xE2 \<Longrightarrow> has_separator (a # w) = has_separator w"
  by (cases w rule: remdups_adj.cases) simp_all

lemma has_separator_Cons_Cons:
  "b \<noteq> CHR 0x80 \<Longrightarrow> has_separator (a # b # w) = has_separator (b # w)"
  by (cases w) simp_all

lemma has_separator_tl: "\<not> has_separator (a # w) \<Longrightarrow> \<not> has_separator w"
  by (cases w rule: remdups_adj.cases) simp_all

lemma ascii_char_not_sep:
  "ascii_char c \<Longrightarrow> c \<noteq> CHR 0xE2 \<and> c \<noteq> CHR 0x80 \<and> c \<noteq> CHR 0xA8 \<and> c \<noteq> CHR 0xA9"
  by (auto simp: ascii_char_def)

lemma has_separator_around:
  assumes x: "ascii_char x" and u: "\<not> has_separator u" and t: "\<not> has_separator t"
  shows "\<not> has_separator (u @ x # t)"
  using u
proof (induction u)
  case Nil
  from x t show ?case by (simp add: has_separator_Cons ascii_char_not_sep)
next
  case (Cons a u)
  have ih: "\<not> has_separator (u @ x # t)" using Cons.prems by (intro Cons.IH) (rule has_separator_tl)
  show ?case
  proof (cases u rule: remdups_adj.cases)
    case 1
    with x t show ?thesis by (simp add: has_separator_Cons has_separator_Cons_Cons ascii_char_not_sep)
  next
    case (2 b)
    with x ih show ?thesis by (simp add: ascii_char_not_sep)
  next
    case (3 b c u')
    with Cons.prems ih show ?thesis by simp
  qed
qed

lemma hex_char_ascii: "d < 16 \<Longrightarrow> ascii_char (hex_char d)"
  by (simp add: ascii_char_def hex_char_def of_char_of)

lemma has_separator_ascii_prefix:
  "list_all ascii_char u \<Longrightarrow> has_separator (u @ t) = has_separator t"
  by (induction u) (simp_all add: has_separator_Cons ascii_char_not_sep)

lemma ascii_escape_letters:
  "ascii_char quote_char" "ascii_char bslash" "ascii_char CHR ''n''" "ascii_char CHR ''r''"
  "ascii_char CHR ''t''" "ascii_char CHR ''u''" "ascii_char CHR ''0''" "ascii_char CHR ''2''"
  by (simp_all add: ascii_char_def)

lemma has_separator_all_ascii: "list_all ascii_char u \<Longrightarrow> \<not> has_separator u"
  using has_separator_ascii_prefix [of u "[]"] by simp

lemma escape_char_shape:
  "escape_char c = [c] \<or> (\<exists>t. escape_char c = bslash # t \<and> list_all ascii_char t)"
proof -
  have "(of_char c :: nat) < 32 \<Longrightarrow> of_char c div 16 < (16::nat)" by simp
  then show ?thesis by (auto simp: escape_char_def Let_def hex_char_ascii ascii_escape_letters)
qed

lemma escape_string_head: "\<exists>t. escape_string (c # r) = c # t \<or> escape_string (c # r) = bslash # t"
proof (cases r rule: remdups_adj.cases)
  case (3 b r')
  then show ?thesis using escape_char_shape [of c] by auto
qed (use escape_char_shape [of c] in auto)



lemma escape_string_Cons: "a \<noteq> CHR 0xE2 \<Longrightarrow> escape_string (a # r) = escape_char a @ escape_string r"
  by (cases r rule: remdups_adj.cases) simp_all

lemma escape_string_no_separator: "\<not> has_separator (escape_string s)"
proof (induction s rule: escape_string.induct)
  case (1 a b c r)
  let ?E = "escape_string (b # c # r)"
  show ?case
  proof (cases "a = CHR 0xE2 \<and> b = CHR 0x80 \<and> (c = CHR 0xA8 \<or> c = CHR 0xA9)")
    case True
    let ?u = "[bslash, CHR ''u'', CHR ''2'', CHR ''0'', CHR ''2'', hex_char (of_char c mod 16)]"
    have "list_all ascii_char ?u" by (simp add: ascii_escape_letters hex_char_ascii)
    moreover from True have "escape_string (a # b # c # r) = ?u @ escape_string r"
      by (simp del: append_Cons)
    ultimately show ?thesis using "1.IH"(1) [OF True] by (simp only: has_separator_ascii_prefix not_False_eq_True)
  next
    case nosep: False
    have ih: "\<not> has_separator ?E" using nosep by (rule "1.IH"(2))
    have split: "escape_string (a # b # c # r) = escape_char a @ ?E"
      by (simp only: escape_string.simps(1) if_not_P [OF nosep])
    from escape_char_shape [of a] have "\<not> has_separator (escape_char a @ ?E)"
    proof
      assume ea: "escape_char a = [a]"
      show ?thesis
      proof (cases "a = CHR 0xE2")
        case False
        with ea ih nosep show ?thesis by (simp add: has_separator_Cons del: has_separator.simps(1))
      next
        case a: True
        obtain w where "?E = b # w \<or> ?E = bslash # w" using escape_string_head [of b "c # r"] by blast
        then show ?thesis
        proof
          assume e: "?E = b # w"
          show ?thesis
          proof (cases "b = CHR 0x80")
            case False
            with e ea ih nosep show ?thesis by (simp add: has_separator_Cons_Cons del: has_separator.simps(1))
          next
            case b: True
            with a nosep have c: "c \<noteq> CHR 0xA8 \<and> c \<noteq> CHR 0xA9" by simp
            have eb: "escape_char b = [b]" using b by (simp add: escape_char_def)
            have "b \<noteq> CHR 0xE2" using b by simp
            from escape_string_Cons [OF this, of "c # r"] eb
            have e2: "?E = b # escape_string (c # r)" by (simp only: append_Cons append_Nil)
            obtain w' where "escape_string (c # r) = c # w' \<or> escape_string (c # r) = bslash # w'"
              using escape_string_head [of c r] by blast
            with e2 ea ih a b c show ?thesis by auto
          qed
        next
          assume e: "?E = bslash # w"
          with ea ih show ?thesis by (simp add: has_separator_Cons_Cons del: has_separator.simps(1))
        qed
      qed
    next
      assume "\<exists>t. escape_char a = bslash # t \<and> list_all ascii_char t"
      then obtain t where "escape_char a = bslash # t" "list_all ascii_char t" by blast
      with ih nosep show ?thesis
        by (simp add: has_separator_ascii_prefix [where u = "bslash # t", simplified] ascii_escape_letters
                 del: has_separator.simps(1))
    qed
    with split show ?thesis by (simp only: not_False_eq_True)
  qed
next
  show "\<not> has_separator (escape_string [])" by simp
next
  fix a
  from escape_char_shape [of a] show "\<not> has_separator (escape_string [a])"
    by (auto simp: has_separator_Cons has_separator_all_ascii)
next
  fix a b
  from escape_char_shape [of a] escape_char_shape [of b] show "\<not> has_separator (escape_string [a, b])"
    by (auto simp: has_separator_Cons has_separator_Cons_Cons has_separator_all_ascii has_separator_ascii_prefix)
qed

lemma quote_string_no_separator: "\<not> has_separator (quote_string s)"
proof -
  have "\<not> has_separator (escape_string s @ [quote_char])"
    by (rule has_separator_around) (simp_all add: ascii_escape_letters escape_string_no_separator)
  then show ?thesis by (simp add: quote_string_def has_separator_Cons)
qed

lemma num_char_ascii: "is_num_char c \<Longrightarrow> ascii_char c"
  by (auto simp: is_num_char_def is_digit_def ascii_char_def)

lemma commas_no_separator:
  "list_all (\<lambda>x. \<not> has_separator x) xs \<Longrightarrow> \<not> has_separator (commas xs)"
proof (induction xs rule: commas.induct)
  case (3 x y ys)
  have "ascii_char CHR '',''" by (simp add: ascii_char_def)
  with 3 show ?case by (simp del: commas.simps(2) add: has_separator_around)
qed simp_all

lemma print_json_no_separator: "wf_json v \<Longrightarrow> \<not> has_separator (print_json v)"
proof (induction v)
  case (JNum lit)
  then have "list_all is_num_char lit" by (simp add: valid_number_chars)
  then have "list_all ascii_char lit" by (auto simp: list_all_iff num_char_ascii)
  then show ?case by (simp add: has_separator_all_ascii)
next
  case (JArr vs)
  then have "\<not> has_separator (commas (map print_json vs))"
    by (intro commas_no_separator) (auto simp: list_all_iff)
  then show ?case
    using has_separator_around [of "CHR '']''" _ "[]"]
    by (simp add: has_separator_Cons ascii_char_def)
next
  case (JObj kvs)
  have colon: "ascii_char CHR '':''" by (simp add: ascii_char_def)
  have "\<not> has_separator (quote_string k @ CHR '':'' # print_json v)" if "(k, v) \<in> set kvs" for k v
    using that JObj colon by (intro has_separator_around quote_string_no_separator) (auto simp: list_all_iff)
  then have "\<not> has_separator (commas (map (\<lambda>(k, v). quote_string k @ CHR '':'' # print_json v) kvs))"
    by (intro commas_no_separator) (auto simp: list_all_iff)
  then show ?case
    using has_separator_around [of "CHR ''}''" _ "[]"]
    by (simp add: has_separator_Cons ascii_char_def)
qed (simp_all add: quote_string_no_separator)

end
