(* ===== verification/Policy.thy ===== *)
theory Policy
  imports Json
begin

text \<open>
  The IAM policy as the resource reads and writes it: the \<open>Policy\<close> and
  \<open>Binding\<close> structs of the Cloud Resource Manager v1 client, their JSON field
  encoding (struct field order, \<open>omitempty\<close>, \<open>int64\<close> as a decimal literal),
  Go's decoding of a JSON object into them (case-insensitive field names, unknown
  keys skipped, \<open>null\<close> leaving a field alone or clearing a slice), and the three
  functions of \<open>resource_google_organization_iam_policy.go\<close> built on them:
  \<open>marshalIamPolicy\<close>, \<open>unmarshalIamPolicy\<close> and \<open>validateIamPolicy\<close>, with the
  diff suppression \<open>jsonPolicyDiffSuppress\<close> the schema names.
\<close>

section \<open>The client's structs\<close>

record binding =
  members :: "string list"
  role :: string

record policy =
  bindings :: "binding list"
  etag :: string
  version :: int64

definition empty_binding :: binding where
  "empty_binding = \<lparr>members = [], role = []\<rparr>"

definition empty_policy :: policy where
  "empty_policy = \<lparr>bindings = [], etag = [], version = 0\<rparr>"

section \<open>int64 fields\<close>

text \<open>\<open>strconv.FormatInt(v, 10)\<close> and \<open>strconv.ParseInt(s, 10, 64)\<close>.\<close>

definition int64_lit :: "int64 \<Rightarrow> string" where
  "int64_lit w = (if sint w < 0 then CHR ''-'' # dec_digits (nat (- sint w)) else dec_digits (nat (sint w)))"

definition int_of_lit :: "string \<Rightarrow> int option" where
  "int_of_lit s =
     (let (neg, ds) = (case s of [] \<Rightarrow> (False, [])
                       | c # t \<Rightarrow> if c = CHR ''-'' then (True, t)
                                 else if c = CHR ''+'' then (False, t) else (False, s))
      in if ds = [] \<or> \<not> list_all is_digit ds then None
         else Some (if neg then - int (nat_of_dec ds) else int (nat_of_dec ds)))"

definition parse_int64 :: "string \<Rightarrow> int64 option" where
  "parse_int64 s =
     (case int_of_lit s of
        None \<Rightarrow> None
      | Some v \<Rightarrow> if - (2 ^ 63) \<le> v \<and> v < 2 ^ 63 then Some (word_of_int v) else None)"

section \<open>Encoding: json.Marshal of the structs\<close>

definition encode_binding :: "binding \<Rightarrow> json" where
  "encode_binding b =
     JObj ((if members b = [] then [] else [(''members'', JArr (map JStr (members b)))])
         @ (if role b = [] then [] else [(''role'', JStr (role b))]))"

definition encode_policy :: "policy \<Rightarrow> json" where
  "encode_policy p =
     JObj ((if bindings p = [] then [] else [(''bindings'', JArr (map encode_binding (bindings p)))])
         @ (if etag p = [] then [] else [(''etag'', JStr (etag p))])
         @ (if version p = 0 then [] else [(''version'', JNum (int64_lit (version p)))]))"

section \<open>Decoding: json.Unmarshal into the structs\<close>

text \<open>
  Go matches a key to a field name ignoring ASCII case, and for names with an
  \<open>s\<close> or a \<open>k\<close> also accepts the UTF-8 encodings of the long s (U+017F) and the
  Kelvin sign (U+212A), the two non-ASCII runes that fold to them
  (\<open>equalFoldRight\<close> of \<open>encoding/json\<close>).
\<close>

fun fold_key :: "string \<Rightarrow> string" where
  "fold_key [] = []"
| "fold_key (c # s) =
     (if c = CHR 0xC5 \<and> take 1 s = [CHR 0xBF] then CHR ''s'' # fold_key (drop 1 s)
      else if c = CHR 0xE2 \<and> take 2 s = [CHR 0x84, CHR 0xAA] then CHR ''k'' # fold_key (drop 2 s)
      else ascii_lower c # fold_key s)"

definition key_is :: "string \<Rightarrow> string \<Rightarrow> bool" where
  "key_is k name \<longleftrightarrow> fold_key k = name"

fun decode_fields ::
  "('a \<Rightarrow> string \<times> json \<Rightarrow> json_error + 'a) \<Rightarrow> 'a \<Rightarrow> (string \<times> json) list \<Rightarrow> json_error + 'a" where
  "decode_fields f x [] = Inr x"
| "decode_fields f x (kv # kvs) = (case f x kv of Inl e \<Rightarrow> Inl e | Inr x' \<Rightarrow> decode_fields f x' kvs)"

fun decode_strings :: "json list \<Rightarrow> json_error + string list" where
  "decode_strings [] = Inr []"
| "decode_strings (v # vs) =
     (case v of
        JStr s \<Rightarrow> (case decode_strings vs of Inl e \<Rightarrow> Inl e | Inr ss \<Rightarrow> Inr (s # ss))
      | JNull \<Rightarrow> (case decode_strings vs of Inl e \<Rightarrow> Inl e | Inr ss \<Rightarrow> Inr ([] # ss))
      | _ \<Rightarrow> Inl (TypeError ''Binding.members''))"

definition decode_binding_field :: "binding \<Rightarrow> string \<times> json \<Rightarrow> json_error + binding" where
  "decode_binding_field b kv =
     (case kv of (k, v) \<Rightarrow>
       if key_is k ''members'' then
         (case v of
            JNull \<Rightarrow> Inr (b\<lparr>members := []\<rparr>)
          | JArr vs \<Rightarrow> (case decode_strings vs of Inl e \<Rightarrow> Inl e | Inr ss \<Rightarrow> Inr (b\<lparr>members := ss\<rparr>))
          | _ \<Rightarrow> Inl (TypeError ''Binding.members''))
       else if key_is k ''role'' then
         (case v of
            JNull \<Rightarrow> Inr b
          | JStr s \<Rightarrow> Inr (b\<lparr>role := s\<rparr>)
          | _ \<Rightarrow> Inl (TypeError ''Binding.role''))
       else Inr b)"

definition decode_binding :: "json \<Rightarrow> json_error + binding" where
  "decode_binding v =
     (case v of
        JObj kvs \<Rightarrow> decode_fields decode_binding_field empty_binding kvs
      | _ \<Rightarrow> Inl (TypeError ''Policy.bindings''))"

fun decode_bindings :: "json list \<Rightarrow> json_error + binding list" where
  "decode_bindings [] = Inr []"
| "decode_bindings (v # vs) =
     (case decode_binding v of
        Inl e \<Rightarrow> Inl e
      | Inr b \<Rightarrow> (case decode_bindings vs of Inl e \<Rightarrow> Inl e | Inr bs \<Rightarrow> Inr (b # bs)))"

definition decode_policy_field :: "policy \<Rightarrow> string \<times> json \<Rightarrow> json_error + policy" where
  "decode_policy_field p kv =
     (case kv of (k, v) \<Rightarrow>
       if key_is k ''bindings'' then
         (case v of
            JNull \<Rightarrow> Inr (p\<lparr>bindings := []\<rparr>)
          | JArr vs \<Rightarrow> (case decode_bindings vs of Inl e \<Rightarrow> Inl e | Inr bs \<Rightarrow> Inr (p\<lparr>bindings := bs\<rparr>))
          | _ \<Rightarrow> Inl (TypeError ''Policy.bindings''))
       else if key_is k ''etag'' then
         (case v of
            JNull \<Rightarrow> Inr p
          | JStr s \<Rightarrow> Inr (p\<lparr>etag := s\<rparr>)
          | _ \<Rightarrow> Inl (TypeError ''Policy.etag''))
       else if key_is k ''version'' then
         (case v of
            JNull \<Rightarrow> Inr p
          | JNum lit \<Rightarrow>
              (case parse_int64 lit of
                 None \<Rightarrow> Inl (TypeError ''Policy.version'')
               | Some w \<Rightarrow> Inr (p\<lparr>version := w\<rparr>))
          | _ \<Rightarrow> Inl (TypeError ''Policy.version''))
       else Inr p)"

definition decode_policy :: "json \<Rightarrow> json_error + policy" where
  "decode_policy v =
     (case v of
        JObj kvs \<Rightarrow> decode_fields decode_policy_field empty_policy kvs
      | JNull \<Rightarrow> Inr empty_policy
      | _ \<Rightarrow> Inl (TypeError ''Policy''))"

section \<open>The resource's JSON helpers\<close>

datatype unmarshal_error = CouldNotUnmarshal string json_error

definition unmarshal_iam_policy :: "string \<Rightarrow> unmarshal_error + policy" where
  "unmarshal_iam_policy policy_data =
     (case json_decode policy_data of
        Inl e \<Rightarrow> Inl (CouldNotUnmarshal policy_data e)
      | Inr j \<Rightarrow>
          (case decode_policy j of
             Inl e \<Rightarrow> Inl (CouldNotUnmarshal policy_data e)
           | Inr p \<Rightarrow> Inr p))"

definition marshal_iam_policy :: "policy \<Rightarrow> string" where
  "marshal_iam_policy p = print_json (encode_policy \<lparr>bindings = bindings p, etag = [], version = 0\<rparr>)"

definition validate_iam_policy :: "string \<Rightarrow> string list \<times> unmarshal_error list" where
  "validate_iam_policy i =
     (case unmarshal_iam_policy i of Inl err \<Rightarrow> ([], [err]) | Inr _ \<Rightarrow> ([], []))"

definition json_policy_diff_suppress :: "string \<Rightarrow> string \<Rightarrow> bool" where
  "json_policy_diff_suppress old new =
     (case (unmarshal_iam_policy old, unmarshal_iam_policy new) of
        (Inr p, Inr q) \<Rightarrow> print_json (encode_policy p) = print_json (encode_policy q)
      | _ \<Rightarrow> False)"

section \<open>int64 literals, and encoding then decoding a policy\<close>


lemma digit_not_sign: "is_digit c \<Longrightarrow> c \<noteq> CHR ''-'' \<and> c \<noteq> CHR ''+''"
  by (auto simp: is_digit_def)

lemma dec_digits_Cons: "\<exists>c t. dec_digits n = c # t \<and> is_digit c \<and> list_all is_digit t"
proof -
  obtain c t where ct: "dec_digits n = c # t"
    using dec_digits_not_Nil [of n] by (cases "dec_digits n") auto
  have "\<forall>x \<in> set (dec_digits n). is_digit x" using dec_digits_all_digits by blast
  with ct show ?thesis by (auto simp: list_all_iff)
qed

lemma int_of_lit_dec: "int_of_lit (dec_digits n) = Some (int n)"
proof -
  obtain c t where ct: "dec_digits n = c # t" and d: "is_digit c" and ds: "list_all is_digit t"
    using dec_digits_Cons by blast
  from d have "c \<noteq> CHR ''-''" "c \<noteq> CHR ''+''" by (simp_all add: digit_not_sign)
  moreover have "nat_of_dec (c # t) = n" using ct by (metis nat_of_dec_digits)
  ultimately show ?thesis using d ds by (simp add: int_of_lit_def ct)
qed

lemma int_of_lit_neg_dec: "int_of_lit (CHR ''-'' # dec_digits n) = Some (- int n)"
proof -
  have "list_all is_digit (dec_digits n)"
    using dec_digits_all_digits by (auto simp: list_all_iff)
  then show ?thesis by (simp add: int_of_lit_def)
qed

lemma int_of_lit_int64 [simp]: "int_of_lit (int64_lit w) = Some (sint w)"
  by (simp add: int64_lit_def int_of_lit_dec int_of_lit_neg_dec)

lemma sint_int64_range: "- (2 ^ 63) \<le> sint (w :: int64) \<and> sint w < 2 ^ 63"
  using sint_greater_eq [of w] sint_less [of w] by simp

lemma sint_word_of_int_int64:
  "- (2 ^ 63) \<le> v \<Longrightarrow> v < 2 ^ 63 \<Longrightarrow> sint (word_of_int v :: int64) = v"
  by (simp add: sint_uint uint_word_of_int_eq signed_take_bit_take_bit signed_take_bit_int_eq_self_iff)

lemma parse_int64_lit [simp]: "parse_int64 (int64_lit w) = Some w"
  using sint_int64_range [of w] by (simp add: parse_int64_def)

text \<open>
  A \<open>version\<close> literal is accepted exactly when its decimal value lies in
  the signed 64-bit range, and the field then holds that value: no wrap-around.
\<close>

theorem parse_int64_exact:
  "parse_int64 s = Some w \<longleftrightarrow> int_of_lit s = Some (sint w)"
proof
  assume "parse_int64 s = Some w"
  then obtain v where v: "int_of_lit s = Some v" and r: "- (2 ^ 63) \<le> v" "v < 2 ^ 63"
      and w: "w = word_of_int v"
    by (auto simp: parse_int64_def split: option.splits if_splits)
  with sint_word_of_int_int64 [OF r] show "int_of_lit s = Some (sint w)" by simp
next
  assume "int_of_lit s = Some (sint w)"
  with sint_int64_range [of w] show "parse_int64 s = Some w" by (simp add: parse_int64_def)
qed

lemma int_ok_dec: "int_ok (dec_digits n)"
proof -
  obtain c t where ct: "dec_digits n = c # t" and d: "is_digit c" and ds: "list_all is_digit t"
    using dec_digits_Cons by blast
  have dw: "dropWhile is_digit t = []" using ds by (simp add: list_all_iff)
  show ?thesis
  proof (cases "c = CHR ''0''")
    case True
    with ct have "n = 0" using dec_digits_hd [of n] by simp
    with ct have "t = []" by (simp add: digit_char_def)
    with ct True show ?thesis by (simp add: int_ok_def frac_exp_ok_def)
  next
    case False
    with ct d show ?thesis by (simp add: int_ok_def frac_exp_ok_def dw)
  qed
qed

lemma valid_number_int64: "valid_number (int64_lit w)"
proof -
  obtain c t where ct: "dec_digits (nat (sint w)) = c # t" and d: "is_digit c"
    using dec_digits_Cons by blast
  have "c \<noteq> CHR ''-''" using d by (simp add: digit_not_sign)
  then show ?thesis using int_ok_dec [of "nat (sint w)"] int_ok_dec [of "nat (- sint w)"] ct
    by (simp add: int64_lit_def valid_number_def)
qed


lemma key_is_fields [simp]:
  "key_is ''bindings'' ''bindings''" "\<not> key_is ''etag'' ''bindings''" "key_is ''etag'' ''etag''"
  "\<not> key_is ''version'' ''bindings''" "\<not> key_is ''version'' ''etag''" "key_is ''version'' ''version''"
  "key_is ''members'' ''members''" "\<not> key_is ''role'' ''members''" "key_is ''role'' ''role''"
  by (simp_all add: key_is_def ascii_lower_def)

lemma key_is_folded: "key_is [CHR ''B'', CHR ''i'', CHR ''n'', CHR ''d'', CHR ''i'', CHR ''n'', CHR ''g'', CHR 0xC5, CHR 0xBF] ''bindings''"
  by code_simp

lemma wf_encode_policy: "wf_json (encode_policy p)"
  by (simp add: encode_policy_def encode_binding_def valid_number_int64 list_all_iff)

lemma decode_strings_map [simp]: "decode_strings (map JStr ss) = Inr ss"
  by (induction ss) simp_all

lemma decode_encode_binding [simp]: "decode_binding (encode_binding b) = Inr b"
  by (cases "members b = []"; cases "role b = []")
     (simp_all add: decode_binding_def encode_binding_def decode_binding_field_def empty_binding_def)

lemma decode_bindings_map [simp]: "decode_bindings (map encode_binding bs) = Inr bs"
  by (induction bs) simp_all

lemma decode_encode_policy [roundtrip_laws]: "decode_policy (encode_policy p) = Inr p"
  by (cases "bindings p = []"; cases "etag p = []"; cases "version p = 0")
     (simp_all add: decode_policy_def encode_policy_def decode_policy_field_def empty_policy_def)

lemma unmarshal_print_encode: "unmarshal_iam_policy (print_json (encode_policy p)) = Inr p"
  using parse_print_value [OF wf_encode_policy [of p], of "Suc (length (print_json (encode_policy p)))" "[]"]
  by (simp add: unmarshal_iam_policy_def json_decode_def roundtrip_laws)

text \<open>
  C2. Marshalling a policy and unmarshalling the text gives back exactly its
  bindings, with the etag and version dropped: the lossy round trip of
  \<open>marshalIamPolicy\<close> / \<open>unmarshalIamPolicy\<close>.
\<close>

theorem unmarshal_marshal_iam_policy:
  "unmarshal_iam_policy (marshal_iam_policy p) = Inr \<lparr>bindings = bindings p, etag = [], version = 0\<rparr>"
  by (simp add: marshal_iam_policy_def unmarshal_print_encode)

lemma print_encode_inj: "print_json (encode_policy p) = print_json (encode_policy q) \<longleftrightarrow> p = q"
  by (metis unmarshal_print_encode sum.inject(2))

declare marshal_iam_policy_def [codec_simps] unmarshal_print_encode [codec_simps, roundtrip_laws]
  print_encode_inj [codec_simps]

text \<open>
  C8. Two \<open>policy_data\<close> texts are judged equivalent by the diff suppression
  exactly when both decode, and decode to the same policy: formatting, key order,
  key case and \<open>null\<close> fields never trigger an update, and no real change is hidden.
\<close>

theorem json_policy_diff_suppress_iff:
  "json_policy_diff_suppress old new \<longleftrightarrow>
     (\<exists>p. unmarshal_iam_policy old = Inr p \<and> unmarshal_iam_policy new = Inr p)"
  by (auto simp: json_policy_diff_suppress_def print_encode_inj split: sum.splits)

text \<open>The extreme literals of the range, one past it, and an exponent form.\<close>

lemma parse_int64_examples:
  "parse_int64 ''-9223372036854775808'' = Some (word_of_int (- (2 ^ 63)))
   \<and> int_of_lit ''-9223372036854775808'' = Some (sint (word_of_int (- (2 ^ 63)) :: int64))
   \<and> parse_int64 ''9223372036854775808'' = None \<and> parse_int64 ''1e3'' = None"
proof -
  have lit: "int_of_lit ''-9223372036854775808'' = Some (- (2 ^ 63))"
    by (simp add: int_of_lit_def nat_of_dec_def digit_value_def is_digit_def)
  have "sint (word_of_int (- (2 ^ 63)) :: int64) = - (2 ^ 63)"
    by (simp add: sint_word_of_int_int64)
  with lit have "int_of_lit ''-9223372036854775808'' = Some (sint (word_of_int (- (2 ^ 63)) :: int64))"
    by simp
  moreover from this have "parse_int64 ''-9223372036854775808'' = Some (word_of_int (- (2 ^ 63)))"
    by (simp only: parse_int64_exact)
  moreover have "parse_int64 ''9223372036854775808'' = None"
    by (simp add: parse_int64_def int_of_lit_def nat_of_dec_def digit_value_def is_digit_def)
  moreover have "parse_int64 ''1e3'' = None"
    by (simp add: parse_int64_def int_of_lit_def is_digit_def)
  ultimately show ?thesis by simp
qed

section \<open>Decoding failures\<close>

lemma decode_fields_Inl:
  "decode_fields f x kvs = Inl e \<Longrightarrow> \<exists>y kv. kv \<in> set kvs \<and> f y kv = Inl e"
  by (induction f x kvs rule: decode_fields.induct) (fastforce split: sum.splits)+

lemma decode_strings_Inl: "decode_strings vs = Inl e \<Longrightarrow> e = TypeError ''Binding.members''"
  by (induction vs rule: decode_strings.induct) (auto split: json.splits sum.splits)

lemma decode_binding_Inl: "decode_binding v = Inl e \<Longrightarrow> \<exists>m. e = TypeError m"
  by (auto simp: decode_binding_def decode_binding_field_def dest!: decode_fields_Inl decode_strings_Inl
           split: json.splits sum.splits if_splits)

lemma decode_bindings_Inl: "decode_bindings vs = Inl e \<Longrightarrow> \<exists>m. e = TypeError m"
  by (induction vs) (auto dest: decode_binding_Inl split: sum.splits)

lemma decode_policy_Inl: "decode_policy v = Inl e \<Longrightarrow> \<exists>m. e = TypeError m"
  by (auto simp: decode_policy_def decode_policy_field_def dest!: decode_fields_Inl decode_bindings_Inl
           split: json.splits sum.splits if_splits option.splits)

theorem unmarshal_iam_policy_no_fuel: "unmarshal_iam_policy s \<noteq> Inl (CouldNotUnmarshal s OutOfFuel)"
  using json_decode_fuel [of s] decode_policy_Inl
  by (fastforce simp: unmarshal_iam_policy_def split: sum.splits)

text \<open>
  C9. The text \<open>marshalIamPolicy\<close> leaves in the state determines the bindings
  exactly: two policies marshal alike precisely when their bindings are equal, so a
  refresh shows every remote change of bindings and nothing else.
\<close>

theorem marshal_iam_policy_inj: "marshal_iam_policy p = marshal_iam_policy q \<longleftrightarrow> bindings p = bindings q"
  by (simp add: codec_simps)

section \<open>The version field\<close>

lemma print_version_object: "print_json (JObj [(''version'', JNum s)]) = ''{\"version\":'' @ s @ ''}''"
  by (simp add: quote_string_def escape_char_def)

theorem unmarshal_version_range:
  assumes "valid_number s" and "int_of_lit s = Some i"
  shows "unmarshal_iam_policy (''{\"version\":'' @ s @ ''}'') =
           (if - (2 ^ 63) \<le> i \<and> i < 2 ^ 63 then Inr (empty_policy\<lparr>version := word_of_int i\<rparr>)
            else Inl (CouldNotUnmarshal (''{\"version\":'' @ s @ ''}'') (TypeError ''Policy.version'')))"
proof -
  have "json_decode (''{\"version\":'' @ s @ ''}'') = Inr (JObj [(''version'', JNum s)])"
    using json_decode_print [of "JObj [(''version'', JNum s)]"] assms(1) print_version_object [of s] by simp
  then show ?thesis
    using assms(2) by (simp add: unmarshal_iam_policy_def decode_policy_def decode_policy_field_def parse_int64_def)
qed

section \<open>Texts the resource stores\<close>

lemma marshal_no_bindings: "bindings p = [] \<Longrightarrow> marshal_iam_policy p = ''{}''"
  by (simp add: marshal_iam_policy_def encode_policy_def)

lemma diff_suppress_print [codec_simps]:
  "json_policy_diff_suppress (print_json (encode_policy p)) (print_json (encode_policy q)) \<longleftrightarrow> p = q"
  by (simp add: json_policy_diff_suppress_def codec_simps)

lemma marshal_escapes_separator:
  "marshal_iam_policy
     \<lparr>bindings = [\<lparr>members = [''user:a'' @ [CHR 0xE2, CHR 0x80, CHR 0xA8]], role = ''roles/viewer''\<rparr>],
      etag = [], version = 0\<rparr>
   = ''{\"bindings\":[{\"members\":[\"user:a'' @ bslash # ''u2028\"],\"role\":\"roles/viewer\"}]}''"
  by code_simp

theorem marshal_no_raw_separator: "\<not> has_separator (marshal_iam_policy p)"
  by (simp add: marshal_iam_policy_def print_json_no_separator wf_encode_policy)

end
