(* ===== verification/Remote.thy ===== *)
theory Remote
  imports Policy
begin

text \<open>
  The remote side the resource talks to through \<open>config.clientResourceManager\<close>:
  the Cloud Resource Manager's \<open>organizations.getIamPolicy\<close> and
  \<open>organizations.setIamPolicy\<close> calls, as the spec's interface section describes
  them.  The store maps resource names (\<open>organizations/<id>\<close>) to policies; every
  call is appended to a log, so that the number and order of remote calls an
  operation makes can be stated; a fault function injects the transport,
  authentication and quota failures the spec lists.  A write with a non-empty etag
  that differs from the stored one is refused with 409 (the API's optimistic
  concurrency check); an accepted write replaces the bindings and issues a fresh
  etag.  Nothing removes a policy: an organization always has one.
\<close>

datatype api_error = ApiError nat string

fun api_code :: "api_error \<Rightarrow> nat" where
  "api_code (ApiError c _) = c"

datatype rpc =
    GetIamPolicyCall string
  | SetIamPolicyCall string policy "string option"

record remote =
  policies :: "string \<rightharpoonup> policy"
  serial :: nat
  calls :: "rpc list"
  fault :: "rpc \<Rightarrow> api_error option"

definition fresh_etag :: "nat \<Rightarrow> string" where
  "fresh_etag n = ''BwW'' @ dec_digits n"

definition log_call :: "rpc \<Rightarrow> remote \<Rightarrow> remote" where
  "log_call c r = r\<lparr>calls := calls r @ [c]\<rparr>"

definition not_found :: "string \<Rightarrow> api_error" where
  "not_found res = ApiError 404 (''Requested entity was not found: '' @ res)"

definition get_iam_policy :: "string \<Rightarrow> remote \<Rightarrow> (api_error + policy) \<times> remote" where
  "get_iam_policy res r =
     (let c = GetIamPolicyCall res; r' = log_call c r in
      case fault r c of
        Some e \<Rightarrow> (Inl e, r')
      | None \<Rightarrow> (case policies r res of None \<Rightarrow> (Inl (not_found res), r') | Some p \<Rightarrow> (Inr p, r')))"

definition set_iam_policy :: "string \<Rightarrow> policy \<Rightarrow> string option \<Rightarrow> remote \<Rightarrow> (api_error + policy) \<times> remote" where
  "set_iam_policy res p update_mask r =
     (let c = SetIamPolicyCall res p update_mask; r' = log_call c r in
      case fault r c of
        Some e \<Rightarrow> (Inl e, r')
      | None \<Rightarrow>
          (case policies r res of
             None \<Rightarrow> (Inl (not_found res), r')
           | Some cur \<Rightarrow>
               if etag p \<noteq> [] \<and> etag p \<noteq> etag cur
               then (Inl (ApiError 409 ''There were concurrent policy changes.''), r')
               else
                 (let new = cur\<lparr>bindings := bindings p, etag := fresh_etag (serial r)\<rparr>
                  in (Inr new, r'\<lparr>policies := (policies r)(res \<mapsto> new), serial := Suc (serial r)\<rparr>))))"

section \<open>What each call does\<close>

lemma get_iam_policy_state:
  "snd (get_iam_policy res r) = log_call (GetIamPolicyCall res) r"
  by (simp add: get_iam_policy_def Let_def split: option.splits)

lemma get_iam_policy_result:
  "fst (get_iam_policy res r) =
     (case fault r (GetIamPolicyCall res) of
        Some e \<Rightarrow> Inl e
      | None \<Rightarrow> (case policies r res of None \<Rightarrow> Inl (not_found res) | Some p \<Rightarrow> Inr p))"
  by (simp add: get_iam_policy_def Let_def split: option.splits)

lemma set_iam_policy_calls:
  "calls (snd (set_iam_policy res p update_mask r)) = calls r @ [SetIamPolicyCall res p update_mask]"
  by (simp add: set_iam_policy_def log_call_def Let_def split: option.splits)

lemma set_iam_policy_fails_unchanged:
  "set_iam_policy res p update_mask r = (Inl e, r') \<Longrightarrow> r' = log_call (SetIamPolicyCall res p update_mask) r"
  by (auto simp: set_iam_policy_def Let_def split: option.splits if_splits)

lemma set_iam_policy_Inr:
  "set_iam_policy res p update_mask r = (Inr new, r') \<longleftrightarrow>
     fault r (SetIamPolicyCall res p update_mask) = None \<and>
     (\<exists>cur. policies r res = Some cur \<and> (etag p = [] \<or> etag p = etag cur) \<and>
        new = cur\<lparr>bindings := bindings p, etag := fresh_etag (serial r)\<rparr> \<and>
        r' = (log_call (SetIamPolicyCall res p update_mask) r)\<lparr>policies := (policies r)(res \<mapsto> new),
                                                        serial := Suc (serial r)\<rparr>)"
  by (auto simp: set_iam_policy_def Let_def split: option.splits)

lemma set_iam_policy_dom:
  "dom (policies (snd (set_iam_policy res p update_mask r))) = dom (policies r)"
  by (auto simp: set_iam_policy_def log_call_def Let_def split: option.splits)

lemma get_iam_policy_dom [simp]:
  "policies (snd (get_iam_policy res r)) = policies r"
  by (simp add: get_iam_policy_state log_call_def)

lemma log_call_simps [simp]:
  "policies (log_call c r) = policies r" "serial (log_call c r) = serial r"
  "fault (log_call c r) = fault r" "calls (log_call c r) = calls r @ [c]"
  by (simp_all add: log_call_def)

end
