(* ===== verification/Resource.thy ===== *)
theory Resource
  imports Remote
begin

text \<open>
  The resource handler of \<open>resource_google_organization_iam_policy.go\<close>: the
  \<open>schema.ResourceData\<close> it reads and writes, the error values it returns, the
  helper \<open>setOrganizationIamPolicy\<close>, the four lifecycle functions and the
  \<open>schema.Resource\<close> value that binds them with the schema.  Each function takes
  the resource data and the remote store and returns Go's \<open>error\<close> (\<open>None\<close> for
  \<open>nil\<close>) with the updated data and store.  \<open>handleNotFoundError\<close> (in the
  provider's \<open>utils.go\<close>, not under \<open>src/\<close>) is modelled from the spec.
\<close>

section \<open>Resource data and errors\<close>

text \<open>
  \<open>rid\<close> is \<open>d.Id()\<close>; \<open>org_id\<close> and \<open>policy_data\<close> are what \<open>d.Get\<close> returns
  (the planned value); \<open>state_policy_data\<close> is the value of the prior state, which
  \<open>d.HasChange("policy_data")\<close> compares with.
\<close>

record resource_data =
  rid :: string
  org_id :: string
  policy_data :: string
  state_policy_data :: string

definition has_change_policy_data :: "resource_data \<Rightarrow> bool" where
  "has_change_policy_data d \<longleftrightarrow> state_policy_data d \<noteq> policy_data d"

datatype res_error =
    PolicyDataInvalid string unmarshal_error
  | Api api_error
  | Wrapped string res_error

type_synonym outcome = "res_error option \<times> resource_data \<times> remote"

definition org_name :: "string \<Rightarrow> string" where
  "org_name org = ''organizations/'' @ org"

section \<open>The handler\<close>

definition set_organization_iam_policy :: "resource_data \<Rightarrow> remote \<Rightarrow> res_error option \<times> remote" where
  "set_organization_iam_policy d r =
     (let org = org_name (org_id d) in
      case unmarshal_iam_policy (policy_data d) of
        Inl err \<Rightarrow> (Some (PolicyDataInvalid org err), r)
      | Inr p \<Rightarrow>
          (case set_iam_policy org p None r of
             (Inl e, r') \<Rightarrow> (Some (Api e), r')
           | (Inr _, r') \<Rightarrow> (None, r')))"

definition handle_not_found_error ::
  "api_error \<Rightarrow> resource_data \<Rightarrow> string \<Rightarrow> res_error option \<times> resource_data" where
  "handle_not_found_error e d resource =
     (if api_code e = 404 then (None, d\<lparr>rid := []\<rparr>)
      else (Some (Wrapped (''Error reading '' @ resource) (Api e)), d))"

definition resource_google_organization_iam_policy_read :: "resource_data \<Rightarrow> remote \<Rightarrow> outcome" where
  "resource_google_organization_iam_policy_read d r =
     (case get_iam_policy (rid d) r of
        (Inl e, r') \<Rightarrow>
          (case handle_not_found_error e d (''Iam policy for '' @ rid d) of (err, d') \<Rightarrow> (err, d', r'))
      | (Inr p, r') \<Rightarrow> (None, d\<lparr>policy_data := marshal_iam_policy p\<rparr>, r'))"

definition resource_google_organization_iam_policy_create :: "resource_data \<Rightarrow> remote \<Rightarrow> outcome" where
  "resource_google_organization_iam_policy_create d r =
     (case set_organization_iam_policy d r of
        (Some e, r') \<Rightarrow> (Some (Wrapped ''Error attaching the organization iam policy'' e), d, r')
      | (None, r') \<Rightarrow> resource_google_organization_iam_policy_read (d\<lparr>rid := org_name (org_id d)\<rparr>) r')"

definition resource_google_organization_iam_policy_update :: "resource_data \<Rightarrow> remote \<Rightarrow> outcome" where
  "resource_google_organization_iam_policy_update d r =
     (if has_change_policy_data d then
        (case set_organization_iam_policy d r of
           (Some e, r') \<Rightarrow> (Some (Wrapped ''Error updating the organization policy'' e), d, r')
         | (None, r') \<Rightarrow> resource_google_organization_iam_policy_read d r')
      else resource_google_organization_iam_policy_read d r)"

definition resource_google_organization_iam_policy_delete ::
  "resource_data \<Rightarrow> remote \<Rightarrow> res_error option \<times> remote" where
  "resource_google_organization_iam_policy_delete d r =
     (case set_iam_policy (rid d) empty_policy (Some ''bindings'') r of
        (Inl e, r') \<Rightarrow> (Some (Wrapped ''Error deleting the organization policy'' (Api e)), r')
      | (Inr _, r') \<Rightarrow> (None, r'))"

section \<open>The schema.Resource value\<close>

datatype value_type = TypeString

record schema_field =
  field_type :: value_type
  required :: bool
  diff_suppress_func :: "(string \<Rightarrow> string \<Rightarrow> bool) option"
  validate_func :: "(string \<Rightarrow> string list \<times> unmarshal_error list) option"

record resource_def =
  res_create :: "resource_data \<Rightarrow> remote \<Rightarrow> outcome"
  res_read :: "resource_data \<Rightarrow> remote \<Rightarrow> outcome"
  res_update :: "resource_data \<Rightarrow> remote \<Rightarrow> outcome"
  res_delete :: "resource_data \<Rightarrow> remote \<Rightarrow> res_error option \<times> remote"
  res_schema :: "(string \<times> schema_field) list"

definition resource_google_organization_iam_policy :: resource_def where
  "resource_google_organization_iam_policy =
     \<lparr>res_create = resource_google_organization_iam_policy_create,
      res_read = resource_google_organization_iam_policy_read,
      res_update = resource_google_organization_iam_policy_update,
      res_delete = resource_google_organization_iam_policy_delete,
      res_schema =
        [(''org_id'', \<lparr>field_type = TypeString, required = True,
                       diff_suppress_func = None, validate_func = None\<rparr>),
         (''policy_data'', \<lparr>field_type = TypeString, required = True,
                            diff_suppress_func = Some json_policy_diff_suppress,
                            validate_func = Some validate_iam_policy\<rparr>)]\<rparr>"

section \<open>Example values of the spec's scenario\<close>

abbreviation ex_policy_json :: string where
  "ex_policy_json \<equiv> ''{\"bindings\":[{\"role\":\"roles/viewer\",\"members\":[\"serviceAccount:x@y.iam.gserviceaccount.com\"]}]}''"

abbreviation ex_editor_json :: string where
  "ex_editor_json \<equiv> ''{\"bindings\":[{\"role\":\"roles/editor\",\"members\":[\"serviceAccount:x@y.iam.gserviceaccount.com\"]}]}''"

abbreviation ex_binding :: "string \<Rightarrow> binding" where
  "ex_binding r \<equiv> \<lparr>members = [''serviceAccount:x@y.iam.gserviceaccount.com''], role = r\<rparr>"

abbreviation ex_remote :: "policy \<Rightarrow> remote" where
  "ex_remote p \<equiv> \<lparr>policies = [''organizations/123'' \<mapsto> p], serial = 0, calls = [], fault = (\<lambda>_. None)\<rparr>"

abbreviation ex_data :: "string \<Rightarrow> string \<Rightarrow> string \<Rightarrow> resource_data" where
  "ex_data i pd old \<equiv> \<lparr>rid = i, org_id = ''123'', policy_data = pd, state_policy_data = old\<rparr>"

section \<open>Behaviour of each handler\<close>


lemma set_organization_iam_policy_invalid:
  "unmarshal_iam_policy (policy_data d) = Inl err \<Longrightarrow>
   set_organization_iam_policy d r = (Some (PolicyDataInvalid (org_name (org_id d)) err), r)"
  by (simp add: set_organization_iam_policy_def)

lemma set_organization_iam_policy_valid:
  "unmarshal_iam_policy (policy_data d) = Inr p \<Longrightarrow>
   set_organization_iam_policy d r =
     (case set_iam_policy (org_name (org_id d)) p None r of
        (Inl e, r') \<Rightarrow> (Some (Api e), r') | (Inr _, r') \<Rightarrow> (None, r'))"
  by (simp add: set_organization_iam_policy_def)

lemma set_organization_iam_policy_written:
  assumes "unmarshal_iam_policy (policy_data d) = Inr p"
    and "policies r (org_name (org_id d)) = Some cur"
    and "etag p = [] \<or> etag p = etag cur"
    and "fault r (SetIamPolicyCall (org_name (org_id d)) p None) = None"
  shows "set_organization_iam_policy d r =
     (None, (log_call (SetIamPolicyCall (org_name (org_id d)) p None) r)
              \<lparr>policies := (policies r)(org_name (org_id d) \<mapsto> cur\<lparr>bindings := bindings p, etag := fresh_etag (serial r)\<rparr>),
               serial := Suc (serial r)\<rparr>)"
proof -
  let ?new = "cur\<lparr>bindings := bindings p, etag := fresh_etag (serial r)\<rparr>"
  let ?r' = "(log_call (SetIamPolicyCall (org_name (org_id d)) p None) r)
              \<lparr>policies := (policies r)(org_name (org_id d) \<mapsto> ?new), serial := Suc (serial r)\<rparr>"
  have "set_iam_policy (org_name (org_id d)) p None r = (Inr ?new, ?r')"
    using assms(2-4) by (simp add: set_iam_policy_Inr)
  with assms(1) show ?thesis by (simp add: set_organization_iam_policy_valid)
qed

lemma read_found:
  "get_iam_policy (rid d) r = (Inr p, r') \<Longrightarrow>
   resource_google_organization_iam_policy_read d r = (None, d\<lparr>policy_data := marshal_iam_policy p\<rparr>, r')"
  by (simp add: resource_google_organization_iam_policy_read_def)

lemma read_failed:
  "get_iam_policy (rid d) r = (Inl e, r') \<Longrightarrow>
   resource_google_organization_iam_policy_read d r =
     (if api_code e = 404 then (None, d\<lparr>rid := []\<rparr>, r')
      else (Some (Wrapped (''Error reading Iam policy for '' @ rid d) (Api e)), d, r'))"
  by (simp add: resource_google_organization_iam_policy_read_def handle_not_found_error_def)

lemma get_iam_policy_found:
  "fault r (GetIamPolicyCall res) = None \<Longrightarrow> policies r res = Some p \<Longrightarrow>
   get_iam_policy res r = (Inr p, log_call (GetIamPolicyCall res) r)"
  by (simp add: get_iam_policy_def)


text \<open>
  C1. Create, on valid policy data for an organization the API knows and with no
  failure injected, makes exactly one write (of the parsed policy, no update mask) and
  one read, sets the id to \<open>organizations/<org_id>\<close>, stores the parsed bindings
  under a fresh etag, and leaves in \<open>policy_data\<close> the marshalled stored policy.
\<close>

theorem create_succeeds:
  assumes valid: "unmarshal_iam_policy (policy_data d) = Inr p"
    and org: "policies r (org_name (org_id d)) = Some cur"
    and etag_ok: "etag p = [] \<or> etag p = etag cur"
    and no_fault: "fault r (SetIamPolicyCall (org_name (org_id d)) p None) = None"
                  "fault r (GetIamPolicyCall (org_name (org_id d))) = None"
  shows "resource_google_organization_iam_policy_create d r =
     (None,
      d\<lparr>rid := org_name (org_id d),
        policy_data := marshal_iam_policy (cur\<lparr>bindings := bindings p, etag := fresh_etag (serial r)\<rparr>)\<rparr>,
      r\<lparr>policies := (policies r)(org_name (org_id d) \<mapsto> cur\<lparr>bindings := bindings p, etag := fresh_etag (serial r)\<rparr>),
        serial := Suc (serial r),
        calls := calls r @ [SetIamPolicyCall (org_name (org_id d)) p None, GetIamPolicyCall (org_name (org_id d))]\<rparr>)"
proof -
  let ?org = "org_name (org_id d)"
  let ?new = "cur\<lparr>bindings := bindings p, etag := fresh_etag (serial r)\<rparr>"
  let ?r1 = "(log_call (SetIamPolicyCall ?org p None) r)\<lparr>policies := (policies r)(?org \<mapsto> ?new), serial := Suc (serial r)\<rparr>"
  have set: "set_organization_iam_policy d r = (None, ?r1)"
    using valid org etag_ok no_fault(1) by (rule set_organization_iam_policy_written)
  have "get_iam_policy ?org ?r1 = (Inr ?new, log_call (GetIamPolicyCall ?org) ?r1)"
    using no_fault(2) by (simp add: get_iam_policy_found)
  then have "resource_google_organization_iam_policy_read (d\<lparr>rid := ?org\<rparr>) ?r1
      = (None, d\<lparr>rid := ?org, policy_data := marshal_iam_policy ?new\<rparr>, log_call (GetIamPolicyCall ?org) ?r1)"
    by (simp add: read_found)
  with set show ?thesis
    by (simp add: resource_google_organization_iam_policy_create_def log_call_def)
qed

text \<open>
  C3. Create on policy data that does not decode fails with the wrapped
  \<open>'policy_data' is not valid\<close> error and makes no remote call: data and store unchanged.
\<close>

theorem create_invalid_policy_data:
  "unmarshal_iam_policy (policy_data d) = Inl err \<Longrightarrow>
   resource_google_organization_iam_policy_create d r =
     (Some (Wrapped ''Error attaching the organization iam policy'' (PolicyDataInvalid (org_name (org_id d)) err)), d, r)"
  by (simp add: resource_google_organization_iam_policy_create_def set_organization_iam_policy_invalid)

text \<open>
  C5. Update without a change of \<open>policy_data\<close> makes no write: its only remote
  call is the read of the resource, and the store's policies are unchanged.
\<close>

theorem update_without_change_only_reads:
  assumes "\<not> has_change_policy_data d"
    and "resource_google_organization_iam_policy_update d r = (err, d', r')"
  shows "calls r' = calls r @ [GetIamPolicyCall (rid d)] \<and> policies r' = policies r"
  using assms get_iam_policy_state [of "rid d" r]
  by (auto simp: resource_google_organization_iam_policy_update_def
                 resource_google_organization_iam_policy_read_def handle_not_found_error_def
           split: prod.splits sum.splits if_splits)

text \<open>
  C4. Update with a changed, valid \<open>policy_data\<close> makes exactly one write and
  one read, and the data then holds the marshalled stored policy.
\<close>

theorem update_with_change_writes_once:
  assumes change: "has_change_policy_data d"
    and valid: "unmarshal_iam_policy (policy_data d) = Inr p"
    and id: "rid d = org_name (org_id d)"
    and org: "policies r (rid d) = Some cur"
    and etag_ok: "etag p = [] \<or> etag p = etag cur"
    and no_fault: "fault r (SetIamPolicyCall (rid d) p None) = None" "fault r (GetIamPolicyCall (rid d)) = None"
  shows "resource_google_organization_iam_policy_update d r =
     (None,
      d\<lparr>policy_data := marshal_iam_policy (cur\<lparr>bindings := bindings p, etag := fresh_etag (serial r)\<rparr>)\<rparr>,
      r\<lparr>policies := (policies r)(rid d \<mapsto> cur\<lparr>bindings := bindings p, etag := fresh_etag (serial r)\<rparr>),
        serial := Suc (serial r),
        calls := calls r @ [SetIamPolicyCall (rid d) p None, GetIamPolicyCall (rid d)]\<rparr>)"
proof -
  let ?new = "cur\<lparr>bindings := bindings p, etag := fresh_etag (serial r)\<rparr>"
  let ?r1 = "(log_call (SetIamPolicyCall (rid d) p None) r)\<lparr>policies := (policies r)(rid d \<mapsto> ?new), serial := Suc (serial r)\<rparr>"
  have set: "set_organization_iam_policy d r = (None, ?r1)"
    using set_organization_iam_policy_written [OF valid _ etag_ok] org no_fault(1) id by simp
  have "get_iam_policy (rid d) ?r1 = (Inr ?new, log_call (GetIamPolicyCall (rid d)) ?r1)"
    using no_fault(2) by (simp add: get_iam_policy_found)
  then have "resource_google_organization_iam_policy_read d ?r1
      = (None, d\<lparr>policy_data := marshal_iam_policy ?new\<rparr>, log_call (GetIamPolicyCall (rid d)) ?r1)"
    by (rule read_found)
  with set change show ?thesis
    by (simp add: resource_google_organization_iam_policy_update_def log_call_def)
qed

text \<open>
  C11. Update with changed policy data that does not decode fails with the wrapped
  error and makes no remote call.
\<close>

theorem update_invalid_policy_data:
  "has_change_policy_data d \<Longrightarrow> unmarshal_iam_policy (policy_data d) = Inl err \<Longrightarrow>
   resource_google_organization_iam_policy_update d r =
     (Some (Wrapped ''Error updating the organization policy'' (PolicyDataInvalid (org_name (org_id d)) err)), d, r)"
  by (simp add: resource_google_organization_iam_policy_update_def set_organization_iam_policy_invalid)

text \<open>
  C6. Delete does not remove the organization's policy: it writes an empty policy
  with update mask \<open>bindings\<close>, which clears the bindings, keeps the version and
  issues a fresh etag, in one remote call.
\<close>

theorem delete_resets_bindings:
  assumes org: "policies r (rid d) = Some cur"
    and no_fault: "fault r (SetIamPolicyCall (rid d) empty_policy (Some ''bindings'')) = None"
  shows "resource_google_organization_iam_policy_delete d r =
     (None, r\<lparr>policies := (policies r)(rid d \<mapsto> cur\<lparr>bindings := [], etag := fresh_etag (serial r)\<rparr>),
              serial := Suc (serial r),
              calls := calls r @ [SetIamPolicyCall (rid d) empty_policy (Some ''bindings'')]\<rparr>)"
proof -
  have "set_iam_policy (rid d) empty_policy (Some ''bindings'') r =
        (Inr (cur\<lparr>bindings := [], etag := fresh_etag (serial r)\<rparr>),
         (log_call (SetIamPolicyCall (rid d) empty_policy (Some ''bindings'')) r)
           \<lparr>policies := (policies r)(rid d \<mapsto> cur\<lparr>bindings := [], etag := fresh_etag (serial r)\<rparr>),
            serial := Suc (serial r)\<rparr>)"
    using org no_fault by (simp add: set_iam_policy_Inr empty_policy_def)
  then show ?thesis
    by (simp add: resource_google_organization_iam_policy_delete_def log_call_def)
qed

section \<open>What a handler can return, and the store it leaves\<close>

lemma read_shape:
  "resource_google_organization_iam_policy_read d r = (err, d', r') \<Longrightarrow>
   d' = d \<or> d' = d\<lparr>rid := []\<rparr> \<or> (\<exists>p. d' = d\<lparr>policy_data := marshal_iam_policy p\<rparr>)"
  by (auto simp: resource_google_organization_iam_policy_read_def handle_not_found_error_def
           split: prod.splits sum.splits if_splits)

lemma read_store:
  "resource_google_organization_iam_policy_read d r = (err, d', r') \<Longrightarrow>
   r' = log_call (GetIamPolicyCall (rid d)) r"
  using get_iam_policy_state [of "rid d" r]
  by (auto simp: resource_google_organization_iam_policy_read_def handle_not_found_error_def
           split: prod.splits sum.splits if_splits)

lemma set_organization_iam_policy_dom:
  assumes "set_organization_iam_policy d r = (err, r')"
  shows "dom (policies r') = dom (policies r)"
proof (cases "unmarshal_iam_policy (policy_data d)")
  case (Inl e)
  with assms show ?thesis by (simp add: set_organization_iam_policy_invalid)
next
  case (Inr p)
  with assms have "r' = snd (set_iam_policy (org_name (org_id d)) p None r)"
    by (auto simp: set_organization_iam_policy_valid split: prod.splits sum.splits)
  then show ?thesis by (simp add: set_iam_policy_dom)
qed

lemma create_shape:
  "resource_google_organization_iam_policy_create d r = (err, d', r') \<Longrightarrow>
   d' = d \<or> d' = d\<lparr>rid := org_name (org_id d)\<rparr> \<or> d' = d\<lparr>rid := []\<rparr> \<or>
   (\<exists>p. d' = d\<lparr>rid := org_name (org_id d), policy_data := marshal_iam_policy p\<rparr>)"
  by (auto simp: resource_google_organization_iam_policy_create_def split: prod.splits option.splits
           dest!: read_shape)

lemma update_shape:
  "resource_google_organization_iam_policy_update d r = (err, d', r') \<Longrightarrow>
   d' = d \<or> d' = d\<lparr>rid := []\<rparr> \<or> (\<exists>p. d' = d\<lparr>policy_data := marshal_iam_policy p\<rparr>)"
  by (auto simp: resource_google_organization_iam_policy_update_def split: prod.splits option.splits if_splits
           dest!: read_shape)

lemma create_dom:
  assumes "resource_google_organization_iam_policy_create d r = (err, d', r')"
  shows "dom (policies r') = dom (policies r)"
proof -
  obtain e1 r1 where s: "set_organization_iam_policy d r = (e1, r1)" by fastforce
  with assms have "r' = r1 \<or> (\<exists>d1. resource_google_organization_iam_policy_read d1 r1 = (err, d', r'))"
    by (auto simp: resource_google_organization_iam_policy_create_def split: option.splits)
  then have "policies r' = policies r1" by (auto dest: read_store)
  with set_organization_iam_policy_dom [OF s] show ?thesis by simp
qed

lemma update_dom:
  assumes "resource_google_organization_iam_policy_update d r = (err, d', r')"
  shows "dom (policies r') = dom (policies r)"
proof (cases "has_change_policy_data d")
  case True
  obtain e1 r1 where s: "set_organization_iam_policy d r = (e1, r1)" by fastforce
  with assms True have "r' = r1 \<or> (\<exists>d1. resource_google_organization_iam_policy_read d1 r1 = (err, d', r'))"
    by (auto simp: resource_google_organization_iam_policy_update_def split: option.splits)
  then have "policies r' = policies r1" by (auto dest: read_store)
  with set_organization_iam_policy_dom [OF s] show ?thesis by simp
next
  case False
  with assms show ?thesis
    by (auto simp: resource_google_organization_iam_policy_update_def dest: read_store)
qed

lemma delete_dom:
  "resource_google_organization_iam_policy_delete d r = (err, r') \<Longrightarrow> dom (policies r') = dom (policies r)"
  using set_iam_policy_dom [of "rid d" empty_policy "Some ''bindings''" r]
  by (auto simp: resource_google_organization_iam_policy_delete_def split: prod.splits sum.splits)

lemma set_organization_ok_dom:
  "set_organization_iam_policy d r = (None, r') \<Longrightarrow> org_name (org_id d) \<in> dom (policies r')"
  by (auto simp: set_organization_iam_policy_def Let_def set_iam_policy_Inr split: sum.splits prod.splits)

lemma read_rid:
  "resource_google_organization_iam_policy_read d r = (err, d', r') \<Longrightarrow>
   (rid d' = rid d \<or> rid d' = []) \<and> policies r' = policies r"
  by (auto dest: read_shape read_store)

lemma create_id_dom:
  assumes "resource_google_organization_iam_policy_create d r = (err, d', r')"
  shows "rid d' = rid d \<or> rid d' = [] \<or> rid d' \<in> dom (policies r')"
proof -
  obtain e1 r1 where s: "set_organization_iam_policy d r = (e1, r1)" by fastforce
  show ?thesis
  proof (cases e1)
    case None
    with s assms have "resource_google_organization_iam_policy_read (d\<lparr>rid := org_name (org_id d)\<rparr>) r1 = (err, d', r')"
      by (simp add: resource_google_organization_iam_policy_create_def)
    with set_organization_ok_dom [of d r r1] s None show ?thesis
      by (auto dest!: read_rid)
  next
    case (Some e)
    with s assms show ?thesis by (simp add: resource_google_organization_iam_policy_create_def)
  qed
qed

section \<open>Read and its errors\<close>

text \<open>
  C7. Read of a resource the API reports as absent (404) is no error: it clears the
  id, which makes the orchestrator drop the resource, and leaves the rest unchanged.
\<close>

theorem read_not_found_clears_id:
  "fault r (GetIamPolicyCall (rid d)) = None \<Longrightarrow> policies r (rid d) = None \<Longrightarrow>
   resource_google_organization_iam_policy_read d r = (None, d\<lparr>rid := []\<rparr>, log_call (GetIamPolicyCall (rid d)) r)"
  by (simp add: resource_google_organization_iam_policy_read_def get_iam_policy_def handle_not_found_error_def
                not_found_def)

text \<open>
  C15. Any other read failure is returned wrapped as \<open>Error reading Iam policy for <id>\<close>,
  with the data unchanged.
\<close>

theorem read_error_wrapped:
  "fault r (GetIamPolicyCall (rid d)) = Some e \<Longrightarrow> api_code e \<noteq> 404 \<Longrightarrow>
   resource_google_organization_iam_policy_read d r =
     (Some (Wrapped (''Error reading Iam policy for '' @ rid d) (Api e)), d, log_call (GetIamPolicyCall (rid d)) r)"
  by (simp add: resource_google_organization_iam_policy_read_def get_iam_policy_def handle_not_found_error_def)

section \<open>A write followed by a failed read\<close>

text \<open>
  C25. Create is two remote calls, not one: when the write succeeds and the read
  back fails (other than 404), Create returns the read's error although the policy
  was already replaced, and the data already carries the id.
\<close>

theorem create_read_fails_after_write:
  assumes valid: "unmarshal_iam_policy (policy_data d) = Inr p"
    and org: "policies r (org_name (org_id d)) = Some cur"
    and etag_ok: "etag p = [] \<or> etag p = etag cur"
    and no_fault: "fault r (SetIamPolicyCall (org_name (org_id d)) p None) = None"
    and read_fault: "fault r (GetIamPolicyCall (org_name (org_id d))) = Some e" "api_code e \<noteq> 404"
  shows "resource_google_organization_iam_policy_create d r =
     (Some (Wrapped (''Error reading Iam policy for '' @ org_name (org_id d)) (Api e)),
      d\<lparr>rid := org_name (org_id d)\<rparr>,
      r\<lparr>policies := (policies r)(org_name (org_id d) \<mapsto> cur\<lparr>bindings := bindings p, etag := fresh_etag (serial r)\<rparr>),
        serial := Suc (serial r),
        calls := calls r @ [SetIamPolicyCall (org_name (org_id d)) p None, GetIamPolicyCall (org_name (org_id d))]\<rparr>)"
proof -
  let ?org = "org_name (org_id d)"
  let ?r1 = "(log_call (SetIamPolicyCall ?org p None) r)
               \<lparr>policies := (policies r)(?org \<mapsto> cur\<lparr>bindings := bindings p, etag := fresh_etag (serial r)\<rparr>),
                serial := Suc (serial r)\<rparr>"
  have set: "set_organization_iam_policy d r = (None, ?r1)"
    using valid org etag_ok no_fault by (rule set_organization_iam_policy_written)
  have "get_iam_policy ?org ?r1 = (Inl e, log_call (GetIamPolicyCall ?org) ?r1)"
    using read_fault(1) by (simp add: get_iam_policy_def)
  with read_fault(2) have "resource_google_organization_iam_policy_read (d\<lparr>rid := ?org\<rparr>) ?r1 =
      (Some (Wrapped (''Error reading Iam policy for '' @ ?org) (Api e)), d\<lparr>rid := ?org\<rparr>, log_call (GetIamPolicyCall ?org) ?r1)"
    by (simp add: read_failed)
  with set show ?thesis
    by (simp add: resource_google_organization_iam_policy_create_def log_call_def)
qed

section \<open>Witnesses on the spec's scenario\<close>

lemma ex_policy_json_parses:
  "unmarshal_iam_policy ex_policy_json = Inr \<lparr>bindings = [ex_binding ''roles/viewer''], etag = [], version = 0\<rparr>"
  by code_simp

lemma ex_editor_json_parses:
  "unmarshal_iam_policy ex_editor_json = Inr \<lparr>bindings = [ex_binding ''roles/editor''], etag = [], version = 0\<rparr>"
  by code_simp

theorem create_succeeds_witness:
  "resource_google_organization_iam_policy_create (ex_data [] ex_policy_json []) (ex_remote empty_policy) =
     (None, ex_data ''organizations/123''
              (marshal_iam_policy (empty_policy\<lparr>bindings := [ex_binding ''roles/viewer''], etag := fresh_etag 0\<rparr>)) [],
      (ex_remote (empty_policy\<lparr>bindings := [ex_binding ''roles/viewer''], etag := fresh_etag 0\<rparr>))
        \<lparr>serial := 1,
         calls := [SetIamPolicyCall ''organizations/123'' \<lparr>bindings = [ex_binding ''roles/viewer''], etag = [], version = 0\<rparr> None,
                   GetIamPolicyCall ''organizations/123'']\<rparr>)"
  using create_succeeds [where d = "ex_data [] ex_policy_json []" and r = "ex_remote empty_policy"
          and cur = empty_policy and p = "\<lparr>bindings = [ex_binding ''roles/viewer''], etag = [], version = 0\<rparr>"]
        ex_policy_json_parses
  by (simp add: org_name_def empty_policy_def)

theorem create_invalid_policy_data_witness:
  "resource_google_organization_iam_policy_create (ex_data [] ''{\"bindings\": [}'' []) (ex_remote empty_policy) =
     (Some (Wrapped ''Error attaching the organization iam policy''
             (PolicyDataInvalid ''organizations/123'' (CouldNotUnmarshal ''{\"bindings\": [}'' (SyntaxError CHR ''}'')))),
      ex_data [] ''{\"bindings\": [}'' [], ex_remote empty_policy)"
proof -
  have "unmarshal_iam_policy ''{\"bindings\": [}'' = Inl (CouldNotUnmarshal ''{\"bindings\": [}'' (SyntaxError CHR ''}''))"
    by code_simp
  then show ?thesis
    using create_invalid_policy_data [where d = "ex_data [] ''{\"bindings\": [}'' []" and r = "ex_remote empty_policy"]
    by (simp add: org_name_def)
qed

theorem update_with_change_writes_once_witness:
  "resource_google_organization_iam_policy_update
      (ex_data ''organizations/123'' ex_editor_json ex_policy_json)
      (ex_remote \<lparr>bindings = [ex_binding ''roles/viewer''], etag = ''BwA'', version = 1\<rparr>) =
     (None, ex_data ''organizations/123''
              (marshal_iam_policy \<lparr>bindings = [ex_binding ''roles/editor''], etag = fresh_etag 0, version = 1\<rparr>)
              ex_policy_json,
      (ex_remote \<lparr>bindings = [ex_binding ''roles/editor''], etag = fresh_etag 0, version = 1\<rparr>)
        \<lparr>serial := 1,
         calls := [SetIamPolicyCall ''organizations/123'' \<lparr>bindings = [ex_binding ''roles/editor''], etag = [], version = 0\<rparr> None,
                   GetIamPolicyCall ''organizations/123'']\<rparr>)"
proof -
  have ch: "has_change_policy_data (ex_data ''organizations/123'' ex_editor_json ex_policy_json)"
    by (simp add: has_change_policy_data_def)
  show ?thesis
    using update_with_change_writes_once [where d = "ex_data ''organizations/123'' ex_editor_json ex_policy_json"
            and r = "ex_remote \<lparr>bindings = [ex_binding ''roles/viewer''], etag = ''BwA'', version = 1\<rparr>"
            and cur = "\<lparr>bindings = [ex_binding ''roles/viewer''], etag = ''BwA'', version = 1\<rparr>"
            and p = "\<lparr>bindings = [ex_binding ''roles/editor''], etag = [], version = 0\<rparr>"]
          ch ex_editor_json_parses
    by (simp add: org_name_def)
qed

theorem update_without_change_only_reads_witness:
  "calls (snd (snd (resource_google_organization_iam_policy_update
            (ex_data ''organizations/123'' ''{}'' ''{}'') (ex_remote empty_policy))))
     = [GetIamPolicyCall ''organizations/123'']"
proof -
  let ?d = "ex_data ''organizations/123'' ''{}'' ''{}''"
  have nc: "\<not> has_change_policy_data ?d" by (simp add: has_change_policy_data_def)
  obtain err d' r' where eq: "resource_google_organization_iam_policy_update ?d (ex_remote empty_policy) = (err, d', r')"
    by (cases "resource_google_organization_iam_policy_update ?d (ex_remote empty_policy)") auto
  from update_without_change_only_reads [OF nc eq] eq show ?thesis by simp
qed

theorem update_invalid_policy_data_witness:
  "resource_google_organization_iam_policy_update (ex_data ''organizations/123'' ''[1]'' ''{}'') (ex_remote empty_policy) =
     (Some (Wrapped ''Error updating the organization policy''
             (PolicyDataInvalid ''organizations/123'' (CouldNotUnmarshal ''[1]'' (TypeError ''Policy'')))),
      ex_data ''organizations/123'' ''[1]'' ''{}'', ex_remote empty_policy)"
proof -
  have ch: "has_change_policy_data (ex_data ''organizations/123'' ''[1]'' ''{}'')"
    by (simp add: has_change_policy_data_def)
  have "unmarshal_iam_policy ''[1]'' = Inl (CouldNotUnmarshal ''[1]'' (TypeError ''Policy''))"
    by code_simp
  then show ?thesis
    using update_invalid_policy_data [where d = "ex_data ''organizations/123'' ''[1]'' ''{}''" and r = "ex_remote empty_policy"] ch
    by (simp add: org_name_def)
qed

theorem delete_resets_bindings_witness:
  "resource_google_organization_iam_policy_delete (ex_data ''organizations/123'' ''{}'' ''{}'')
      (ex_remote \<lparr>bindings = [ex_binding ''roles/viewer''], etag = ''BwA'', version = 1\<rparr>) =
     (None, (ex_remote \<lparr>bindings = [], etag = fresh_etag 0, version = 1\<rparr>)
              \<lparr>serial := 1, calls := [SetIamPolicyCall ''organizations/123'' empty_policy (Some ''bindings'')]\<rparr>)"
  using delete_resets_bindings [of "ex_remote \<lparr>bindings = [ex_binding ''roles/viewer''], etag = ''BwA'', version = 1\<rparr>"
                                   "ex_data ''organizations/123'' ''{}'' ''{}''"]
  by simp

theorem read_not_found_clears_id_witness:
  "resource_google_organization_iam_policy_read (ex_data ''organizations/999'' ''{}'' ''{}'') (ex_remote empty_policy) =
     (None, ex_data [] ''{}'' ''{}'', (ex_remote empty_policy)\<lparr>calls := [GetIamPolicyCall ''organizations/999'']\<rparr>)"
  using read_not_found_clears_id [of "ex_remote empty_policy" "ex_data ''organizations/999'' ''{}'' ''{}''"]
  by (simp add: log_call_def)

theorem read_error_wrapped_witness:
  "resource_google_organization_iam_policy_read (ex_data ''organizations/123'' ''{}'' ''{}'')
      ((ex_remote empty_policy)\<lparr>fault := (\<lambda>_. Some (ApiError 403 ''The caller does not have permission''))\<rparr>) =
     (Some (Wrapped ''Error reading Iam policy for organizations/123''
              (Api (ApiError 403 ''The caller does not have permission''))),
      ex_data ''organizations/123'' ''{}'' ''{}'',
      (ex_remote empty_policy)\<lparr>calls := [GetIamPolicyCall ''organizations/123''],
                                fault := (\<lambda>_. Some (ApiError 403 ''The caller does not have permission''))\<rparr>)"
  using read_error_wrapped [of "(ex_remote empty_policy)\<lparr>fault := (\<lambda>_. Some (ApiError 403 ''The caller does not have permission''))\<rparr>"
                               "ex_data ''organizations/123'' ''{}'' ''{}''"]
  by (simp add: log_call_def)

theorem create_read_fails_after_write_witness:
  "resource_google_organization_iam_policy_create (ex_data [] ex_policy_json [])
     ((ex_remote empty_policy)\<lparr>fault := (\<lambda>c. if c = GetIamPolicyCall ''organizations/123''
                                                then Some (ApiError 503 ''Service unavailable'') else None)\<rparr>) =
     (Some (Wrapped ''Error reading Iam policy for organizations/123'' (Api (ApiError 503 ''Service unavailable''))),
      ex_data ''organizations/123'' ex_policy_json [],
      (ex_remote (empty_policy\<lparr>bindings := [ex_binding ''roles/viewer''], etag := fresh_etag 0\<rparr>))
        \<lparr>serial := 1,
         calls := [SetIamPolicyCall ''organizations/123'' \<lparr>bindings = [ex_binding ''roles/viewer''], etag = [], version = 0\<rparr> None,
                   GetIamPolicyCall ''organizations/123''],
         fault := (\<lambda>c. if c = GetIamPolicyCall ''organizations/123''
                         then Some (ApiError 503 ''Service unavailable'') else None)\<rparr>)"
  using create_read_fails_after_write [where d = "ex_data [] ex_policy_json []"
          and r = "(ex_remote empty_policy)\<lparr>fault := (\<lambda>c. if c = GetIamPolicyCall ''organizations/123''
                                                then Some (ApiError 503 ''Service unavailable'') else None)\<rparr>"
          and cur = empty_policy and p = "\<lparr>bindings = [ex_binding ''roles/viewer''], etag = [], version = 0\<rparr>"
          and e = "ApiError 503 ''Service unavailable''"]
        ex_policy_json_parses
  by (simp add: org_name_def empty_policy_def)
end
