(* ===== verification/Lifecycle.thy ===== *)
theory Lifecycle
  imports Resource
begin

text \<open>
  The orchestrator side of the lifecycle contract, stated over any
  \<open>resource_def\<close> (the interface of \<open>Resource.thy\<close>): Terraform validates the
  configuration with the schema's \<open>ValidateFunc\<close>, plans with its
  \<open>DiffSuppressFunc\<close>, then calls Create, Update, Read (refresh) or Delete, and keeps
  the resource in its state only while \<open>d.Id()\<close> is non-empty (\<open>data.State()\<close> is
  \<open>nil\<close> for an empty id).  A resource whose Create returned an error after its
  id was set is kept tainted; it is not updated in place but replaced.  Another actor
  may write the remote policy at any time, and failures of the API may appear and
  clear.
  The orchestrator is not part of the repository; it is modelled from the spec's
  description of the callback contract.  The theory also models the acceptance
  test's destroy check \<open>testAccCheckGoogleOrganizationIamPolicyDestroy\<close>.
\<close>

section \<open>Plan\<close>

record config =
  cfg_org_id :: string
  cfg_policy_data :: string

record world =
  tracked :: "resource_data option"
  store :: remote
  tainted :: bool

definition field_of :: "resource_def \<Rightarrow> string \<Rightarrow> schema_field option" where
  "field_of R k = map_of (res_schema R) k"

definition suppressed :: "resource_def \<Rightarrow> string \<Rightarrow> string \<Rightarrow> string \<Rightarrow> bool" where
  "suppressed R k old new \<longleftrightarrow>
     old = new \<or>
     (case field_of R k of
        Some f \<Rightarrow> (case diff_suppress_func f of Some g \<Rightarrow> g old new | None \<Rightarrow> False)
      | None \<Rightarrow> False)"

definition config_valid :: "resource_def \<Rightarrow> config \<Rightarrow> bool" where
  "config_valid R cfg \<longleftrightarrow>
     (case field_of R ''policy_data'' of
        Some f \<Rightarrow> (case validate_func f of Some v \<Rightarrow> snd (v (cfg_policy_data cfg)) = [] | None \<Rightarrow> True)
      | None \<Rightarrow> True)"

definition new_data :: "config \<Rightarrow> resource_data" where
  "new_data cfg = \<lparr>rid = [], org_id = cfg_org_id cfg, policy_data = cfg_policy_data cfg, state_policy_data = []\<rparr>"

definition planned_data :: "resource_def \<Rightarrow> resource_data \<Rightarrow> config \<Rightarrow> resource_data" where
  "planned_data R d cfg =
     d\<lparr>org_id := cfg_org_id cfg,
       state_policy_data := policy_data d,
       policy_data := (if suppressed R ''policy_data'' (policy_data d) (cfg_policy_data cfg)
                       then policy_data d else cfg_policy_data cfg)\<rparr>"

definition needs_update :: "resource_def \<Rightarrow> resource_data \<Rightarrow> config \<Rightarrow> bool" where
  "needs_update R d cfg \<longleftrightarrow>
     org_id d \<noteq> cfg_org_id cfg \<or> \<not> suppressed R ''policy_data'' (policy_data d) (cfg_policy_data cfg)"

definition keep :: "resource_data \<Rightarrow> resource_data option" where
  "keep d = (if rid d = [] then None else Some d)"

text \<open>The invariant of the tracked state: an \<open>organizations/\<close> id and policy data that validates.\<close>

definition is_org_name :: "string \<Rightarrow> bool" where
  "is_org_name s \<longleftrightarrow> take 14 s = ''organizations/''"

definition policy_data_ok :: "string \<Rightarrow> bool" where
  "policy_data_ok s \<longleftrightarrow> snd (validate_iam_policy s) = []"

definition tracked_ok :: "world \<Rightarrow> bool" where
  "tracked_ok w \<longleftrightarrow>
     (case tracked w of None \<Rightarrow> True | Some d \<Rightarrow> is_org_name (rid d) \<and> policy_data_ok (policy_data d))"

text \<open>The tracked id names an organization that has a policy.\<close>

definition tracked_exists :: "world \<Rightarrow> bool" where
  "tracked_exists w \<longleftrightarrow> (case tracked w of None \<Rightarrow> True | Some d \<Rightarrow> rid d \<in> dom (policies (store w)))"

section \<open>Steps\<close>

inductive tf_step :: "resource_def \<Rightarrow> world \<Rightarrow> world \<Rightarrow> bool" for R where
  create: "tracked w = None \<Longrightarrow> config_valid R cfg \<Longrightarrow>
     res_create R (new_data cfg) (store w) = (err, d', r') \<Longrightarrow>
     tf_step R w \<lparr>tracked = keep d', store = r', tainted = (err \<noteq> None \<and> rid d' \<noteq> [])\<rparr>"
| update: "tracked w = Some d \<Longrightarrow> \<not> tainted w \<Longrightarrow> config_valid R cfg \<Longrightarrow> needs_update R d cfg \<Longrightarrow>
     res_update R (planned_data R d cfg) (store w) = (err, d', r') \<Longrightarrow>
     tf_step R w \<lparr>tracked = keep d', store = r', tainted = False\<rparr>"
| refresh: "tracked w = Some d \<Longrightarrow> res_read R d (store w) = (err, d', r') \<Longrightarrow>
     tf_step R w \<lparr>tracked = (if err = None then keep d' else Some d), store = r',
                  tainted = (tainted w \<and> (err \<noteq> None \<or> rid d' \<noteq> []))\<rparr>"
| destroy: "tracked w = Some d \<Longrightarrow> res_delete R d (store w) = (err, r') \<Longrightarrow>
     tf_step R w \<lparr>tracked = (if err = None then None else Some d), store = r',
                  tainted = (err \<noteq> None \<and> tainted w)\<rparr>"
| external: "set_iam_policy res p m (store w) = (Inr q, r') \<Longrightarrow> tf_step R w (w\<lparr>store := r'\<rparr>)"
| environment: "tf_step R w (w\<lparr>store := (store w)\<lparr>fault := f\<rparr>\<rparr>)"

inductive reachable :: "resource_def \<Rightarrow> world \<Rightarrow> world \<Rightarrow> bool" for R w0 where
  start: "reachable R w0 w0"
| step: "reachable R w0 w \<Longrightarrow> tf_step R w w' \<Longrightarrow> reachable R w0 w'"

inductive_cases tf_step_cases: "tf_step R w w'"

section \<open>The acceptance test's destroy check\<close>

datatype check_result = CheckOk | CheckError string | Panic string

fun destroy_check :: "(string \<times> string) list \<Rightarrow> remote \<Rightarrow> check_result" where
  "destroy_check [] r = CheckOk"
| "destroy_check ((ty, rs_id) # rest) r =
     (if ty \<noteq> ''google_organization_iam_policy'' then destroy_check rest r
      else if rs_id = [] then CheckError ''No ID is set''
      else (case get_iam_policy rs_id r of
              (Inl e, r') \<Rightarrow> Panic ''invalid memory address or nil pointer dereference''
            | (Inr p, r') \<Rightarrow> destroy_check rest r'))"

section \<open>Example values of the spec's scenario\<close>

abbreviation ex_cfg :: "string \<Rightarrow> string \<Rightarrow> config" where
  "ex_cfg org pd \<equiv> \<lparr>cfg_org_id = org, cfg_policy_data = pd\<rparr>"

abbreviation ex_start :: world where
  "ex_start \<equiv> \<lparr>tracked = None, store = ex_remote empty_policy, tainted = False\<rparr>"

abbreviation two_orgs :: remote where
  "two_orgs \<equiv> \<lparr>policies = [''organizations/123'' \<mapsto> empty_policy, ''organizations/456'' \<mapsto> empty_policy],
               serial = 0, calls = [], fault = (\<lambda>_. None)\<rparr>"

section \<open>The tracked state stays well-formed\<close>

lemma iam_handlers:
  "res_create resource_google_organization_iam_policy = resource_google_organization_iam_policy_create"
  "res_read resource_google_organization_iam_policy = resource_google_organization_iam_policy_read"
  "res_update resource_google_organization_iam_policy = resource_google_organization_iam_policy_update"
  "res_delete resource_google_organization_iam_policy = resource_google_organization_iam_policy_delete"
  by (simp_all add: resource_google_organization_iam_policy_def)

lemma is_org_name_org [simp]: "is_org_name (org_name org)"
  by (simp add: is_org_name_def org_name_def)

lemma policy_data_ok_marshal [simp]: "policy_data_ok (marshal_iam_policy p)"
  by (simp add: policy_data_ok_def validate_iam_policy_def codec_simps)

lemma field_of_policy_data:
  "field_of resource_google_organization_iam_policy ''policy_data'' =
     Some \<lparr>field_type = TypeString, required = True,
           diff_suppress_func = Some json_policy_diff_suppress, validate_func = Some validate_iam_policy\<rparr>"
  by (simp add: field_of_def resource_google_organization_iam_policy_def)

lemma config_valid_iam:
  "config_valid resource_google_organization_iam_policy cfg \<longleftrightarrow> policy_data_ok (cfg_policy_data cfg)"
  by (simp add: config_valid_def field_of_policy_data policy_data_ok_def)

text \<open>
  C10. Terraform stops a plan on the errors of a \<open>ValidateFunc\<close>, not on its
  warnings.  Validation accepts a configuration exactly when
  \<open>unmarshalIamPolicy\<close> decodes its \<open>policy_data\<close>: \<open>validateIamPolicy\<close> reports
  every decoding failure as an error.
\<close>

theorem config_valid_iff_decodes:
  "config_valid resource_google_organization_iam_policy cfg \<longleftrightarrow>
     (\<exists>p. unmarshal_iam_policy (cfg_policy_data cfg) = Inr p)"
  by (auto simp: config_valid_iam policy_data_ok_def validate_iam_policy_def split: sum.splits)

lemma keep_tracked_ok:
  "(rid d \<noteq> [] \<Longrightarrow> is_org_name (rid d) \<and> policy_data_ok (policy_data d)) \<Longrightarrow>
   tracked_ok \<lparr>tracked = keep d, store = r, tainted = t\<rparr>"
  by (simp add: tracked_ok_def keep_def)

lemma planned_data_ok:
  "policy_data_ok (policy_data d) \<Longrightarrow> policy_data_ok (cfg_policy_data cfg) \<Longrightarrow>
   policy_data_ok (policy_data (planned_data R d cfg))"
  by (simp add: planned_data_def)

lemma tf_step_tracked_ok:
  assumes "tf_step resource_google_organization_iam_policy w w'" and "tracked_ok w"
  shows "tracked_ok w'"
  using assms
proof (induction rule: tf_step.induct)
  case (create w cfg err d' r')
  then have cv: "policy_data_ok (cfg_policy_data cfg)" by (simp add: config_valid_iam)
  from create.hyps(3) have "resource_google_organization_iam_policy_create (new_data cfg) (store w) = (err, d', r')"
    by (simp add: resource_google_organization_iam_policy_def)
  from create_shape [OF this] cv show ?case
    by (intro keep_tracked_ok) (auto simp: new_data_def)
next
  case (update w d cfg err d' r')
  let ?R = resource_google_organization_iam_policy
  from update.prems update.hyps(1) have old: "is_org_name (rid d)" "policy_data_ok (policy_data d)"
    by (simp_all add: tracked_ok_def)
  from update.hyps(3) have "policy_data_ok (cfg_policy_data cfg)" by (simp add: config_valid_iam)
  with old(2) have pd: "policy_data_ok (policy_data (planned_data ?R d cfg))" by (rule planned_data_ok)
  have rd: "rid (planned_data ?R d cfg) = rid d" by (simp add: planned_data_def)
  from update.hyps(5) have "resource_google_organization_iam_policy_update (planned_data ?R d cfg) (store w) = (err, d', r')"
    by (simp add: resource_google_organization_iam_policy_def)
  from update_shape [OF this] pd rd old show ?case
    by (intro keep_tracked_ok) auto
next
  case (refresh w d err d' r')
  from refresh.prems refresh.hyps(1) have old: "is_org_name (rid d)" "policy_data_ok (policy_data d)"
    by (simp_all add: tracked_ok_def)
  from refresh.hyps(2) have "resource_google_organization_iam_policy_read d (store w) = (err, d', r')"
    by (simp add: resource_google_organization_iam_policy_def)
  from read_shape [OF this] old show ?case
    by (auto simp: tracked_ok_def keep_def)
next
  case (destroy w d err r')
  then show ?case by (simp add: tracked_ok_def)
next
  case (external res p m w q r')
  then show ?case by (simp add: tracked_ok_def)
next
  case (environment w f)
  then show ?case by (simp add: tracked_ok_def)
qed

text \<open>
  C12. In every state reachable from one that tracks nothing, a tracked resource
  has an id \<open>organizations/...\<close> and policy data that validates: the spec's invariant
  on \<open>policy_data\<close>, kept through creates, updates, refreshes, failed calls and
  writes by other actors.
\<close>

theorem reachable_tracked_ok:
  "reachable resource_google_organization_iam_policy w0 w \<Longrightarrow> tracked_ok w0 \<Longrightarrow> tracked_ok w"
  by (induction rule: reachable.induct) (auto intro: tf_step_tracked_ok)

section \<open>The tracked id names an existing policy\<close>

lemma tf_step_tracked_exists:
  assumes "tf_step resource_google_organization_iam_policy w w'" and "tracked_exists w"
  shows "tracked_exists w'"
  using assms
proof (induction rule: tf_step.induct)
  case (create w cfg err d' r')
  then show ?case
    using create_id_dom [of "new_data cfg" "store w" err d' r']
    by (auto simp: tracked_exists_def keep_def iam_handlers new_data_def)
next
  case (update w d cfg err d' r')
  then have "d' = planned_data resource_google_organization_iam_policy d cfg \<or>
             rid d' = [] \<or> rid d' = rid (planned_data resource_google_organization_iam_policy d cfg)"
    by (auto simp: iam_handlers dest!: update_shape)
  with update show ?case
    using update_dom [of "planned_data resource_google_organization_iam_policy d cfg" "store w" err d' r']
    by (auto simp: tracked_exists_def keep_def iam_handlers planned_data_def)
next
  case (refresh w d err d' r')
  then show ?case
    by (auto simp: tracked_exists_def keep_def iam_handlers dest!: read_rid)
next
  case (destroy w d err r')
  then show ?case
    using delete_dom [of d "store w" err r'] by (auto simp: tracked_exists_def iam_handlers)
next
  case (external res p m w q r')
  then show ?case
    using set_iam_policy_dom [of res p m "store w"] by (auto simp: tracked_exists_def split: option.splits)
next
  case (environment w f)
  then show ?case by (simp add: tracked_exists_def split: option.splits)
qed

text \<open>
  C26. In every state reachable from one that tracks nothing, the tracked id names an
  organization the store has a policy for: Read's 404 branch (C7) is reached only
  through a failure of the API, never through the resource's own steps or other
  actors' writes.
\<close>

theorem reachable_tracked_exists:
  "reachable resource_google_organization_iam_policy w0 w \<Longrightarrow> tracked w0 = None \<Longrightarrow>
   tracked w = Some d \<Longrightarrow> rid d \<in> dom (policies (store w))"
proof -
  assume run: "reachable resource_google_organization_iam_policy w0 w" and start: "tracked w0 = None"
    and t: "tracked w = Some d"
  from run have "tracked_exists w"
    by (induction rule: reachable.induct) (simp add: tracked_exists_def start, blast intro: tf_step_tracked_exists)
  with t show ?thesis by (simp add: tracked_exists_def)
qed
section \<open>Runs on the spec's scenario\<close>

lemma tf_step_create_run:
  assumes cv: "config_valid resource_google_organization_iam_policy cfg" and t: "tracked w = None"
    and ok: "fst (resource_google_organization_iam_policy_create (new_data cfg) (store w)) = None"
  shows "tf_step resource_google_organization_iam_policy w
     \<lparr>tracked = keep (fst (snd (resource_google_organization_iam_policy_create (new_data cfg) (store w)))),
      store = snd (snd (resource_google_organization_iam_policy_create (new_data cfg) (store w))),
      tainted = False\<rparr>"
proof -
  obtain err d' r' where x: "resource_google_organization_iam_policy_create (new_data cfg) (store w) = (err, d', r')"
    by (cases "resource_google_organization_iam_policy_create (new_data cfg) (store w)") auto
  have "tf_step resource_google_organization_iam_policy w \<lparr>tracked = keep d', store = r', tainted = (err \<noteq> None \<and> rid d' \<noteq> [])\<rparr>"
    using t cv x by (intro tf_step.create) (simp_all add: iam_handlers)
  with x ok show ?thesis by simp
qed

lemma ex_config_valid:
  "config_valid resource_google_organization_iam_policy (ex_cfg ''123'' ex_policy_json)"
  using ex_policy_json_parses by (simp add: config_valid_iam policy_data_ok_def validate_iam_policy_def)

lemma ex_create_ok:
  "fst (resource_google_organization_iam_policy_create (new_data (ex_cfg ''123'' ex_policy_json))
          (store ex_start)) = None"
  by code_simp

theorem reachable_tracked_ok_witness:
  "reachable resource_google_organization_iam_policy ex_start
     \<lparr>tracked = keep (fst (snd (resource_google_organization_iam_policy_create
                                 (new_data (ex_cfg ''123'' ex_policy_json)) (ex_remote empty_policy)))),
      store = snd (snd (resource_google_organization_iam_policy_create
                          (new_data (ex_cfg ''123'' ex_policy_json)) (ex_remote empty_policy))),
      tainted = False\<rparr>
   \<and> tracked_ok \<lparr>tracked = keep (fst (snd (resource_google_organization_iam_policy_create
                                 (new_data (ex_cfg ''123'' ex_policy_json)) (ex_remote empty_policy)))),
      store = snd (snd (resource_google_organization_iam_policy_create
                          (new_data (ex_cfg ''123'' ex_policy_json)) (ex_remote empty_policy))),
      tainted = False\<rparr>"
proof -
  have run: "reachable resource_google_organization_iam_policy ex_start
     \<lparr>tracked = keep (fst (snd (resource_google_organization_iam_policy_create
                                 (new_data (ex_cfg ''123'' ex_policy_json)) (ex_remote empty_policy)))),
      store = snd (snd (resource_google_organization_iam_policy_create
                          (new_data (ex_cfg ''123'' ex_policy_json)) (ex_remote empty_policy))),
      tainted = False\<rparr>"
    using reachable.step [OF reachable.start tf_step_create_run [OF ex_config_valid, of ex_start, OF _ ex_create_ok]] by simp
  have "tracked_ok ex_start" by (simp add: tracked_ok_def)
  with run show ?thesis using reachable_tracked_ok [OF run] by simp
qed

section \<open>What the destroy check can report\<close>

theorem reachable_tracked_exists_witness:
  "rid (fst (snd (resource_google_organization_iam_policy_create
                    (new_data (ex_cfg ''123'' ex_policy_json)) (ex_remote empty_policy))))
   \<in> dom (policies (snd (snd (resource_google_organization_iam_policy_create
                    (new_data (ex_cfg ''123'' ex_policy_json)) (ex_remote empty_policy)))))"
proof -
  let ?x = "resource_google_organization_iam_policy_create (new_data (ex_cfg ''123'' ex_policy_json)) (ex_remote empty_policy)"
  have run: "reachable resource_google_organization_iam_policy ex_start
               \<lparr>tracked = keep (fst (snd ?x)), store = snd (snd ?x), tainted = False\<rparr>"
    using reachable.step [OF reachable.start tf_step_create_run [OF ex_config_valid, of ex_start, OF _ ex_create_ok]] by simp
  have "rid (fst (snd ?x)) \<noteq> []" by code_simp
  then have "tracked \<lparr>tracked = keep (fst (snd ?x)), store = snd (snd ?x), tainted = False\<rparr> = Some (fst (snd ?x))"
    by (simp add: keep_def)
  from reachable_tracked_exists [OF run _ this] show ?thesis by simp
qed

text \<open>
  C14. The acceptance test's destroy check never reports that a policy still has
  bindings: whatever the store holds, its outcome is success, the missing-id error,
  or a nil-pointer panic (\<open>err != nil && len(policy.Bindings) > 0\<close> dereferences
  \<open>policy\<close> exactly when the call failed).
\<close>

theorem destroy_check_outcomes:
  "destroy_check rs r = CheckOk \<or> destroy_check rs r = CheckError ''No ID is set'' \<or>
   destroy_check rs r = Panic ''invalid memory address or nil pointer dereference''"
  by (induction rs r rule: destroy_check.induct) (simp_all split: prod.splits sum.splits)

text \<open>
  C18. When the read succeeds, the destroy check passes even if the organization's
  policy still has bindings.
\<close>

theorem destroy_check_passes_with_bindings:
  "rs_id \<noteq> [] \<Longrightarrow> fault r (GetIamPolicyCall rs_id) = None \<Longrightarrow> policies r rs_id = Some p \<Longrightarrow>
   destroy_check [(''google_organization_iam_policy'', rs_id)] r = CheckOk"
  by (simp add: get_iam_policy_found)

text \<open>
  C19. When the read fails, the destroy check dereferences the nil policy and panics
  instead of returning the error.
\<close>

theorem destroy_check_panics:
  "rs_id \<noteq> [] \<Longrightarrow> fault r (GetIamPolicyCall rs_id) = Some e \<Longrightarrow>
   destroy_check ((''google_organization_iam_policy'', rs_id) # rest) r =
     Panic ''invalid memory address or nil pointer dereference''"
  by (simp add: get_iam_policy_def)

theorem destroy_check_passes_with_bindings_witness:
  "destroy_check [(''google_organization_iam_policy'', ''organizations/123'')]
     (ex_remote \<lparr>bindings = [ex_binding ''roles/viewer''], etag = ''BwA'', version = 1\<rparr>) = CheckOk"
  using destroy_check_passes_with_bindings [of "''organizations/123''"
          "ex_remote \<lparr>bindings = [ex_binding ''roles/viewer''], etag = ''BwA'', version = 1\<rparr>"]
  by simp

theorem destroy_check_panics_witness:
  "destroy_check [(''google_organization_iam_policy'', ''organizations/123'')]
     ((ex_remote empty_policy)\<lparr>fault := (\<lambda>_. Some (ApiError 403 ''The caller does not have permission''))\<rparr>) =
     Panic ''invalid memory address or nil pointer dereference''"
  using destroy_check_panics [of "''organizations/123''"
          "(ex_remote empty_policy)\<lparr>fault := (\<lambda>_. Some (ApiError 403 ''The caller does not have permission''))\<rparr>"]
  by simp

end
