(* ===== verification/Acceptance_Test.thy ===== *)
theory Acceptance_Test
  imports Lifecycle
begin

text \<open>
  The acceptance test \<open>TestAccGoogleOrganizationIamPolicy_basic\<close> of
  \<open>resource_google_organization_iam_policy_test.go\<close>: its configuration template
  \<open>testAccGoogleOrganizationIamPolicy\<close>, its two steps (a binding for
  \<open>roles/viewer\<close>, then for \<open>roles/editor\<close>), and the test harness of
  \<open>helper/resource\<close> as the spec describes it: each step validates and applies its
  configuration, refreshes, and fails if the plan is then not empty; at the end the
  resources are destroyed and \<open>CheckDestroy\<close> runs on the last state's resources.
  One create, refresh and destroy of the orchestrator are functions here, each an
  instance of \<open>tf_step\<close>; one apply (create, update in place, or replacement of a
  tainted resource) is a run of \<open>tf_step\<close>.  Runs through API outages show how a
  tainted resource is replaced and how a failed Update is retried.
\<close>

section \<open>One apply, one refresh, one destroy\<close>

definition create_world :: "resource_def \<Rightarrow> config \<Rightarrow> world \<Rightarrow> res_error option \<times> world" where
  "create_world R cfg w =
     (case res_create R (new_data cfg) (store w) of
        (err, d', r') \<Rightarrow> (err, \<lparr>tracked = keep d', store = r', tainted = (err \<noteq> None \<and> rid d' \<noteq> [])\<rparr>))"

definition refresh_world :: "resource_def \<Rightarrow> world \<Rightarrow> res_error option \<times> world" where
  "refresh_world R w =
     (case tracked w of
        None \<Rightarrow> (None, w)
      | Some d \<Rightarrow> (case res_read R d (store w) of
                     (err, d', r') \<Rightarrow> (err, \<lparr>tracked = (if err = None then keep d' else Some d), store = r',
                                          tainted = (tainted w \<and> (err \<noteq> None \<or> rid d' \<noteq> []))\<rparr>)))"

definition destroy_world :: "resource_def \<Rightarrow> world \<Rightarrow> res_error option \<times> world" where
  "destroy_world R w =
     (case tracked w of
        None \<Rightarrow> (None, w)
      | Some d \<Rightarrow> (case res_delete R d (store w) of
                     (err, r') \<Rightarrow> (err, \<lparr>tracked = (if err = None then None else Some d), store = r',
                                      tainted = (err \<noteq> None \<and> tainted w)\<rparr>)))"

text \<open>
  The plan of a tracked resource is a replacement when it is tainted: Terraform
  destroys it and then creates it afresh, stopping at a failed destroy.
\<close>

definition apply_config :: "resource_def \<Rightarrow> config \<Rightarrow> world \<Rightarrow> res_error option \<times> world" where
  "apply_config R cfg w =
     (case tracked w of
        None \<Rightarrow> create_world R cfg w
      | Some d \<Rightarrow>
          if tainted w then
            (case destroy_world R w of
               (Some e, w1) \<Rightarrow> (Some e, w1)
             | (None, w1) \<Rightarrow> create_world R cfg w1)
          else if needs_update R d cfg then
            (case res_update R (planned_data R d cfg) (store w) of
               (err, d', r') \<Rightarrow> (err, \<lparr>tracked = keep d', store = r', tainted = False\<rparr>))
          else (None, w))"

section \<open>The test case\<close>

definition test_acc_config :: "string \<Rightarrow> string \<Rightarrow> string \<Rightarrow> string \<Rightarrow> config" where
  "test_acc_config org account_id role_name project =
     \<lparr>cfg_org_id = org,
      cfg_policy_data = marshal_iam_policy
        \<lparr>bindings = [\<lparr>members = [''serviceAccount:'' @ account_id @ ''@'' @ project @ ''.iam.gserviceaccount.com''],
                      role = role_name\<rparr>],
         etag = [], version = 0\<rparr>\<rparr>"

definition acc_test_basic_steps :: "string \<Rightarrow> string \<Rightarrow> string \<Rightarrow> config list" where
  "acc_test_basic_steps org account_id project =
     [test_acc_config org account_id ''roles/viewer'' project,
      test_acc_config org account_id ''roles/editor'' project]"

datatype test_result =
    TestPass
  | InvalidConfig nat
  | StepFailed nat res_error
  | PlanNotEmpty nat
  | DestroyFailed res_error
  | CheckDestroyFailed check_result

definition run_step :: "resource_def \<Rightarrow> nat \<Rightarrow> config \<Rightarrow> world \<Rightarrow> test_result + world" where
  "run_step R i cfg w =
     (if \<not> config_valid R cfg then Inl (InvalidConfig i)
      else case apply_config R cfg w of
        (Some e, _) \<Rightarrow> Inl (StepFailed i e)
      | (None, w1) \<Rightarrow>
          (case refresh_world R w1 of
             (Some e, _) \<Rightarrow> Inl (StepFailed i e)
           | (None, w2) \<Rightarrow>
               (case tracked w2 of
                  Some d \<Rightarrow> if tainted w2 \<or> needs_update R d cfg then Inl (PlanNotEmpty i) else Inr w2
                | None \<Rightarrow> Inl (PlanNotEmpty i))))"

fun run_steps :: "resource_def \<Rightarrow> nat \<Rightarrow> config list \<Rightarrow> world \<Rightarrow> test_result + world" where
  "run_steps R i [] w = Inr w"
| "run_steps R i (cfg # cfgs) w =
     (case run_step R i cfg w of Inl res \<Rightarrow> Inl res | Inr w' \<Rightarrow> run_steps R (Suc i) cfgs w')"

definition state_resources :: "world \<Rightarrow> (string \<times> string) list" where
  "state_resources w =
     (case tracked w of None \<Rightarrow> [] | Some d \<Rightarrow> [(''google_organization_iam_policy'', rid d)])"

definition acc_test :: "resource_def \<Rightarrow> config list \<Rightarrow> world \<Rightarrow> test_result" where
  "acc_test R steps w0 =
     (case run_steps R 1 steps w0 of
        Inl res \<Rightarrow> res
      | Inr w \<Rightarrow>
          (case destroy_world R w of
             (Some e, _) \<Rightarrow> DestroyFailed e
           | (None, w') \<Rightarrow>
               (case destroy_check (state_resources w) (store w') of
                  CheckOk \<Rightarrow> TestPass
                | c \<Rightarrow> CheckDestroyFailed c)))"

section \<open>Example values\<close>

abbreviation read_outage :: "rpc \<Rightarrow> api_error option" where
  "read_outage \<equiv> (\<lambda>c. if c = GetIamPolicyCall ''organizations/123''
                        then Some (ApiError 503 ''Service unavailable'') else None)"

abbreviation outage_start :: world where
  "outage_start \<equiv> \<lparr>tracked = None, store = (ex_remote empty_policy)\<lparr>fault := read_outage\<rparr>, tainted = False\<rparr>"

abbreviation outage_created :: world where
  "outage_created \<equiv> snd (apply_config resource_google_organization_iam_policy (ex_cfg ''123'' ex_policy_json) outage_start)"

abbreviation outage_over :: world where
  "outage_over \<equiv> outage_created\<lparr>store := (store outage_created)\<lparr>fault := (\<lambda>_. None)\<rparr>\<rparr>"

abbreviation write_outage :: "rpc \<Rightarrow> api_error option" where
  "write_outage \<equiv> (\<lambda>c. case c of SetIamPolicyCall _ _ _ \<Rightarrow> Some (ApiError 503 ''Service unavailable'')
                                | GetIamPolicyCall _ \<Rightarrow> None)"

abbreviation viewer_write_outage :: world where
  "viewer_write_outage \<equiv>
     \<lparr>tracked = Some (ex_data ''organizations/123'' ex_policy_json ex_policy_json),
      store = (ex_remote (empty_policy\<lparr>bindings := [ex_binding ''roles/viewer'']\<rparr>))\<lparr>fault := write_outage\<rparr>,
      tainted = False\<rparr>"

section \<open>Each function is a step of the orchestrator\<close>

lemma create_world_step:
  assumes "tracked w = None" and "config_valid R cfg"
  shows "tf_step R w (snd (create_world R cfg w))"
proof -
  obtain err d' r' where x: "res_create R (new_data cfg) (store w) = (err, d', r')"
    by (cases "res_create R (new_data cfg) (store w)") auto
  from assms x have "tf_step R w \<lparr>tracked = keep d', store = r', tainted = (err \<noteq> None \<and> rid d' \<noteq> [])\<rparr>"
    by (rule tf_step.create)
  with x show ?thesis by (simp only: create_world_def prod.case snd_conv)
qed

lemma refresh_world_step: "tf_step R w (snd (refresh_world R w)) \<or> snd (refresh_world R w) = w"
proof (cases "tracked w")
  case (Some d)
  obtain err d' r' where eq: "res_read R d (store w) = (err, d', r')" by (cases "res_read R d (store w)") auto
  from Some eq have "tf_step R w \<lparr>tracked = (if err = None then keep d' else Some d), store = r',
                        tainted = (tainted w \<and> (err \<noteq> None \<or> rid d' \<noteq> []))\<rparr>"
    by (rule tf_step.refresh)
  with Some eq show ?thesis by (simp only: refresh_world_def option.case prod.case snd_conv disjI1)
qed (simp add: refresh_world_def)

lemma destroy_world_step: "tf_step R w (snd (destroy_world R w)) \<or> snd (destroy_world R w) = w"
proof (cases "tracked w")
  case (Some d)
  obtain err r' where eq: "res_delete R d (store w) = (err, r')" by (cases "res_delete R d (store w)") auto
  from Some eq have "tf_step R w \<lparr>tracked = (if err = None then None else Some d), store = r',
                        tainted = (err \<noteq> None \<and> tainted w)\<rparr>"
    by (rule tf_step.destroy)
  with Some eq show ?thesis by (simp only: destroy_world_def option.case prod.case snd_conv disjI1)
qed (simp add: destroy_world_def)

lemma destroy_world_ok_untracked: "destroy_world R w = (None, w1) \<Longrightarrow> tracked w1 = None"
  by (auto simp: destroy_world_def split: option.splits prod.splits)

lemma reachable_step_or_stay: "reachable R w0 w \<Longrightarrow> tf_step R w w' \<or> w' = w \<Longrightarrow> reachable R w0 w'"
  by (auto intro: reachable.step)

lemma reachable_trans: "reachable R w1 w2 \<Longrightarrow> reachable R w0 w1 \<Longrightarrow> reachable R w0 w2"
  by (induction rule: reachable.induct) (auto intro: reachable.step)

lemma apply_config_reach:
  assumes cv: "config_valid R cfg"
  shows "reachable R w (snd (apply_config R cfg w))"
proof (cases "tracked w")
  case None
  with cv show ?thesis by (simp add: apply_config_def reachable.step [OF reachable.start create_world_step])
next
  case (Some d)
  show ?thesis
  proof (cases "tainted w")
    case True
    obtain e w1 where dw: "destroy_world R w = (e, w1)" by (cases "destroy_world R w") auto
    have r1: "reachable R w w1"
      using reachable_step_or_stay [OF reachable.start destroy_world_step [of R w]] dw by simp
    show ?thesis
    proof (cases e)
      case None
      with dw have "tracked w1 = None" by (simp add: destroy_world_ok_untracked)
      with cv r1 have "reachable R w (snd (create_world R cfg w1))"
        by (blast intro: reachable.step create_world_step)
      with Some True dw None show ?thesis by (simp add: apply_config_def)
    qed (use Some True dw r1 in \<open>simp add: apply_config_def\<close>)
  next
    case False
    with Some cv show ?thesis
      by (auto simp: apply_config_def intro: reachable.step [OF reachable.start] tf_step.update reachable.start
               split: prod.splits)
  qed
qed

lemma reachable_apply:
  "reachable R w0 w \<Longrightarrow> config_valid R cfg \<Longrightarrow> reachable R w0 (snd (apply_config R cfg w))"
  using apply_config_reach reachable_trans by blast

section \<open>Changing the organization\<close>

text \<open>
  C13. \<open>org_id\<close> is neither \<open>ForceNew\<close> nor read by Update except through
  \<open>setOrganizationIamPolicy\<close>: after the configuration moves the resource from
  organization 123 to 456 and then changes the policy, the id is still
  \<open>organizations/123\<close>, the new bindings were written to organization 456, and the state's
  \<open>policy_data\<close> is read back from organization 123 (here \<open>{}\<close>), so the plan never
  converges.  A reachable state whose id and \<open>org_id\<close> disagree.
\<close>

theorem org_change_keeps_old_id:
  "\<exists>w d. reachable resource_google_organization_iam_policy \<lparr>tracked = None, store = two_orgs, tainted = False\<rparr> w \<and>
         tracked w = Some d \<and> org_id d = ''456'' \<and> rid d = ''organizations/123'' \<and>
         policy_data d = ''{}'' \<and>
         (\<exists>q. policies (store w) ''organizations/456'' = Some q \<and> bindings q = [ex_binding ''roles/viewer''])"
proof -
  let ?R = resource_google_organization_iam_policy
  let ?w = "snd (apply_config ?R (ex_cfg ''456'' ex_policy_json)
              (snd (apply_config ?R (ex_cfg ''456'' ''{}'')
                (snd (apply_config ?R (ex_cfg ''123'' ''{}'') \<lparr>tracked = None, store = two_orgs, tainted = False\<rparr>)))))"
  have v: "config_valid ?R (ex_cfg ''123'' ''{}'')" "config_valid ?R (ex_cfg ''456'' ''{}'')"
          "config_valid ?R (ex_cfg ''456'' ex_policy_json)"
    by code_simp+
  have "reachable ?R \<lparr>tracked = None, store = two_orgs, tainted = False\<rparr> ?w"
    by (intro reachable_apply reachable.start v)
  moreover have "tracked ?w = Some \<lparr>rid = ''organizations/123'', org_id = ''456'', policy_data = ''{}'', state_policy_data = ''{}''\<rparr>"
    by code_simp
  moreover have "policies (store ?w) ''organizations/456'' =
                   Some \<lparr>bindings = [ex_binding ''roles/viewer''], etag = fresh_etag 1, version = 0\<rparr>"
    by code_simp
  ultimately show ?thesis by auto
qed
section \<open>A step converges exactly for canonical policies\<close>

lemma suppressed_marshal:
  assumes "unmarshal_iam_policy s = Inr p"
  shows "suppressed resource_google_organization_iam_policy ''policy_data'' (marshal_iam_policy q) s \<longleftrightarrow>
           bindings p = bindings q \<and> etag p = [] \<and> version p = 0"
proof (cases "marshal_iam_policy q = s")
  case True
  with assms unmarshal_print_encode [of "\<lparr>bindings = bindings q, etag = [], version = 0\<rparr>"]
  show ?thesis by (auto simp: suppressed_def marshal_iam_policy_def)
next
  case False
  with assms show ?thesis
    by (auto simp: suppressed_def field_of_policy_data json_policy_diff_suppress_def codec_simps)
qed

text \<open>
  C20. After creating the resource from a configuration whose policy decodes, the
  harness's refresh and plan are empty exactly when the configured policy has no
  etag and no version: otherwise Read's marshalled text, which drops both, never
  matches the configuration and every plan shows a diff.
\<close>

theorem apply_converges:
  assumes valid: "unmarshal_iam_policy (cfg_policy_data cfg) = Inr p"
    and org: "policies r (org_name (cfg_org_id cfg)) = Some cur"
    and etag_ok: "etag p = [] \<or> etag p = etag cur"
    and no_fault: "fault r = (\<lambda>_. None)"
  shows "(case run_step resource_google_organization_iam_policy i cfg \<lparr>tracked = None, store = r, tainted = False\<rparr> of
            Inr _ \<Rightarrow> etag p = [] \<and> version p = 0
          | Inl res \<Rightarrow> res = PlanNotEmpty i \<and> (etag p \<noteq> [] \<or> version p \<noteq> 0))"
  using assms
  by (auto simp: run_step_def apply_config_def create_world_def refresh_world_def
       iam_handlers config_valid_iam policy_data_ok_def validate_iam_policy_def
       resource_google_organization_iam_policy_create_def resource_google_organization_iam_policy_read_def
       set_organization_iam_policy_def set_iam_policy_def get_iam_policy_def Let_def keep_def new_data_def
       needs_update_def suppressed_marshal org_name_def)

theorem apply_converges_witness:
  "run_step resource_google_organization_iam_policy 1 (ex_cfg ''123'' ''{\"version\":1}'')
     \<lparr>tracked = None, store = ex_remote empty_policy, tainted = False\<rparr> = Inl (PlanNotEmpty 1)"
proof -
  have p: "unmarshal_iam_policy ''{\"version\":1}'' = Inr (empty_policy\<lparr>version := 1\<rparr>)" by code_simp
  show ?thesis
    using apply_converges [where cfg = "ex_cfg ''123'' ''{\"version\":1}''" and p = "empty_policy\<lparr>version := 1\<rparr>"
            and r = "ex_remote empty_policy" and cur = empty_policy and i = 1] p
    by (simp add: org_name_def empty_policy_def split: sum.splits)
qed
section \<open>Tainted resources\<close>

text \<open>
  C27. A tainted resource is repaired by one apply: when its policy and the
  configured organization exist, the configured policy has no etag and no call
  fails, the replacement succeeds, the resource is tracked again untainted under the
  configured organization, and the organization holds the configured bindings.
\<close>

theorem tainted_replaced:
  assumes t: "tracked w = Some d" "tainted w"
    and old: "policies (store w) (rid d) = Some q"
    and valid: "unmarshal_iam_policy (cfg_policy_data cfg) = Inr p" and no_etag: "etag p = []"
    and org: "policies (store w) (org_name (cfg_org_id cfg)) = Some cur"
    and no_fault: "fault (store w) = (\<lambda>_. None)"
  shows "\<exists>d' r'. apply_config resource_google_organization_iam_policy cfg w =
                   (None, \<lparr>tracked = Some d', store = r', tainted = False\<rparr>) \<and>
                 rid d' = org_name (cfg_org_id cfg) \<and>
                 map_option bindings (policies r' (org_name (cfg_org_id cfg))) = Some (bindings p)"
  using assms
  by (auto simp: apply_config_def create_world_def destroy_world_def
       iam_handlers resource_google_organization_iam_policy_create_def resource_google_organization_iam_policy_read_def
       resource_google_organization_iam_policy_delete_def
       set_organization_iam_policy_def set_iam_policy_def get_iam_policy_def Let_def keep_def new_data_def
       org_name_def empty_policy_def)

theorem tainted_replaced_witness:
  "\<exists>d' r'. apply_config resource_google_organization_iam_policy (ex_cfg ''123'' ex_policy_json) outage_over =
             (None, \<lparr>tracked = Some d', store = r', tainted = False\<rparr>) \<and>
           rid d' = ''organizations/123'' \<and>
           map_option bindings (policies r' ''organizations/123'') = Some [ex_binding ''roles/viewer'']"
proof -
  have t: "tracked outage_over = Some (ex_data ''organizations/123'' ex_policy_json [])" "tainted outage_over"
    and q: "policies (store outage_over) ''organizations/123'' =
              Some (empty_policy\<lparr>bindings := [ex_binding ''roles/viewer''], etag := fresh_etag 0\<rparr>)"
    by code_simp+
  have p: "unmarshal_iam_policy ex_policy_json = Inr \<lparr>bindings = [ex_binding ''roles/viewer''], etag = [], version = 0\<rparr>"
    by code_simp
  show ?thesis
    using tainted_replaced [OF t(1) t(2) _ _ _ _ _, where cfg = "ex_cfg ''123'' ex_policy_json"] q p
    by (simp add: org_name_def)
qed

section \<open>A failed update\<close>

text \<open>
  C28. A failed Update is retried only after a refresh.  When the \<open>setIamPolicy\<close>
  call of an Update fails, the apply returns the wrapped error together with the
  planned data, so Terraform records the configured \<open>policy_data\<close> while the store
  is unchanged but for the logged call, and a plan from that state is empty.  When
  the organization's bindings differ from the configured ones and the next read
  succeeds, the refresh brings them back into the state and the plan needs the
  update again.
\<close>

theorem failed_update_retried:
  assumes t: "tracked w = Some d" "rid d \<noteq> []" "\<not> tainted w"
    and change: "\<not> suppressed resource_google_organization_iam_policy ''policy_data'' (policy_data d) (cfg_policy_data cfg)"
    and p: "unmarshal_iam_policy (cfg_policy_data cfg) = Inr p"
    and fail: "fault (store w) (SetIamPolicyCall (org_name (cfg_org_id cfg)) p None) = Some e"
    and cur: "policies (store w) (rid d) = Some cur" "bindings cur \<noteq> bindings p"
    and read_ok: "fault (store w) (GetIamPolicyCall (rid d)) = None"
  shows "apply_config resource_google_organization_iam_policy cfg w =
           (Some (Wrapped ''Error updating the organization policy'' (Api e)),
            \<lparr>tracked = Some (planned_data resource_google_organization_iam_policy d cfg),
             store = log_call (SetIamPolicyCall (org_name (cfg_org_id cfg)) p None) (store w), tainted = False\<rparr>)
         \<and> \<not> needs_update resource_google_organization_iam_policy
                (planned_data resource_google_organization_iam_policy d cfg) cfg
         \<and> (\<exists>d'. tracked (snd (refresh_world resource_google_organization_iam_policy
                  (snd (apply_config resource_google_organization_iam_policy cfg w)))) = Some d' \<and>
                  needs_update resource_google_organization_iam_policy d' cfg)"
proof -
  let ?R = resource_google_organization_iam_policy
  let ?d = "planned_data ?R d cfg"
  let ?r = "log_call (SetIamPolicyCall (org_name (cfg_org_id cfg)) p None) (store w)"
  from change have pd: "policy_data ?d = cfg_policy_data cfg" and ch: "has_change_policy_data ?d"
    by (auto simp: planned_data_def has_change_policy_data_def suppressed_def)
  have nu: "needs_update ?R d cfg" using change by (simp add: needs_update_def)
  have upd: "resource_google_organization_iam_policy_update ?d (store w) =
               (Some (Wrapped ''Error updating the organization policy'' (Api e)), ?d, ?r)"
    using ch pd p fail
    by (simp add: resource_google_organization_iam_policy_update_def set_organization_iam_policy_def
                  set_iam_policy_def planned_data_def Let_def)
  have ap: "apply_config ?R cfg w =
              (Some (Wrapped ''Error updating the organization policy'' (Api e)),
               \<lparr>tracked = Some ?d, store = ?r, tainted = False\<rparr>)"
    using t nu upd by (simp add: apply_config_def iam_handlers keep_def planned_data_def)
  have quiet: "\<not> needs_update ?R ?d cfg"
    using pd by (simp add: needs_update_def planned_data_def suppressed_def)
  have rd: "resource_google_organization_iam_policy_read ?d ?r =
              (None, ?d\<lparr>policy_data := marshal_iam_policy cur\<rparr>, log_call (GetIamPolicyCall (rid d)) ?r)"
    using cur(1) read_ok
    by (simp add: resource_google_organization_iam_policy_read_def get_iam_policy_def planned_data_def)
  have "\<not> suppressed ?R ''policy_data'' (marshal_iam_policy cur) (cfg_policy_data cfg)"
    using suppressed_marshal [OF p, of cur] cur(2) by simp
  then have "needs_update ?R (?d\<lparr>policy_data := marshal_iam_policy cur\<rparr>) cfg"
    by (simp add: needs_update_def)
  with ap rd t(2) show ?thesis
    using quiet by (simp add: refresh_world_def iam_handlers keep_def planned_data_def)
qed

theorem failed_update_retried_witness:
  "\<exists>d'. tracked (snd (refresh_world resource_google_organization_iam_policy
          (snd (apply_config resource_google_organization_iam_policy (ex_cfg ''123'' ex_editor_json)
                  viewer_write_outage)))) = Some d' \<and>
        needs_update resource_google_organization_iam_policy d' (ex_cfg ''123'' ex_editor_json)"
proof -
  have c: "\<not> suppressed resource_google_organization_iam_policy ''policy_data'' ex_policy_json ex_editor_json"
    by code_simp
  have "apply_config resource_google_organization_iam_policy (ex_cfg ''123'' ex_editor_json) viewer_write_outage =
          (Some (Wrapped ''Error updating the organization policy'' (Api (ApiError 503 ''Service unavailable''))),
           \<lparr>tracked = Some (planned_data resource_google_organization_iam_policy
                             (ex_data ''organizations/123'' ex_policy_json ex_policy_json) (ex_cfg ''123'' ex_editor_json)),
            store = log_call (SetIamPolicyCall (org_name (cfg_org_id (ex_cfg ''123'' ex_editor_json))) \<lparr>bindings = [ex_binding ''roles/editor''], etag = [], version = 0\<rparr> None)
                      (store viewer_write_outage),
            tainted = False\<rparr>)
        \<and> \<not> needs_update resource_google_organization_iam_policy
               (planned_data resource_google_organization_iam_policy
                  (ex_data ''organizations/123'' ex_policy_json ex_policy_json) (ex_cfg ''123'' ex_editor_json))
               (ex_cfg ''123'' ex_editor_json)
        \<and> (\<exists>d'. tracked (snd (refresh_world resource_google_organization_iam_policy
                 (snd (apply_config resource_google_organization_iam_policy (ex_cfg ''123'' ex_editor_json)
                         viewer_write_outage)))) = Some d' \<and>
                 needs_update resource_google_organization_iam_policy d' (ex_cfg ''123'' ex_editor_json))"
    by (rule failed_update_retried [where cur = "empty_policy\<lparr>bindings := [ex_binding ''roles/viewer'']\<rparr>"])
       (simp_all add: c ex_editor_json_parses org_name_def)
  then show ?thesis by (elim conjE)
qed

end
