(* ===== verification/Abstract.thy ===== *)
theory Abstract
  imports Lifecycle
begin

text \<open>
  An abstract specification of what the resource promises, after the spec's
  \<open>{absent, present}\<close> model with Delete as a reset: the remote side is a map from
  organization names to their binding lists, read with \<open>spec_get\<close> and written with
  \<open>spec_set\<close> (which fails for an unknown organization).  \<open>abs_remote\<close> forgets
  etags, versions, the call log and the failures; the lemmas show that the API
  calls, the handlers and every orchestrator step refine these operations.
\<close>

section \<open>The abstract store\<close>

type_synonym abs_store = "string \<rightharpoonup> binding list"

definition abs_remote :: "remote \<Rightarrow> abs_store" where
  "abs_remote r = (\<lambda>res. map_option bindings (policies r res))"

definition spec_get :: "string \<Rightarrow> abs_store \<Rightarrow> binding list option" where
  "spec_get org s = s org"

definition spec_set :: "string \<Rightarrow> binding list \<Rightarrow> abs_store \<Rightarrow> abs_store option" where
  "spec_set org bs s = (case s org of None \<Rightarrow> None | Some _ \<Rightarrow> Some (s(org \<mapsto> bs)))"

definition abs_result :: "(api_error + policy) \<times> remote \<Rightarrow> abs_store option" where
  "abs_result x = (case x of (Inr _, r') \<Rightarrow> Some (abs_remote r') | (Inl _, _) \<Rightarrow> None)"

abbreviation viewer_remote :: remote where
  "viewer_remote \<equiv> ex_remote \<lparr>bindings = [ex_binding ''roles/viewer''], etag = ''BwA'', version = 1\<rparr>"

section \<open>Refinement of the calls and handlers\<close>

lemma abs_remote_log [simp]: "abs_remote (log_call c r) = abs_remote r"
  by (simp add: abs_remote_def)

lemma set_iam_policy_abs:
  "set_iam_policy res p m r = (x, r') \<Longrightarrow>
   abs_remote r' = abs_remote r \<or> spec_set res (bindings p) (abs_remote r) = Some (abs_remote r')"
  by (auto simp: set_iam_policy_def spec_set_def abs_remote_def Let_def fun_eq_iff
           split: option.splits if_splits)

lemma set_iam_policy_Inr_abs:
  "set_iam_policy res p m r = (Inr q, r') \<Longrightarrow> spec_set res (bindings p) (abs_remote r) = Some (abs_remote r')"
  by (auto simp: set_iam_policy_Inr spec_set_def abs_remote_def fun_eq_iff)

lemma read_abs:
  "resource_google_organization_iam_policy_read d r = (err, d', r') \<Longrightarrow> abs_remote r' = abs_remote r"
  by (auto dest: read_store)

lemma set_organization_iam_policy_abs:
  assumes "set_organization_iam_policy d r = (err, r')"
  shows "abs_remote r' = abs_remote r \<or>
         (\<exists>p. unmarshal_iam_policy (policy_data d) = Inr p \<and>
              spec_set (org_name (org_id d)) (bindings p) (abs_remote r) = Some (abs_remote r'))"
  using assms
  by (auto simp: set_organization_iam_policy_def Let_def split: sum.splits prod.splits dest: set_iam_policy_abs)

lemma set_organization_iam_policy_ok_abs:
  "set_organization_iam_policy d r = (None, r') \<Longrightarrow> unmarshal_iam_policy (policy_data d) = Inr p \<Longrightarrow>
   spec_set (org_name (org_id d)) (bindings p) (abs_remote r) = Some (abs_remote r')"
  by (auto simp: set_organization_iam_policy_def Let_def split: sum.splits prod.splits dest: set_iam_policy_Inr_abs)

text \<open>
  C21. A successful Create refines the abstract write of the configured bindings to
  \<open>organizations/<org_id>\<close>.
\<close>

theorem create_refines:
  "resource_google_organization_iam_policy_create d r = (None, d', r') \<Longrightarrow>
   unmarshal_iam_policy (policy_data d) = Inr p \<Longrightarrow>
   spec_set (org_name (org_id d)) (bindings p) (abs_remote r) = Some (abs_remote r')"
  by (auto simp: resource_google_organization_iam_policy_create_def split: prod.splits option.splits
           dest!: read_abs set_organization_iam_policy_ok_abs)

text \<open>
  C22. A successful Update refines the abstract write of the configured bindings when
  \<open>policy_data\<close> changed, and leaves the abstract store unchanged otherwise.
\<close>

theorem update_refines:
  "resource_google_organization_iam_policy_update d r = (None, d', r') \<Longrightarrow>
   unmarshal_iam_policy (policy_data d) = Inr p \<Longrightarrow>
   (if has_change_policy_data d
    then spec_set (org_name (org_id d)) (bindings p) (abs_remote r) = Some (abs_remote r')
    else abs_remote r' = abs_remote r)"
  by (auto simp: resource_google_organization_iam_policy_update_def split: prod.splits option.splits if_splits
           dest!: read_abs set_organization_iam_policy_ok_abs)

text \<open>
  C23. A successful Delete refines the abstract reset: the organization is mapped to
  no bindings, not removed.
\<close>

theorem delete_refines:
  "resource_google_organization_iam_policy_delete d r = (None, r') \<Longrightarrow>
   spec_set (rid d) [] (abs_remote r) = Some (abs_remote r')"
  by (auto simp: resource_google_organization_iam_policy_delete_def empty_policy_def
           split: prod.splits sum.splits dest!: set_iam_policy_Inr_abs)

text \<open>
  C24. A successful Read that keeps the id changes nothing abstract, and the
  \<open>policy_data\<close> it stores decodes to exactly the abstract bindings of the
  organization.
\<close>

theorem read_refines:
  "resource_google_organization_iam_policy_read d r = (None, d', r') \<Longrightarrow> rid d' \<noteq> [] \<Longrightarrow>
   abs_remote r' = abs_remote r \<and>
   (\<exists>bs. spec_get (rid d) (abs_remote r) = Some bs \<and>
         unmarshal_iam_policy (policy_data d') = Inr \<lparr>bindings = bs, etag = [], version = 0\<rparr>)"
  by (auto simp: resource_google_organization_iam_policy_read_def get_iam_policy_def handle_not_found_error_def
                 spec_get_def abs_remote_def codec_simps Let_def
           split: prod.splits sum.splits option.splits if_splits)

section \<open>Witnesses\<close>

theorem create_refines_witness:
  "spec_set ''organizations/123'' [ex_binding ''roles/viewer''] (abs_remote (ex_remote empty_policy))
   = Some (abs_remote (snd (snd (resource_google_organization_iam_policy_create
                                   (ex_data [] ex_policy_json []) (ex_remote empty_policy)))))"
proof -
  have ok: "fst (resource_google_organization_iam_policy_create (ex_data [] ex_policy_json []) (ex_remote empty_policy)) = None"
    by code_simp
  show ?thesis
    using create_refines [OF outcome_eq [OF ok]] ex_policy_json_parses by (simp add: org_name_def)
qed

theorem update_refines_witness:
  "spec_set ''organizations/123'' [ex_binding ''roles/editor''] (abs_remote viewer_remote)
   = Some (abs_remote (snd (snd (resource_google_organization_iam_policy_update
                                   (ex_data ''organizations/123'' ex_editor_json ex_policy_json) viewer_remote))))"
proof -
  have ok: "fst (resource_google_organization_iam_policy_update
                   (ex_data ''organizations/123'' ex_editor_json ex_policy_json) viewer_remote) = None"
    by code_simp
  have ch: "has_change_policy_data (ex_data ''organizations/123'' ex_editor_json ex_policy_json)"
    by (simp add: has_change_policy_data_def)
  show ?thesis
    using update_refines [OF outcome_eq [OF ok]] ex_editor_json_parses ch by (simp add: org_name_def)
qed

theorem delete_refines_witness:
  "spec_set ''organizations/123'' [] (abs_remote viewer_remote)
   = Some (abs_remote (snd (resource_google_organization_iam_policy_delete
                              (ex_data ''organizations/123'' ''{}'' ''{}'') viewer_remote)))"
proof -
  have ok: "fst (resource_google_organization_iam_policy_delete (ex_data ''organizations/123'' ''{}'' ''{}'') viewer_remote) = None"
    by code_simp
  show ?thesis using delete_refines [OF result_eq [OF ok]] by simp
qed

theorem read_refines_witness:
  "spec_get ''organizations/123'' (abs_remote viewer_remote) = Some [ex_binding ''roles/viewer'']
   \<and> unmarshal_iam_policy (policy_data (fst (snd (resource_google_organization_iam_policy_read
                                                    (ex_data ''organizations/123'' ''{}'' ''{}'') viewer_remote))))
     = Inr \<lparr>bindings = [ex_binding ''roles/viewer''], etag = [], version = 0\<rparr>"
proof -
  let ?x = "resource_google_organization_iam_policy_read (ex_data ''organizations/123'' ''{}'' ''{}'') viewer_remote"
  have ok: "fst ?x = None" and id: "rid (fst (snd ?x)) = ''organizations/123''" by code_simp+
  have g: "spec_get ''organizations/123'' (abs_remote viewer_remote) = Some [ex_binding ''roles/viewer'']"
    by (simp add: spec_get_def abs_remote_def)
  show ?thesis
    using read_refines [OF outcome_eq [OF ok]] id g by simp
qed

end
