(* ===== verification/Spec2Isabelle.thy ===== *)
theory Spec2Isabelle
  imports Acceptance_Test Abstract
begin

text \<open>
  \<^bold>\<open>A verification library of \<open>google_organization_iam_policy\<close>.\<close>

  \<^bold>\<open>The program.\<close>  \<open>src/google/resource_google_organization_iam_policy.go\<close> is a
  Terraform resource that owns the whole IAM policy of a Google Cloud organization.
  Its schema (\<open>resourceGoogleOrganizationIamPolicy\<close>) has two required strings,
  \<open>org_id\<close> and \<open>policy_data\<close>, the second with the diff suppressor
  \<open>jsonPolicyDiffSuppress\<close> and the validator \<open>validateIamPolicy\<close>.  Create writes the
  configured policy (\<open>setOrganizationIamPolicy\<close>), sets the id
  \<open>organizations/<org_id>\<close> and reads back; Read calls \<open>getIamPolicy\<close> and stores
  \<open>marshalIamPolicy\<close> of the answer, or clears the id on 404
  (\<open>handleNotFoundError\<close>); Update writes only if \<open>policy_data\<close> changed and reads
  back; Delete writes an empty policy with update mask \<open>bindings\<close>.  The helpers
  (un)marshal policies through Go's \<open>encoding/json\<close>.
  \<open>src/google/resource_google_organization_iam_policy_test.go\<close> holds the acceptance
  test and its destroy check.

  \<^bold>\<open>The theories.\<close>
  \<^item> \<open>Prelude\<close>: the named collections \<open>codec_simps\<close> and \<open>roundtrip_laws\<close>, the
    \<open>int64\<close> type (\<open>64 word\<close>), decimal and hexadecimal digits and their round trips.
  \<^item> \<open>Json\<close>: the part of \<open>encoding/json\<close> the helpers use, modelled from its
    documented behaviour: the \<open>json\<close> value type, the printer \<open>print_json\<close>
    (\<open>json.Marshal\<close>, HTML-safe escapes, U+2028 and U+2029 escaped, no spaces) and the decoder \<open>json_decode\<close>
    (\<open>json.Unmarshal\<close>'s syntax check and value construction, strings with all escapes,
    \<open>\u\<close> surrogate pairs, number literals kept as text).  The decoder is a
    mutually recursive descent with fuel; \<open>json_decode\<close> gives it
    \<open>Suc (length s)\<close>, which is enough because every nested value consumes at least one
    character (\<open>json_decode_fuel\<close> shows the decoder never runs out).
  \<^item> \<open>Policy\<close>: \<open>cloudresourcemanager.Policy\<close> and \<open>Binding\<close> as records with their
    JSON field mapping (\<open>omitempty\<close>, keys matched with Go's case folding, \<open>null\<close>, unknown keys
    skipped, \<open>version\<close> an \<open>int64\<close> parsed with the range check of \<open>strconv\<close>), and the
    source's \<open>marshalIamPolicy\<close>, \<open>unmarshalIamPolicy\<close>, \<open>validateIamPolicy\<close> and
    \<open>jsonPolicyDiffSuppress\<close>.
  \<^item> \<open>Remote\<close>: the Cloud Resource Manager as the spec describes it: a map from
    resource names to policies, a serial for fresh etags, a log of calls, injected
    faults; \<open>get_iam_policy\<close> (404 when absent) and \<open>set_iam_policy\<close> (409 on an etag
    mismatch, new etag otherwise).
  \<^item> \<open>Resource\<close>: \<open>schema.ResourceData\<close> as the record \<open>resource_data\<close> (id, the two
    attributes, and the prior \<open>policy_data\<close> that \<open>HasChange\<close> compares with), the
    four handlers and \<open>setOrganizationIamPolicy\<close> as functions returning
    (error option, data, store), \<open>handleNotFoundError\<close>, and the \<open>schema.Resource\<close>
    value as a \<open>resource_def\<close> record, the interface the orchestrator calls.
  \<^item> \<open>Lifecycle\<close>: the orchestrator as an inductive step relation \<open>tf_step\<close> over any
    \<open>resource_def\<close> (validate, plan with the diff suppressor, create, update, refresh,
    destroy, writes by other actors, and failures of the API that appear and clear),
    its reachable states, and the destroy check of the acceptance test
    (\<open>testAccCheckGoogleOrganizationIamPolicyDestroy\<close>).  A world records whether
    the tracked resource is tainted: Terraform taints a resource whose Create
    returned an error after setting its id, a tainted resource is never updated in
    place, and a refresh that loses its id drops the taint.
  \<^item> \<open>Acceptance_Test\<close>: one create, refresh and destroy as functions
    (\<open>create_world\<close>, \<open>refresh_world\<close>, \<open>destroy_world\<close>), each shown to be a
    \<open>tf_step\<close> or no step, and one apply (\<open>apply_config\<close>: create, update in
    place, or for a tainted resource destroy then create), shown to be a run of
    \<open>tf_step\<close>; the configuration template \<open>testAccGoogleOrganizationIamPolicy\<close>
    (\<open>test_acc_config\<close>, the service account's member written out), the two steps of
    \<open>TestAccGoogleOrganizationIamPolicy_basic\<close>, and the \<open>helper/resource\<close> harness
    (\<open>run_step\<close>: validate, apply, refresh, fail on a non-empty plan; \<open>acc_test\<close>:
    the steps, then destroy and \<open>CheckDestroy\<close> on the last state's resources).
  \<^item> \<open>Abstract\<close>: the abstract specification (organization names to binding lists,
    \<open>spec_get\<close>, \<open>spec_set\<close>) and the abstraction \<open>abs_remote\<close> of the store.
  \<^item> this theory: properties that span the handlers and the codec.

  \<^bold>\<open>What is shown.\<close>  Each handler's behaviour on every branch (C1, C3--C7, C11,
  C15), including a Create whose read fails after its write (C25); the
  marshal/unmarshal round trip, what diff suppression means, and that the stored
  text determines the bindings (C2, C8, C9), resting on the codec's own round trip
  and totality lemmas in \<open>Json\<close>; that validation accepts exactly the configurations
  whose policy decodes (C10); the tracked state's invariants over every run: it is
  well-formed and its id always names an existing policy (C12, C26); the
  consequences that span components: an \<open>org_id\<close> change strands the id (C13),
  write-backs never conflict and overwrite concurrent changes (C16), a deleted
  policy reads back as \<open>{}\<close> (C17); that the test's destroy check cannot detect a
  remaining policy and panics when the read fails (C14, C18, C19); that a step's
  plan is empty after apply exactly for policies without etag and version (C20);
  that each handler refines the abstract specification (C21--C24); that one apply
  on a fault-free store repairs a tainted resource (C27); and that a failed Update
  leaves the configured text in the state, so only a refresh brings the change back
  into the plan (C28).

  \<^bold>\<open>Not modelled.\<close>  Terraform core beyond the callback contract (state files,
  provider configuration, retries and timeouts, \<open>create_before_destroy\<close>
  replacement); HTTP
  transport, authentication and
  error texts of the client library (faults are arbitrary \<open>api_error\<close> values);
  \<open>auditConfigs\<close> and the other Policy fields the source never reads; of
  \<open>encoding/json\<close>: merging into an existing slice for a duplicated key (a
  duplicate key decodes from zero here), a \<open>null\<close> binding element (rejected here),
  and the printer's replacement of invalid UTF-8 by U+FFFD (the strings the source
  marshals come decoded from the API and are valid UTF-8).  \<open>testAccCheckGoogleOrganizationIamPolicy\<close> has an empty body (the
  test file does not compile with it), so it has no behaviour to model, and no
  theorem claims that the acceptance test passes: \<open>acc_test\<close> models the steps and
  the harness only; of the test
  configuration only the values the resource receives are modelled (the
  \<open>google_service_account\<close> and \<open>google_iam_policy\<close> data source are other
  resources of the provider, outside \<open>src/\<close>).
\<close>

section \<open>Delete, then refresh\<close>

lemma delete_ok_store:
  "resource_google_organization_iam_policy_delete d r = (None, r') \<Longrightarrow>
   \<exists>cur. policies r' (rid d) = Some cur \<and> bindings cur = [] \<and> fault r' = fault r"
  by (auto simp: resource_google_organization_iam_policy_delete_def set_iam_policy_Inr empty_policy_def
           split: prod.splits sum.splits)

text \<open>
  C17. After a successful Delete, a refresh of the same resource (still in the state
  when Terraform refreshes before removing it, or when another configuration still
  declares it) succeeds, keeps the id, and reads \<open>policy_data = "{}"\<close>: Delete
  resets the bindings to none rather than removing the policy.
\<close>

theorem read_after_delete:
  assumes "resource_google_organization_iam_policy_delete d r = (None, r')"
    and "fault r (GetIamPolicyCall (rid d)) = None"
  shows "resource_google_organization_iam_policy_read d r' =
           (None, d\<lparr>policy_data := ''{}''\<rparr>, log_call (GetIamPolicyCall (rid d)) r')"
proof -
  obtain cur where "policies r' (rid d) = Some cur" "bindings cur = []" "fault r' = fault r"
    using delete_ok_store [OF assms(1)] by blast
  with assms(2) show ?thesis by (simp add: read_found get_iam_policy_found marshal_no_bindings)
qed

text \<open>
  C16. Policy data produced by Read (\<open>marshalIamPolicy\<close>) carries no etag, so a
  write of it through \<open>setOrganizationIamPolicy\<close> is never refused with 409: it replaces
  whatever bindings the organization has, including ones another actor wrote since the
  last read (the lost update the spec's concurrency note describes).
\<close>

theorem write_back_overwrites:
  assumes "policy_data d = marshal_iam_policy q"
    and "policies r (org_name (org_id d)) = Some cur"
    and "fault r (SetIamPolicyCall (org_name (org_id d)) \<lparr>bindings = bindings q, etag = [], version = 0\<rparr> None) = None"
  shows "set_organization_iam_policy d r =
     (None, (log_call (SetIamPolicyCall (org_name (org_id d)) \<lparr>bindings = bindings q, etag = [], version = 0\<rparr> None) r)
              \<lparr>policies := (policies r)(org_name (org_id d) \<mapsto> cur\<lparr>bindings := bindings q, etag := fresh_etag (serial r)\<rparr>),
               serial := Suc (serial r)\<rparr>)"
  using set_organization_iam_policy_written [where d = d and p = "\<lparr>bindings = bindings q, etag = [], version = 0\<rparr>", OF _ assms(2) _ assms(3)]
        assms(1)
  by (simp add: codec_simps)

theorem read_after_delete_witness:
  "resource_google_organization_iam_policy_read (ex_data ''organizations/123'' ex_policy_json ex_policy_json)
     (snd (resource_google_organization_iam_policy_delete (ex_data ''organizations/123'' ex_policy_json ex_policy_json)
             (ex_remote \<lparr>bindings = [ex_binding ''roles/viewer''], etag = ''BwA'', version = 1\<rparr>)))
   = (None, ex_data ''organizations/123'' ''{}'' ex_policy_json,
      (ex_remote \<lparr>bindings = [], etag = fresh_etag 0, version = 1\<rparr>)
        \<lparr>serial := 1, calls := [SetIamPolicyCall ''organizations/123'' empty_policy (Some ''bindings''),
                               GetIamPolicyCall ''organizations/123'']\<rparr>)"
proof -
  let ?d = "ex_data ''organizations/123'' ex_policy_json ex_policy_json"
  let ?r = "ex_remote \<lparr>bindings = [ex_binding ''roles/viewer''], etag = ''BwA'', version = 1\<rparr>"
  let ?r' = "(ex_remote \<lparr>bindings = [], etag = fresh_etag 0, version = 1\<rparr>)
        \<lparr>serial := 1, calls := [SetIamPolicyCall ''organizations/123'' empty_policy (Some ''bindings'')]\<rparr>"
  have del: "resource_google_organization_iam_policy_delete ?d ?r = (None, ?r')"
    by (simp add: resource_google_organization_iam_policy_delete_def set_iam_policy_def empty_policy_def Let_def log_call_def)
  show ?thesis
    using read_after_delete [OF del] del by (simp add: log_call_def)
qed

theorem write_back_overwrites_witness:
  "set_organization_iam_policy
     (ex_data ''organizations/123'' (marshal_iam_policy \<lparr>bindings = [ex_binding ''roles/viewer''], etag = ''BwA'', version = 1\<rparr>) [])
     (ex_remote \<lparr>bindings = [ex_binding ''roles/editor''], etag = ''BwB'', version = 1\<rparr>) =
   (None, (ex_remote \<lparr>bindings = [ex_binding ''roles/viewer''], etag = fresh_etag 0, version = 1\<rparr>)
            \<lparr>serial := 1, calls := [SetIamPolicyCall ''organizations/123''
                                      \<lparr>bindings = [ex_binding ''roles/viewer''], etag = [], version = 0\<rparr> None]\<rparr>)"
  using write_back_overwrites [where d = "ex_data ''organizations/123'' (marshal_iam_policy \<lparr>bindings = [ex_binding ''roles/viewer''], etag = ''BwA'', version = 1\<rparr>) []"
          and q = "\<lparr>bindings = [ex_binding ''roles/viewer''], etag = ''BwA'', version = 1\<rparr>"
          and r = "ex_remote \<lparr>bindings = [ex_binding ''roles/editor''], etag = ''BwB'', version = 1\<rparr>"
          and cur = "\<lparr>bindings = [ex_binding ''roles/editor''], etag = ''BwB'', version = 1\<rparr>"]
  by (simp add: org_name_def log_call_def)
end
